(* ===== verification/Prelude.thy ===== *)
theory Prelude
  imports Complex_Main
begin

text \<open>
  Shared vocabulary of the development: the types that name identifiers, text, money and
  time; the error values of the HTTP layer (\<open>jsonify({'error': ...}), code\<close> in
  \<open>src/back/app.py\<close>); an exception-and-state monad in which every handler of the
  backend is written (an error keeps the state reached so far, because every
  \<open>execute_query\<close> of \<open>src/back/database.py\<close> commits on its own); Python's
  truthiness tests; the enumeration of a table's rows in id order; and the generic lemmas
  on these that the component theories share.
\<close>

named_theorems exc_simps "monad laws and evaluation rules of the exception-state monad"
named_theorems table_simps "lookup and enumeration rules of the tables"

section \<open>Types\<close>

text \<open>
  User-visible text (names, descriptions, tokens, chat ids as they are stored in the
  \<open>TEXT\<close> column, message text of the bot) is a list of Unicode code points, so that
  the bot's Cyrillic sentinel word and its lower-casing can be written. \<open>ustr\<close> turns an
  ASCII literal into that form.
\<close>

type_synonym ustr = "nat list"
type_synonym uid = nat
type_synonym pid = nat
type_synonym oid = nat
type_synonym tgid = ustr
type_synonym time = nat
type_synonym money = rat

definition ustr :: "string \<Rightarrow> ustr" where
  "ustr s = map of_char s"

fun show_nat :: "nat \<Rightarrow> ustr" where
  "show_nat n = (if n < 10 then [48 + n] else show_nat (n div 10) @ [48 + n mod 10])"

definition show_int :: "int \<Rightarrow> ustr" where
  "show_int i = (if i < 0 then 45 # show_nat (nat (- i)) else show_nat (nat i))"

lemma ustr_eq_iff: "ustr a = ustr b \<longleftrightarrow> a = b"
  unfolding ustr_def by (rule inj_map_eq_map) (simp add: inj_on_def)

section \<open>Errors of the HTTP layer\<close>

text \<open>
  Every \<open>return jsonify({'error': msg}), code\<close> of the backend and every uncaught
  exception (Flask answers 500) is one of these values; the code is recovered by
  \<open>http_status\<close>.
\<close>

datatype api_error =
    BadRequest ustr
  | Unauthorized ustr
  | NotFound ustr
  | ServerError ustr

fun http_status :: "api_error \<Rightarrow> nat" where
  "http_status (BadRequest _) = 400"
| "http_status (Unauthorized _) = 401"
| "http_status (NotFound _) = 404"
| "http_status (ServerError _) = 500"

section \<open>The exception-state monad\<close>

text \<open>
  \<open>('s, 'a) exc\<close> is a computation on a state \<open>'s\<close> that either raises an
  \<open>api_error\<close> or returns an \<open>'a\<close>; in both cases the state it reached is kept,
  as a committed SQLite statement stays committed when a later one raises.
\<close>

type_synonym ('s, 'a) exc = "'s \<Rightarrow> (api_error + 'a) \<times> 's"

definition eret :: "'a \<Rightarrow> ('s, 'a) exc" where
  "eret a s = (Inr a, s)"

definition eraise :: "api_error \<Rightarrow> ('s, 'a) exc" where
  "eraise e s = (Inl e, s)"

definition ebind :: "('s, 'a) exc \<Rightarrow> ('a \<Rightarrow> ('s, 'b) exc) \<Rightarrow> ('s, 'b) exc" where
  "ebind m f s = (case m s of (Inl e, s') \<Rightarrow> (Inl e, s') | (Inr a, s') \<Rightarrow> f a s')"

text \<open>A Python \<open>for\<close> loop with an accumulator, stopping at the first exception.\<close>

fun efold :: "('b \<Rightarrow> 'a \<Rightarrow> ('s, 'b) exc) \<Rightarrow> 'a list \<Rightarrow> 'b \<Rightarrow> ('s, 'b) exc" where
  "efold f [] b = eret b"
| "efold f (x # xs) b = ebind (f b x) (\<lambda>b'. efold f xs b')"

text \<open>A \<open>for\<close> loop run for its effects only.\<close>

fun eforeach :: "('a \<Rightarrow> ('s, unit) exc) \<Rightarrow> 'a list \<Rightarrow> ('s, unit) exc" where
  "eforeach f [] = eret ()"
| "eforeach f (x # xs) = ebind (f x) (\<lambda>_. eforeach f xs)"

text \<open>A \<open>for\<close> loop that appends one result per element.\<close>

fun emap :: "('a \<Rightarrow> ('s, 'b) exc) \<Rightarrow> 'a list \<Rightarrow> ('s, 'b list) exc" where
  "emap f [] = eret []"
| "emap f (x # xs) = ebind (f x) (\<lambda>y. ebind (emap f xs) (\<lambda>ys. eret (y # ys)))"

lemma eret_apply [exc_simps]: "eret a s = (Inr a, s)"
  by (simp add: eret_def)

lemma eraise_apply [exc_simps]: "eraise e s = (Inl e, s)"
  by (simp add: eraise_def)

lemma ebind_Inr [exc_simps]: "m s = (Inr a, s') \<Longrightarrow> ebind m f s = f a s'"
  by (simp add: ebind_def)

lemma ebind_Inl [exc_simps]: "m s = (Inl e, s') \<Longrightarrow> ebind m f s = (Inl e, s')"
  by (simp add: ebind_def)

lemma ebind_eret [exc_simps]: "ebind (eret a) f = f a"
  by (simp add: ebind_def eret_def fun_eq_iff)

lemma ebind_eraise [exc_simps]: "ebind (eraise e) f = eraise e"
  by (simp add: ebind_def eraise_def fun_eq_iff)

lemma ebind_assoc: "ebind (ebind m f) g = ebind m (\<lambda>a. ebind (f a) g)"
  by (simp add: ebind_def fun_eq_iff split: prod.splits sum.splits)

lemma emap_append_Inr:
  "emap f xs s = (Inr a, s1) \<Longrightarrow> emap f (xs @ ys) s = ebind (emap f ys) (\<lambda>b. eret (a @ b)) s1"
proof (induction xs arbitrary: s a)
  case Nil then show ?case by (simp add: eret_def ebind_def split: prod.split sum.split)
next
  case (Cons x xs)
  show ?case
  proof (cases "f x s")
    case (Pair r s2)
    show ?thesis
    proof (cases r)
      case (Inl e) with Cons.prems Pair show ?thesis by (simp add: ebind_def eret_def)
    next
      case (Inr y)
      obtain r3 s3 where e3: "emap f xs s2 = (r3, s3)" by fastforce
      show ?thesis
      proof (cases r3)
        case (Inl e) with Cons.prems Pair Inr e3 show ?thesis by (simp add: ebind_def eret_def)
      next
        case (Inr ys')
        with Cons.prems Pair \<open>r = Inr y\<close> e3 have a: "a = y # ys'" "s3 = s1"
          by (simp_all add: ebind_def eret_def)
        from Cons.IH [of s2 ys'] e3 Inr a
        have "emap f (xs @ ys) s2 = ebind (emap f ys) (\<lambda>b. eret (ys' @ b)) s1" by simp
        with Pair \<open>r = Inr y\<close> a show ?thesis
          by (simp add: ebind_def eret_def split: prod.splits sum.splits)
      qed
    qed
  qed
qed

lemma ebind_cases:
  assumes "ebind m f s = (r, s')"
  obtains (raised) e where "m s = (Inl e, s')" "r = Inl e"
    | (returned) a s1 where "m s = (Inr a, s1)" "f a s1 = (r, s')"
proof (cases "m s")
  case (Pair x s1)
  then show ?thesis
    using assms that by (cases x) (auto simp: ebind_def)
qed

text \<open>
  A property of the state that every step of a computation keeps holds at its end,
  whether it raised or returned.
\<close>

definition keeps :: "('s \<Rightarrow> bool) \<Rightarrow> ('s, 'a) exc \<Rightarrow> bool" where
  "keeps P m \<longleftrightarrow> (\<forall>s. P s \<longrightarrow> P (snd (m s)))"

lemma keeps_eret [intro]: "keeps P (eret a)"
  by (simp add: keeps_def eret_def)

lemma keeps_eraise [intro]: "keeps P (eraise e)"
  by (simp add: keeps_def eraise_def)

lemma keepsD: "keeps P m \<Longrightarrow> P s \<Longrightarrow> m s = (r, s') \<Longrightarrow> P s'"
  unfolding keeps_def by (drule spec [of _ s]) simp

lemma keeps_ebind [intro]:
  assumes "keeps P m" and "\<And>a. keeps P (f a)"
  shows "keeps P (ebind m f)"
  unfolding keeps_def
proof (intro allI impI)
  fix s assume "P s"
  obtain r s1 where m: "m s = (r, s1)" by fastforce
  with assms(1) \<open>P s\<close> have "P s1" by (rule keepsD)
  show "P (snd (ebind m f s))"
  proof (cases r)
    case (Inl e)
    with m \<open>P s1\<close> show ?thesis by (simp add: ebind_def)
  next
    case (Inr a)
    with m have "ebind m f s = f a s1" by (simp add: ebind_def)
    with assms(2) \<open>P s1\<close> show ?thesis by (simp add: keeps_def)
  qed
qed

lemma keeps_efold [intro]:
  "(\<And>b x. keeps P (f b x)) \<Longrightarrow> keeps P (efold f xs b)"
  by (induction xs arbitrary: b) auto

lemma keeps_eforeach [intro]:
  "(\<And>x. keeps P (f x)) \<Longrightarrow> keeps P (eforeach f xs)"
  by (induction xs) auto

lemma keeps_emap [intro]:
  "(\<And>x. keeps P (f x)) \<Longrightarrow> keeps P (emap f xs)"
  by (induction xs) auto

lemma keeps_if [intro]:
  "keeps P m1 \<Longrightarrow> keeps P m2 \<Longrightarrow> keeps P (if b then m1 else m2)"
  by simp

section \<open>Python truthiness\<close>

text \<open>
  \<open>not x\<close> on a value read with \<open>dict.get\<close> or from a nullable column: \<open>None\<close>,
  \<open>0\<close> and the empty string are false.
\<close>

definition truthy_int :: "int option \<Rightarrow> bool" where
  "truthy_int v = (case v of None \<Rightarrow> False | Some n \<Rightarrow> n \<noteq> 0)"

definition truthy_str :: "ustr option \<Rightarrow> bool" where
  "truthy_str v = (case v of None \<Rightarrow> False | Some t \<Rightarrow> t \<noteq> [])"

lemma truthy_int_Some [simp]: "truthy_int (Some n) \<longleftrightarrow> n \<noteq> 0"
  by (simp add: truthy_int_def)

lemma truthy_int_None [simp]: "\<not> truthy_int None"
  by (simp add: truthy_int_def)

lemma truthy_str_Some [simp]: "truthy_str (Some t) \<longleftrightarrow> t \<noteq> []"
  by (simp add: truthy_str_def)

lemma truthy_str_None [simp]: "\<not> truthy_str None"
  by (simp add: truthy_str_def)

section \<open>Tables\<close>

text \<open>
  A table with an \<open>INTEGER PRIMARY KEY AUTOINCREMENT\<close> column is a map from ids to
  rows and the next id to hand out (SQLite starts at 1 and never reuses an id). A scan
  visits the ids in increasing order; \<open>rows_where\<close> is \<open>SELECT ... WHERE P\<close>.
\<close>

fun scan :: "(nat \<rightharpoonup> 'r) \<Rightarrow> ('r \<Rightarrow> bool) \<Rightarrow> nat list \<Rightarrow> (nat \<times> 'r) list" where
  "scan t P [] = []"
| "scan t P (i # is) =
     (case t i of
        Some r \<Rightarrow> if P r then (i, r) # scan t P is else scan t P is
      | None \<Rightarrow> scan t P is)"

definition rows_where :: "(nat \<rightharpoonup> 'r) \<Rightarrow> nat \<Rightarrow> ('r \<Rightarrow> bool) \<Rightarrow> (nat \<times> 'r) list" where
  "rows_where t n P = scan t P [1..<n]"

lemma set_scan: "set (scan t P is) = {(i, r). i \<in> set is \<and> t i = Some r \<and> P r}"
  by (induction "is") (auto split: option.splits)

lemma map_fst_scan: "map fst (scan t P is) = filter (\<lambda>i. \<exists>r. t i = Some r \<and> P r) is"
  by (induction "is") (auto split: option.splits)

lemma scan_cong: "(\<And>i. i \<in> set is \<Longrightarrow> t i = t' i) \<Longrightarrow> scan t P is = scan t' P is"
  by (induction "is") (auto split: option.splits)

lemma scan_append: "scan t P (xs @ ys) = scan t P xs @ scan t P ys"
  by (induction xs) (auto split: option.splits)

lemma rows_where_insert [table_simps]:
  assumes "0 < n"
  shows "rows_where (t(n \<mapsto> r)) (Suc n) P = rows_where t n P @ (if P r then [(n, r)] else [])"
proof -
  have "[1..<Suc n] = [1..<n] @ [n]" using assms by simp
  moreover have "scan (t(n \<mapsto> r)) P [1..<n] = scan t P [1..<n]"
    by (rule scan_cong) simp
  ultimately show ?thesis by (simp add: rows_where_def scan_append)
qed

lemma set_rows_where [table_simps]:
  "set (rows_where t n P) = {(i, r). 0 < i \<and> i < n \<and> t i = Some r \<and> P r}"
  by (auto simp: rows_where_def set_scan)

lemma distinct_map_fst_rows_where [table_simps]: "distinct (map fst (rows_where t n P))"
  by (simp add: rows_where_def map_fst_scan)

lemma rows_where_cong:
  "(\<And>i. 0 < i \<Longrightarrow> i < n \<Longrightarrow> t i = t' i) \<Longrightarrow> rows_where t n P = rows_where t' n P"
  unfolding rows_where_def by (rule scan_cong) auto

lemma rows_where_pred_cong:
  assumes "\<And>i r. 0 < i \<Longrightarrow> i < n \<Longrightarrow> t i = Some r \<Longrightarrow> P r = Q r"
  shows "rows_where t n P = rows_where t n Q"
proof -
  have h: "scan t P is = scan t Q is" if "set is \<subseteq> {i. 0 < i \<and> i < n}" for "is"
    using that assms by (induction "is") (auto split: option.split)
  show ?thesis unfolding rows_where_def by (rule h) auto
qed

lemma rows_where_Nil_iff:
  "rows_where t n P = [] \<longleftrightarrow> (\<forall>i r. 0 < i \<longrightarrow> i < n \<longrightarrow> t i = Some r \<longrightarrow> \<not> P r)"
proof -
  have "rows_where t n P = [] \<longleftrightarrow> set (rows_where t n P) = {}" by simp
  then show ?thesis by (auto simp: set_rows_where)
qed

text \<open>\<open>DELETE FROM t WHERE P\<close> on the table's rows.\<close>

definition delete_where :: "('r \<Rightarrow> bool) \<Rightarrow> (nat \<rightharpoonup> 'r) \<Rightarrow> (nat \<rightharpoonup> 'r)" where
  "delete_where P t = (\<lambda>i. case t i of Some r \<Rightarrow> if P r then None else Some r | None \<Rightarrow> None)"

lemma delete_where_Some [simp]: "delete_where P t i = Some r \<longleftrightarrow> t i = Some r \<and> \<not> P r"
  by (auto simp: delete_where_def split: option.splits)

lemma delete_where_None [simp]: "delete_where P t i = None \<longleftrightarrow> (\<forall>r. t i = Some r \<longrightarrow> P r)"
  by (auto simp: delete_where_def split: option.splits)

lemma scan_delete_where: "scan (delete_where Q t) P is = scan t (\<lambda>r. P r \<and> \<not> Q r) is"
  by (induction "is") (auto simp: delete_where_def split: option.splits)

lemma rows_where_delete_where [table_simps]:
  "rows_where (delete_where Q t) n P = rows_where t n (\<lambda>r. P r \<and> \<not> Q r)"
  by (simp add: rows_where_def scan_delete_where)

text \<open>A query whose \<open>WHERE\<close> clause only one row satisfies.\<close>

lemma rows_where_single:
  assumes "0 < i" "i < n" "t i = Some r" "P r"
    and only: "\<And>j r'. 0 < j \<Longrightarrow> j < n \<Longrightarrow> t j = Some r' \<Longrightarrow> P r' \<Longrightarrow> j = i"
  shows "rows_where t n P = [(i, r)]"
proof -
  let ?xs = "rows_where t n P"
  have s: "set ?xs = {(i, r)}"
  proof (rule set_eqI, rule iffI)
    fix x assume "x \<in> set ?xs"
    then obtain j r' where x: "x = (j, r')" "0 < j" "j < n" "t j = Some r'" "P r'"
      by (auto simp: set_rows_where)
    then have "j = i" by (intro only)
    with x \<open>t i = Some r\<close> show "x \<in> {(i, r)}" by simp
  next
    fix x assume "x \<in> {(i, r)}"
    with assms(1-4) show "x \<in> set ?xs" by (simp add: set_rows_where)
  qed
  have "distinct ?xs" using distinct_map_fst_rows_where [of t n P] by (simp add: distinct_map)
  then have "length ?xs = 1" using s by (simp add: distinct_card [symmetric])
  then obtain y where "?xs = [y]" by (cases ?xs) auto
  with s show ?thesis by simp
qed

text \<open>
  A \<open>UNIQUE\<close> column \<open>f\<close>: no two rows of the table carry the same value. Stated on the
  rows a scan visits, so that it evaluates.
\<close>

definition unique_col :: "('r \<Rightarrow> 'k) \<Rightarrow> (nat \<rightharpoonup> 'r) \<Rightarrow> nat \<Rightarrow> bool" where
  "unique_col f t n \<longleftrightarrow> distinct (map (\<lambda>(i, r). f r) (rows_where t n (\<lambda>_. True)))"

lemma unique_col_iff:
  "unique_col f t n \<longleftrightarrow>
     (\<forall>i j ri rj. 0 < i \<longrightarrow> i < n \<longrightarrow> 0 < j \<longrightarrow> j < n \<longrightarrow> t i = Some ri \<longrightarrow> t j = Some rj \<longrightarrow>
        f ri = f rj \<longrightarrow> i = j)"
proof -
  let ?xs = "rows_where t n (\<lambda>_. True)"
  have d: "distinct ?xs" using distinct_map_fst_rows_where [of t n "\<lambda>_. True"]
    by (simp add: distinct_map)
  have "unique_col f t n \<longleftrightarrow> inj_on (\<lambda>(i, r). f r) (set ?xs)"
    using d by (simp add: unique_col_def distinct_map)
  also have "\<dots> \<longleftrightarrow> (\<forall>i j ri rj. 0 < i \<longrightarrow> i < n \<longrightarrow> 0 < j \<longrightarrow> j < n \<longrightarrow> t i = Some ri \<longrightarrow>
        t j = Some rj \<longrightarrow> f ri = f rj \<longrightarrow> i = j)"
  proof
    assume h: "inj_on (\<lambda>(i, r). f r) (set ?xs)"
    show "\<forall>i j ri rj. 0 < i \<longrightarrow> i < n \<longrightarrow> 0 < j \<longrightarrow> j < n \<longrightarrow> t i = Some ri \<longrightarrow>
        t j = Some rj \<longrightarrow> f ri = f rj \<longrightarrow> i = j"
      using inj_onD [OF h] by (auto simp: set_rows_where)
  next
    assume h: "\<forall>i j ri rj. 0 < i \<longrightarrow> i < n \<longrightarrow> 0 < j \<longrightarrow> j < n \<longrightarrow> t i = Some ri \<longrightarrow>
        t j = Some rj \<longrightarrow> f ri = f rj \<longrightarrow> i = j"
    show "inj_on (\<lambda>(i, r). f r) (set ?xs)"
    proof (rule inj_onI)
      fix x y assume x: "x \<in> set ?xs" and y: "y \<in> set ?xs"
        and e: "(\<lambda>(i, r). f r) x = (\<lambda>(i, r). f r) y"
      obtain i ri j rj where xy: "x = (i, ri)" "y = (j, rj)" by fastforce
      with x y have ti: "0 < i" "i < n" "t i = Some ri" and tj: "0 < j" "j < n" "t j = Some rj"
        by (auto simp: set_rows_where)
      with h e xy have "i = j" by auto
      with ti tj xy show "x = y" by simp
    qed
  qed
  finally show ?thesis .
qed

lemma unique_colD:
  "unique_col f t n \<Longrightarrow> 0 < i \<Longrightarrow> i < n \<Longrightarrow> 0 < j \<Longrightarrow> j < n \<Longrightarrow> t i = Some ri \<Longrightarrow>
     t j = Some rj \<Longrightarrow> f ri = f rj \<Longrightarrow> i = j"
  unfolding unique_col_iff by blast

section \<open>Sums\<close>

text \<open>A Python accumulation loop \<open>acc += f(x)\<close> computes the sum.\<close>

lemma foldl_add_sum_list:
  "foldl (\<lambda>acc x. acc + f x) a xs = a + sum_list (map f xs)"
  for a :: "'b::comm_monoid_add"
  by (induction xs arbitrary: a) (simp_all add: add.assoc)

section \<open>First occurrences\<close>

text \<open>The distinct elements of a list in the order of their first occurrence (the key
order of a Python dict filled from the list).\<close>

definition firsts :: "'a list \<Rightarrow> 'a list" where
  "firsts xs = rev (remdups (rev xs))"

lemma firsts_snoc: "firsts (xs @ [x]) = (if x \<in> set xs then firsts xs else firsts xs @ [x])"
  by (simp add: firsts_def)

lemma set_firsts [simp]: "set (firsts xs) = set xs"
  by (simp add: firsts_def)

lemma distinct_firsts [simp]: "distinct (firsts xs)"
  by (simp add: firsts_def)

lemma firsts_Nil [simp]: "firsts [] = []"
  by (simp add: firsts_def)

end
