(* ===== verification/Store.thy ===== *)
theory Store
  imports Prelude
begin

text \<open>
  The data store of \<open>src/back/database.py\<close>: the five tables created by \<open>init_db\<close>,
  one record per row type and one map per table with its \<open>AUTOINCREMENT\<close> counter,
  and one function per SQL statement that \<open>src/back/app.py\<close> sends through
  \<open>execute_query\<close>. A statement returns \<open>None\<close> when SQLite rejects it (a
  \<open>UNIQUE\<close> column); foreign keys are declared but SQLite does not enforce them
  without \<open>PRAGMA foreign_keys\<close>, which the code never issues, so no statement checks
  them. \<open>db_wf\<close> is the well-formedness every reachable store has: every row id is
  below its table's counter, and every order item names an order id already handed out.
\<close>

section \<open>Rows and the store\<close>

record user_row =
  username :: ustr
  email :: ustr
  first_name :: ustr
  last_name :: ustr
  password_hash :: ustr
  theme :: ustr
  telegram_id :: "tgid option"
  u_created_at :: time

record product_row =
  p_name :: ustr
  p_price :: money
  p_description :: ustr
  created_by :: uid
  p_created_at :: time

record order_row =
  o_user :: uid
  total_amount :: money
  o_status :: ustr
  o_created_at :: time

record item_row =
  oi_order :: oid
  oi_product :: pid
  oi_qty :: int
  oi_price :: money

record token_row =
  t_user :: uid
  token :: ustr
  expires_at :: time
  is_used :: bool

record db =
  users :: "uid \<rightharpoonup> user_row"
  next_user :: nat
  products :: "pid \<rightharpoonup> product_row"
  next_product :: nat
  orders :: "oid \<rightharpoonup> order_row"
  next_order :: nat
  order_items :: "nat \<rightharpoonup> item_row"
  next_item :: nat
  link_tokens :: "nat \<rightharpoonup> token_row"
  next_token :: nat

definition empty_db :: db where
  "empty_db =
     \<lparr>users = Map.empty, next_user = 1, products = Map.empty, next_product = 1,
      orders = Map.empty, next_order = 1, order_items = Map.empty, next_item = 1,
      link_tokens = Map.empty, next_token = 1\<rparr>"

text \<open>A statement: \<open>None\<close> is a constraint violation, rolled back by SQLite.\<close>

type_synonym 'a stmt = "db \<Rightarrow> (db \<times> 'a) option"

text \<open>\<open>ORDER BY created_at DESC\<close> over a scan in id order (ties keep id order).\<close>

definition newest_first :: "('r \<Rightarrow> time) \<Rightarrow> (nat \<times> 'r) list \<Rightarrow> (nat \<times> 'r) list" where
  "newest_first c xs = sort_key (\<lambda>(i, r). - int (c r)) xs"

lemma set_newest_first [table_simps]: "set (newest_first c xs) = set xs"
  by (simp add: newest_first_def)

lemma length_newest_first [simp]: "length (newest_first c xs) = length xs"
  by (simp add: newest_first_def)

section \<open>Statements on users\<close>

text \<open>\<open>SELECT * FROM users WHERE id = ?\<close>\<close>

definition sel_user :: "uid \<Rightarrow> user_row option stmt" where
  "sel_user u d = Some (d, users d u)"

text \<open>The chat id stored for a user id, if the user exists and has one.\<close>

definition user_tg :: "db \<Rightarrow> uid \<Rightarrow> tgid option" where
  "user_tg d v = (case users d v of Some w \<Rightarrow> telegram_id w | None \<Rightarrow> None)"

text \<open>
  \<open>SELECT * FROM users WHERE telegram_id = ?\<close> with \<open>fetch_one\<close>: the first
  matching row in id order (the scan of \<open>idx_users_telegram_id\<close>).
\<close>

definition sel_user_by_tg :: "tgid \<Rightarrow> (uid \<times> user_row) option stmt" where
  "sel_user_by_tg t d =
     Some (d, case rows_where (users d) (next_user d) (\<lambda>r. telegram_id r = Some t) of
                [] \<Rightarrow> None
              | x # _ \<Rightarrow> Some x)"

text \<open>\<open>UPDATE users SET telegram_id = ? WHERE id = ?\<close>\<close>

definition upd_user_tg :: "uid \<Rightarrow> tgid \<Rightarrow> unit stmt" where
  "upd_user_tg u t d =
     Some (d\<lparr>users := (case users d u of
                          None \<Rightarrow> users d
                        | Some r \<Rightarrow> (users d)(u \<mapsto> r\<lparr>telegram_id := Some t\<rparr>))\<rparr>, ())"

section \<open>Statements on products\<close>

text \<open>
  \<open>SELECT p.*, u.telegram_id, u.id as owner_id FROM products p JOIN users u
  ON p.created_by = u.id WHERE p.id = ?\<close>: the id comes from the request as any integer.
\<close>

definition product_owner :: "db \<Rightarrow> int \<Rightarrow> (pid \<times> product_row \<times> user_row) option" where
  "product_owner d i =
     (if i < 0 then None
      else case products d (nat i) of
             None \<Rightarrow> None
           | Some p \<Rightarrow> (case users d (created_by p) of
                          None \<Rightarrow> None
                        | Some u \<Rightarrow> Some (nat i, p, u)))"

definition sel_product_owner :: "int \<Rightarrow> (pid \<times> product_row \<times> user_row) option stmt" where
  "sel_product_owner i d = Some (d, product_owner d i)"

text \<open>\<open>INSERT INTO products (name, price, description, created_by) VALUES (?, ?, ?, ?)\<close>\<close>

definition add_product :: "ustr \<Rightarrow> money \<Rightarrow> ustr \<Rightarrow> uid \<Rightarrow> time \<Rightarrow> db \<Rightarrow> db" where
  "add_product n pr de u now d =
     d\<lparr>products := (products d)(next_product d \<mapsto>
         \<lparr>p_name = n, p_price = pr, p_description = de, created_by = u, p_created_at = now\<rparr>),
       next_product := Suc (next_product d)\<rparr>"

definition ins_product :: "ustr \<Rightarrow> money \<Rightarrow> ustr \<Rightarrow> uid \<Rightarrow> time \<Rightarrow> pid stmt" where
  "ins_product n pr de u now d = Some (add_product n pr de u now d, next_product d)"

text \<open>\<open>SELECT * FROM products WHERE created_by = ? ORDER BY created_at DESC\<close>\<close>

definition sel_products_of :: "uid \<Rightarrow> (pid \<times> product_row) list stmt" where
  "sel_products_of u d =
     Some (d, newest_first p_created_at
                (rows_where (products d) (next_product d) (\<lambda>p. created_by p = u)))"

section \<open>Statements on orders and order items\<close>

text \<open>\<open>INSERT INTO orders (user_id, total_amount, status) VALUES (?, ?, ?)\<close>\<close>

definition add_order :: "uid \<Rightarrow> money \<Rightarrow> ustr \<Rightarrow> time \<Rightarrow> db \<Rightarrow> db" where
  "add_order u tot st now d =
     d\<lparr>orders := (orders d)(next_order d \<mapsto>
         \<lparr>o_user = u, total_amount = tot, o_status = st, o_created_at = now\<rparr>),
       next_order := Suc (next_order d)\<rparr>"

definition ins_order :: "uid \<Rightarrow> money \<Rightarrow> ustr \<Rightarrow> time \<Rightarrow> oid stmt" where
  "ins_order u tot st now d = Some (add_order u tot st now d, next_order d)"

text \<open>\<open>INSERT INTO order_items (order_id, product_id, qty, price) VALUES (?, ?, ?, ?)\<close>\<close>

definition add_item :: "oid \<Rightarrow> pid \<Rightarrow> int \<Rightarrow> money \<Rightarrow> db \<Rightarrow> db" where
  "add_item k p q pr d =
     d\<lparr>order_items := (order_items d)(next_item d \<mapsto>
         \<lparr>oi_order = k, oi_product = p, oi_qty = q, oi_price = pr\<rparr>),
       next_item := Suc (next_item d)\<rparr>"

definition ins_item :: "oid \<Rightarrow> pid \<Rightarrow> int \<Rightarrow> money \<Rightarrow> unit stmt" where
  "ins_item k p q pr d = Some (add_item k p q pr d, ())"

text \<open>The items of one order, in id order.\<close>

definition items_of :: "db \<Rightarrow> oid \<Rightarrow> item_row list" where
  "items_of d k = map snd (rows_where (order_items d) (next_item d) (\<lambda>r. oi_order r = k))"

text \<open>
  \<open>SELECT oi.*, p.name as product_name FROM order_items oi JOIN products p
  ON oi.product_id = p.id WHERE oi.order_id = ?\<close>: an item whose product is gone
  drops out of the join.
\<close>

definition named_items :: "db \<Rightarrow> oid \<Rightarrow> (item_row \<times> ustr) list" where
  "named_items d k =
     List.map_filter (\<lambda>r. map_option (\<lambda>p. (r, p_name p)) (products d (oi_product r)))
       (items_of d k)"

definition sel_items_named :: "oid \<Rightarrow> (item_row \<times> ustr) list stmt" where
  "sel_items_named k d = Some (d, named_items d k)"

text \<open>\<open>SELECT * FROM orders WHERE id = ? AND user_id = ?\<close>\<close>

definition sel_order_of :: "oid \<Rightarrow> uid \<Rightarrow> order_row option stmt" where
  "sel_order_of k u d =
     Some (d, case orders d k of
                Some r \<Rightarrow> if o_user r = u then Some r else None
              | None \<Rightarrow> None)"

text \<open>\<open>SELECT * FROM orders WHERE id = ?\<close>\<close>

definition sel_order :: "oid \<Rightarrow> order_row option stmt" where
  "sel_order k d = Some (d, orders d k)"

text \<open>\<open>UPDATE orders SET status = ? WHERE id = ?\<close>\<close>

definition upd_order_status :: "oid \<Rightarrow> ustr \<Rightarrow> unit stmt" where
  "upd_order_status k st d =
     Some (d\<lparr>orders := (case orders d k of
                           None \<Rightarrow> orders d
                         | Some r \<Rightarrow> (orders d)(k \<mapsto> r\<lparr>o_status := st\<rparr>))\<rparr>, ())"

text \<open>
  \<open>SELECT u.telegram_id FROM orders o JOIN users u ON o.user_id = u.id WHERE o.id = ?\<close>:
  \<open>None\<close> when there is no joined row, otherwise the (nullable) column.
\<close>

definition sel_order_buyer_tg :: "oid \<Rightarrow> tgid option option stmt" where
  "sel_order_buyer_tg k d =
     Some (d, case orders d k of
                None \<Rightarrow> None
              | Some r \<Rightarrow> map_option telegram_id (users d (o_user r)))"

text \<open>
  \<open>SELECT o.*, COUNT(oi.id) as items_count FROM orders o LEFT JOIN order_items oi
  ON o.id = oi.order_id WHERE o.user_id = ? GROUP BY o.id ORDER BY o.created_at DESC\<close>
\<close>

definition sel_orders_counted :: "uid \<Rightarrow> (oid \<times> order_row \<times> nat) list stmt" where
  "sel_orders_counted u d =
     Some (d, map (\<lambda>(k, r). (k, r, length (items_of d k)))
                (newest_first o_created_at
                   (rows_where (orders d) (next_order d) (\<lambda>r. o_user r = u))))"

text \<open>\<open>SELECT * FROM orders WHERE user_id = ? ORDER BY created_at DESC\<close>\<close>

definition sel_orders_of :: "uid \<Rightarrow> (oid \<times> order_row) list stmt" where
  "sel_orders_of u d =
     Some (d, newest_first o_created_at
                (rows_where (orders d) (next_order d) (\<lambda>r. o_user r = u)))"

text \<open>\<open>SELECT * FROM orders WHERE user_id = ?\<close>, in id order.\<close>

definition sel_orders_by_id :: "uid \<Rightarrow> (oid \<times> order_row) list stmt" where
  "sel_orders_by_id u d = Some (d, rows_where (orders d) (next_order d) (\<lambda>r. o_user r = u))"

text \<open>\<open>SELECT o.* FROM orders o WHERE o.user_id = ? ORDER BY o.created_at DESC LIMIT n\<close>\<close>

definition sel_orders_recent :: "nat \<Rightarrow> uid \<Rightarrow> (oid \<times> order_row) list stmt" where
  "sel_orders_recent n u d =
     Some (d, take n (newest_first o_created_at (rows_where (orders d) (next_order d) (\<lambda>r. o_user r = u))))"

section \<open>Statements on link tokens\<close>

text \<open>\<open>DELETE FROM telegram_link_tokens WHERE user_id = ?\<close>\<close>

definition del_tokens_of :: "uid \<Rightarrow> unit stmt" where
  "del_tokens_of u d =
     Some (d\<lparr>link_tokens := (\<lambda>i. case link_tokens d i of
                                   Some r \<Rightarrow> if t_user r = u then None else Some r
                                 | None \<Rightarrow> None)\<rparr>, ())"

text \<open>
  \<open>INSERT INTO telegram_link_tokens (user_id, token, expires_at) VALUES (?, ?, ?)\<close>:
  the \<open>token\<close> column is \<open>UNIQUE\<close>, so a token already stored makes the statement fail.
\<close>

definition ins_token :: "uid \<Rightarrow> ustr \<Rightarrow> time \<Rightarrow> unit stmt" where
  "ins_token u tok ex d =
     (if rows_where (link_tokens d) (next_token d) (\<lambda>r. token r = tok) \<noteq> [] then None
      else Some (d\<lparr>link_tokens := (link_tokens d)(next_token d \<mapsto>
                      \<lparr>t_user = u, token = tok, expires_at = ex, is_used = False\<rparr>),
                   next_token := Suc (next_token d)\<rparr>, ()))"

text \<open>
  \<open>SELECT * FROM telegram_link_tokens WHERE token = ? AND is_used = 0 AND
  expires_at > ?\<close> with \<open>fetch_one\<close>.
\<close>

definition valid_token :: "time \<Rightarrow> ustr \<Rightarrow> token_row \<Rightarrow> bool" where
  "valid_token now tok r \<longleftrightarrow> token r = tok \<and> \<not> is_used r \<and> now < expires_at r"

definition sel_valid_token :: "ustr \<Rightarrow> time \<Rightarrow> (nat \<times> token_row) option stmt" where
  "sel_valid_token tok now d =
     Some (d, case rows_where (link_tokens d) (next_token d) (valid_token now tok) of
                [] \<Rightarrow> None
              | x # _ \<Rightarrow> Some x)"

text \<open>\<open>UPDATE telegram_link_tokens SET is_used = 1 WHERE id = ?\<close>\<close>

definition mark_token_used :: "nat \<Rightarrow> unit stmt" where
  "mark_token_used i d =
     Some (d\<lparr>link_tokens := (case link_tokens d i of
                                None \<Rightarrow> link_tokens d
                              | Some r \<Rightarrow> (link_tokens d)(i \<mapsto> r\<lparr>is_used := True\<rparr>))\<rparr>, ())"

section \<open>Well-formedness\<close>

definition below :: "(nat \<rightharpoonup> 'r) \<Rightarrow> nat \<Rightarrow> bool" where
  "below t n \<longleftrightarrow> (\<forall>i. t i \<noteq> None \<longrightarrow> 0 < i \<and> i < n)"

definition db_wf :: "db \<Rightarrow> bool" where
  "db_wf d \<longleftrightarrow>
     below (users d) (next_user d) \<and> 0 < next_user d \<and>
     below (products d) (next_product d) \<and> 0 < next_product d \<and>
     below (orders d) (next_order d) \<and> 0 < next_order d \<and>
     below (order_items d) (next_item d) \<and> 0 < next_item d \<and>
     below (link_tokens d) (next_token d) \<and> 0 < next_token d \<and>
     (\<forall>i r. order_items d i = Some r \<longrightarrow> oi_order r < next_order d)"

lemma below_upd_next [simp]: "below t n \<Longrightarrow> below (t(n \<mapsto> r)) (Suc n) \<longleftrightarrow> 0 < n"
  by (auto simp: below_def)

lemma below_fresh: "below t n \<Longrightarrow> t n = None"
  by (auto simp: below_def)

lemma empty_db_wf: "db_wf empty_db"
  by (simp add: db_wf_def empty_db_def below_def)

text \<open>A statement that changes nothing (a \<open>SELECT\<close>).\<close>

definition read_only :: "'a stmt \<Rightarrow> bool" where
  "read_only q \<longleftrightarrow> (\<forall>d d' r. q d = Some (d', r) \<longrightarrow> d' = d)"

lemma read_only_selects [intro, simp]:
  "read_only (sel_user u)" "read_only (sel_user_by_tg t)" "read_only (sel_product_owner i)"
  "read_only (sel_products_of u)" "read_only (sel_items_named k)" "read_only (sel_order_of k u)"
  "read_only (sel_order k)" "read_only (sel_order_buyer_tg k)" "read_only (sel_orders_counted u)"
  "read_only (sel_orders_of u)" "read_only (sel_valid_token tok now)" "read_only (sel_orders_by_id u)"
  "read_only (sel_orders_recent n u)"
  by (simp_all add: read_only_def sel_user_def sel_user_by_tg_def sel_product_owner_def
      sel_products_of_def sel_items_named_def sel_order_of_def sel_order_def
      sel_order_buyer_tg_def sel_orders_counted_def sel_orders_of_def sel_valid_token_def
      sel_orders_by_id_def sel_orders_recent_def)

text \<open>A statement that keeps the store well-formed.\<close>

definition keeps_wf :: "'a stmt \<Rightarrow> bool" where
  "keeps_wf q \<longleftrightarrow> (\<forall>d d' r. db_wf d \<longrightarrow> q d = Some (d', r) \<longrightarrow> db_wf d')"

lemma read_only_keeps_wf: "read_only q \<Longrightarrow> keeps_wf q"
  by (auto simp: read_only_def keeps_wf_def)

lemma below_insert: "below t n \<Longrightarrow> 0 < n \<Longrightarrow> below (t(n \<mapsto> r)) (Suc n)"
  by (auto simp: below_def)

lemma below_sub: "below t n \<Longrightarrow> (\<And>i. t' i \<noteq> None \<Longrightarrow> t i \<noteq> None) \<Longrightarrow> below t' n"
  by (auto simp: below_def)

lemma below_update: "below t n \<Longrightarrow> t i = Some r \<Longrightarrow> below (t(i \<mapsto> r')) n"
  by (auto simp: below_def)

lemmas below_rules = below_insert below_update

lemma keeps_wf_ins_product [intro, simp]: "keeps_wf (ins_product n pr de u now)"
  by (auto simp: keeps_wf_def db_wf_def ins_product_def add_product_def below_insert)

lemma keeps_wf_ins_order [intro, simp]: "keeps_wf (ins_order u tot st now)"
  unfolding keeps_wf_def db_wf_def ins_order_def add_order_def
  by (auto simp: below_insert less_SucI)

lemma keeps_wf_upd_user_tg [intro, simp]: "keeps_wf (upd_user_tg u t)"
  by (auto simp: keeps_wf_def db_wf_def upd_user_tg_def below_update split: option.splits)

lemma keeps_wf_upd_order_status [intro, simp]: "keeps_wf (upd_order_status k st)"
  by (auto simp: keeps_wf_def db_wf_def upd_order_status_def below_update split: option.splits)

lemma keeps_wf_del_tokens_of [intro, simp]: "keeps_wf (del_tokens_of u)"
  unfolding keeps_wf_def db_wf_def del_tokens_of_def
  by (auto elim!: below_sub split: option.splits if_splits)

lemma keeps_wf_ins_token [intro, simp]: "keeps_wf (ins_token u tok ex)"
  by (auto simp: keeps_wf_def db_wf_def ins_token_def below_insert split: if_splits)

lemma keeps_wf_mark_token_used [intro, simp]: "keeps_wf (mark_token_used i)"
  by (auto simp: keeps_wf_def db_wf_def mark_token_used_def below_update split: option.splits)

lemma ins_item_wf:
  assumes "db_wf d" and "k < next_order d" and "ins_item k p q pr d = Some (d', r)"
  shows "db_wf d'"
  using assms unfolding db_wf_def ins_item_def add_item_def by (auto simp: below_insert split: if_splits)

lemma add_order_wf: "db_wf d \<Longrightarrow> db_wf (add_order u tot st now d)"
  using keeps_wf_ins_order unfolding keeps_wf_def ins_order_def by blast

lemma add_item_wf: "db_wf d \<Longrightarrow> k < next_order d \<Longrightarrow> db_wf (add_item k p q pr d)"
  using ins_item_wf unfolding ins_item_def by blast

section \<open>Items of an order\<close>

lemma items_of_add_item [table_simps]:
  "0 < next_item d \<Longrightarrow>
   items_of (add_item k p q pr d) k' =
     items_of d k' @ (if k = k' then [\<lparr>oi_order = k, oi_product = p, oi_qty = q, oi_price = pr\<rparr>] else [])"
  by (simp add: items_of_def add_item_def rows_where_insert)

lemma items_of_add_order [table_simps]: "items_of (add_order u tot st now d) k = items_of d k"
  by (simp add: items_of_def add_order_def)

lemma items_of_fresh:
  assumes "db_wf d"
  shows "items_of d (next_order d) = []"
proof -
  from assms have "\<forall>i r. order_items d i = Some r \<longrightarrow> oi_order r < next_order d"
    by (simp add: db_wf_def)
  then have "rows_where (order_items d) (next_item d) (\<lambda>r. oi_order r = next_order d) = []"
    unfolding rows_where_Nil_iff by fastforce
  then show ?thesis by (simp add: items_of_def)
qed

lemma next_item_add_order [simp]: "next_item (add_order u tot st now d) = next_item d"
  by (simp add: add_order_def)

lemma next_order_add_item [simp]: "next_order (add_item k p q pr d) = next_order d"
  by (simp add: add_item_def)

lemma next_item_add_item [simp]: "next_item (add_item k p q pr d) = Suc (next_item d)"
  by (simp add: add_item_def)

lemma products_add_item [simp]: "products (add_item k p q pr d) = products d"
  by (simp add: add_item_def)

lemma products_add_order [simp]: "products (add_order u tot st now d) = products d"
  by (simp add: add_order_def)

lemma users_add_item [simp]: "users (add_item k p q pr d) = users d"
  by (simp add: add_item_def)

lemma users_add_order [simp]: "users (add_order u tot st now d) = users d"
  by (simp add: add_order_def)

lemma orders_add_item [simp]: "orders (add_item k p q pr d) = orders d"
  by (simp add: add_item_def)

lemma add_product_wf: "db_wf d \<Longrightarrow> db_wf (add_product n pr de u now d)"
  using keeps_wf_ins_product unfolding keeps_wf_def ins_product_def by blast

lemma items_of_add_product [table_simps]: "items_of (add_product n pr de u now d) k = items_of d k"
  by (simp add: items_of_def add_product_def)

lemma add_product_frame [simp]:
  "orders (add_product n pr de u now d) = orders d" "users (add_product n pr de u now d) = users d"
  "next_order (add_product n pr de u now d) = next_order d"
  "next_item (add_product n pr de u now d) = next_item d"
  "next_product (add_product n pr de u now d) = Suc (next_product d)"
  "next_user (add_product n pr de u now d) = next_user d"
  by (simp_all add: add_product_def)

lemma add_item_frame [simp]: "next_product (add_item k p q pr d) = next_product d"
  "next_user (add_item k p q pr d) = next_user d"
  by (simp_all add: add_item_def)

end
