(* ===== verification/Notify.thy ===== *)
theory Notify
  imports Prelude
begin

text \<open>
  The notification channel of \<open>src/back/app.py\<close>
  (\<open>send_telegram_notification_async\<close>, \<open>send_telegram_notification\<close>): a push of one
  message to a chat id. Both functions catch every exception and return \<open>False\<close>, and
  no caller reads the result, so the only effect a caller can observe is that the send
  was attempted. The model records each attempt as a pair of the chat id and the
  message's content in an outbox; the HTML text around the content is not modelled.
\<close>

text \<open>
  The content of each message the backend sends, one constructor per call site
  (\<open>create_product\<close>, \<open>create_order\<close> for the buyer and for each product owner,
  \<open>update_order\<close>, \<open>create_telegram_order\<close>, \<open>generate_telegram_token\<close>,
  \<open>link_telegram\<close>).
\<close>

datatype msg =
    Product_created ustr money
  | Order_created oid "(ustr \<times> int) list" nat money
  | Product_purchased oid "(ustr \<times> int \<times> money \<times> money) list" money
  | Status_changed oid ustr ustr
  | Tg_order_created oid "(ustr \<times> int \<times> money) list" money
  | Link_code ustr
  | Account_linked ustr

type_synonym outbox = "(tgid \<times> msg) list"

text \<open>Sends addressed to one chat id, in the order they were attempted.\<close>

definition sent_to :: "tgid \<Rightarrow> outbox \<Rightarrow> msg list" where
  "sent_to t ob = map snd (filter (\<lambda>(t', _). t' = t) ob)"

lemma sent_to_append [simp]: "sent_to t (ob @ ob') = sent_to t ob @ sent_to t ob'"
  by (simp add: sent_to_def)

lemma sent_to_Nil [simp]: "sent_to t [] = []"
  by (simp add: sent_to_def)

lemma sent_to_single [simp]: "sent_to t [(t', m)] = (if t' = t then [m] else [])"
  by (simp add: sent_to_def)

end
