(* ===== verification/Runtime.thy ===== *)
theory Runtime
  imports Store Notify
begin

text \<open>
  The runtime in which the backend's handlers run. \<open>execute_query\<close> of
  \<open>src/back/database.py\<close> opens a connection, executes one statement, commits and closes;
  on an exception it rolls back that one statement and re-raises. A handler that issues
  several statements is therefore not atomic: each committed statement stays when a later
  one raises. The model numbers the statements of a run (\<open>stmt_no\<close>) and takes a fault
  oracle \<open>F\<close>: statement number \<open>n\<close> raises exactly when \<open>F n\<close> (a locked
  database, a full disk, a lost file), besides the constraint violations the statement
  itself reports. Flask answers an exception that escapes a handler with a 500.
  \<open>send_telegram_notification\<close> appends to the outbox and never raises.
\<close>

record sys =
  db :: db
  sent :: outbox
  stmt_no :: nat

type_synonym 'a act = "(sys, 'a) exc"

type_synonym faults = "nat \<Rightarrow> bool"

definition no_faults :: faults where
  "no_faults n = False"

definition internal_error :: api_error where
  "internal_error = ServerError (ustr ''Internal Server Error'')"

definition execute_query :: "faults \<Rightarrow> 'a stmt \<Rightarrow> 'a act" where
  "execute_query F q s =
     (if F (stmt_no s) then (Inl internal_error, s\<lparr>stmt_no := Suc (stmt_no s)\<rparr>)
      else case q (db s) of
             None \<Rightarrow> (Inl internal_error, s\<lparr>stmt_no := Suc (stmt_no s)\<rparr>)
           | Some (d', r) \<Rightarrow> (Inr r, s\<lparr>db := d', stmt_no := Suc (stmt_no s)\<rparr>))"

definition send_telegram_notification :: "tgid \<Rightarrow> msg \<Rightarrow> unit act" where
  "send_telegram_notification t m s = (Inr (), s\<lparr>sent := sent s @ [(t, m)]\<rparr>)"

text \<open>\<open>if user and user['telegram_id']: send(...)\<close>: a send guarded by a truthy chat id.\<close>

definition notify_if :: "tgid option \<Rightarrow> msg \<Rightarrow> unit act" where
  "notify_if t m = (case t of Some c \<Rightarrow> if c \<noteq> [] then send_telegram_notification c m else eret ()
                            | None \<Rightarrow> eret ())"

section \<open>Evaluation rules\<close>

lemma execute_query_ok [exc_simps]:
  "\<not> F (stmt_no s) \<Longrightarrow> q (db s) = Some (d', r) \<Longrightarrow>
     execute_query F q s = (Inr r, s\<lparr>db := d', stmt_no := Suc (stmt_no s)\<rparr>)"
  by (simp add: execute_query_def)

lemma execute_query_fault [exc_simps]:
  "F (stmt_no s) \<Longrightarrow> execute_query F q s = (Inl internal_error, s\<lparr>stmt_no := Suc (stmt_no s)\<rparr>)"
  by (simp add: execute_query_def)

lemma execute_query_rejected [exc_simps]:
  "q (db s) = None \<Longrightarrow> execute_query F q s = (Inl internal_error, s\<lparr>stmt_no := Suc (stmt_no s)\<rparr>)"
  by (simp add: execute_query_def)

lemma execute_query_read_only:
  assumes "read_only q" and "execute_query F q s = (r, s')"
  shows "db s' = db s" and "sent s' = sent s" and "stmt_no s' = Suc (stmt_no s)"
  using assms by (auto simp: execute_query_def read_only_def split: if_splits option.splits)

lemma execute_query_stmt_no:
  "execute_query F q s = (r, s') \<Longrightarrow> stmt_no s' = Suc (stmt_no s)"
  by (auto simp: execute_query_def split: if_splits option.splits)

lemma execute_query_sent:
  "execute_query F q s = (r, s') \<Longrightarrow> sent s' = sent s"
  by (auto simp: execute_query_def split: if_splits option.splits)

lemma send_apply [exc_simps]:
  "send_telegram_notification t m s = (Inr (), s\<lparr>sent := sent s @ [(t, m)]\<rparr>)"
  by (simp add: send_telegram_notification_def)

text \<open>The channel's contract: a send never raises and touches only the outbox.\<close>

lemma send_never_raises: "fst (send_telegram_notification t m s) = Inr ()"
  by (simp add: send_telegram_notification_def)

text \<open>The sends a guarded notification makes.\<close>

definition tg_msgs :: "tgid option \<Rightarrow> msg \<Rightarrow> outbox" where
  "tg_msgs t m = (case t of Some c \<Rightarrow> if c \<noteq> [] then [(c, m)] else [] | None \<Rightarrow> [])"

lemma notify_if_apply [exc_simps]: "notify_if t m s = (Inr (), s\<lparr>sent := sent s @ tg_msgs t m\<rparr>)"
  by (simp add: notify_if_def tg_msgs_def send_telegram_notification_def eret_def split: option.splits)

lemma execute_query_select [exc_simps]:
  "\<not> F (stmt_no s) \<Longrightarrow> q (db s) = Some (db s, r) \<Longrightarrow>
     execute_query F q s = (Inr r, s\<lparr>stmt_no := Suc (stmt_no s)\<rparr>)"
  by (simp add: execute_query_def)

section \<open>Fault-free stretches\<close>

text \<open>No fault among the \<open>n\<close> statements numbered from \<open>a\<close>.\<close>

definition faults_free :: "faults \<Rightarrow> nat \<Rightarrow> nat \<Rightarrow> bool" where
  "faults_free F a n \<longleftrightarrow> (\<forall>i<n. \<not> F (a + i))"

lemma faults_free_no_faults [simp]: "faults_free no_faults a n"
  by (simp add: faults_free_def no_faults_def)

lemma faults_free_0 [simp]: "faults_free F a 0"
  by (simp add: faults_free_def)

lemma faults_free_Suc: "faults_free F a (Suc n) \<longleftrightarrow> \<not> F a \<and> faults_free F (Suc a) n"
  by (auto simp: faults_free_def less_Suc_eq_0_disj)

lemma faults_free_add: "faults_free F a (m + n) \<longleftrightarrow> faults_free F a m \<and> faults_free F (a + m) n"
proof
  assume h: "faults_free F a (m + n)"
  show "faults_free F a m \<and> faults_free F (a + m) n"
    using h unfolding faults_free_def by (metis add.assoc add_less_cancel_left trans_less_add1)
next
  assume h: "faults_free F a m \<and> faults_free F (a + m) n"
  show "faults_free F a (m + n)"
    unfolding faults_free_def
  proof (intro allI impI)
    fix i assume "i < m + n"
    show "\<not> F (a + i)"
    proof (cases "i < m")
      case True with h show ?thesis by (simp add: faults_free_def)
    next
      case False
      then obtain j where "i = m + j" "j < n" using \<open>i < m + n\<close> by (metis add_less_cancel_left le_Suc_ex not_less)
      with h show ?thesis by (simp add: faults_free_def add.assoc)
    qed
  qed
qed

lemma faults_freeD: "faults_free F a n \<Longrightarrow> a \<le> b \<Longrightarrow> b < a + n \<Longrightarrow> \<not> F b"
  unfolding faults_free_def by (drule spec [of _ "b - a"]) simp

lemma faults_free_mono:
  "faults_free F a n \<Longrightarrow> a \<le> b \<Longrightarrow> b + m \<le> a + n \<Longrightarrow> faults_free F b m"
  unfolding faults_free_def
proof (intro allI impI)
  fix i assume h: "\<forall>i<n. \<not> F (a + i)" "a \<le> b" "b + m \<le> a + n" "i < m"
  then have "b - a + i < n" by simp
  with h(1) have "\<not> F (a + (b - a + i))" by blast
  with h(2) show "\<not> F (b + i)" by simp
qed

section \<open>Which errors a computation can raise\<close>

definition raises_only :: "api_error \<Rightarrow> ('s, 'a) exc \<Rightarrow> bool" where
  "raises_only e m \<longleftrightarrow> (\<forall>s e' s'. m s = (Inl e', s') \<longrightarrow> e' = e)"

lemma raises_only_eret [intro]: "raises_only e (eret a)"
  by (simp add: raises_only_def eret_def)

lemma raises_only_ebind [intro]:
  assumes "raises_only e m" and "\<And>a. raises_only e (f a)"
  shows "raises_only e (ebind m f)"
  unfolding raises_only_def
proof (intro allI impI)
  fix s e' s' assume "ebind m f s = (Inl e', s')"
  then show "e' = e"
  proof (cases rule: ebind_cases)
    case raised with assms(1) show ?thesis by (auto simp: raises_only_def)
  next
    case returned with assms(2) show ?thesis by (auto simp: raises_only_def)
  qed
qed

lemma raises_only_eforeach [intro]: "(\<And>x. raises_only e (f x)) \<Longrightarrow> raises_only e (eforeach f xs)"
  by (induction xs) auto

lemma raises_only_execute_query [intro]: "raises_only internal_error (execute_query F q)"
  by (simp add: raises_only_def execute_query_def split: option.splits)

lemma raises_only_notify_if [intro]: "raises_only e (notify_if t m)"
  by (simp add: raises_only_def notify_if_apply)

lemma raises_onlyD: "raises_only e m \<Longrightarrow> m s = (Inl e', s') \<Longrightarrow> e' = e"
  unfolding raises_only_def by blast

text \<open>A \<open>SELECT\<close> changes neither the store nor the outbox.\<close>

lemma keeps_read_only_query [intro]:
  "read_only q \<Longrightarrow> keeps (\<lambda>s. P (db s) (sent s)) (execute_query F q)"
  by (auto simp: keeps_def read_only_def execute_query_def split: option.splits)

section \<open>Invariants of the runtime\<close>

definition sys_wf :: "sys \<Rightarrow> bool" where
  "sys_wf s \<longleftrightarrow> db_wf (db s)"

lemma keeps_execute_query [intro]: "keeps_wf q \<Longrightarrow> keeps sys_wf (execute_query F q)"
  by (auto simp: keeps_def keeps_wf_def sys_wf_def execute_query_def split: option.splits)

lemma keeps_execute_read_only [intro]: "read_only q \<Longrightarrow> keeps sys_wf (execute_query F q)"
  by (auto intro: read_only_keeps_wf)

lemma keeps_send [intro]: "keeps (\<lambda>s. P (db s)) (send_telegram_notification t m)"
  by (simp add: keeps_def send_telegram_notification_def)

lemma keeps_notify_if [intro]: "keeps (\<lambda>s. P (db s)) (notify_if t m)"
  by (simp add: keeps_def notify_if_apply)

lemma sys_wf_db: "sys_wf = (\<lambda>s. db_wf (db s))"
  by (simp add: sys_wf_def fun_eq_iff)

end
