(* ===== verification/Orders.thy ===== *)
theory Orders
  imports Runtime
begin

text \<open>
  The order workflow of \<open>src/back/app.py\<close>: \<open>create_order\<close> (POST /api/orders),
  \<open>get_orders\<close> (GET /api/orders), \<open>get_order\<close> (GET /api/orders/<id>) and
  \<open>update_order\<close> (PUT /api/orders/<id>). Each handler takes the authenticated user id
  that \<open>jwt_required\<close> puts in \<open>request.user_id\<close>, the request body, the current
  time (the \<open>CURRENT_TIMESTAMP\<close> default of \<open>created_at\<close>) and the fault oracle.
  \<open>create_order\<close> is split as the source is: the validation loop over the items
  (\<open>collect_item\<close>, folded by \<open>efold\<close>), the inserts (\<open>insert_order\<close>) and the
  notifications (\<open>notify_order\<close>).
\<close>

section \<open>Requests, accumulated lines and responses\<close>

text \<open>One element of \<open>data['items']\<close>: \<open>item.get('product_id')\<close>, \<open>item.get('qty')\<close>.\<close>

record item_req =
  rq_product_id :: "int option"
  rq_qty :: "int option"

text \<open>An element of the local list \<open>order_items\<close>.\<close>

record line =
  l_product :: pid
  l_qty :: int
  l_price :: money
  l_name :: ustr
  l_owner :: uid
  l_owner_tg :: "tgid option"

text \<open>An element of \<open>product_owners[owner_id]['products']\<close>.\<close>

record sold =
  s_name :: ustr
  s_qty :: int
  s_price :: money
  s_total :: money

text \<open>
  \<open>product_owners\<close>: a dict in insertion order, from owner id to the owner's chat id
  (taken from the first line of that owner) and the owner's lines.
\<close>

type_synonym owners = "(uid \<times> tgid option \<times> sold list) list"

fun add_owner :: "uid \<Rightarrow> tgid option \<Rightarrow> sold \<Rightarrow> owners \<Rightarrow> owners" where
  "add_owner u t x [] = [(u, t, [x])]"
| "add_owner u t x ((v, tv, xs) # os) =
     (if u = v then (v, tv, xs @ [x]) # os else (v, tv, xs) # add_owner u t x os)"

text \<open>The loop's three accumulators \<open>total_amount\<close>, \<open>order_items\<close>, \<open>product_owners\<close>.\<close>

record collected =
  c_total :: money
  c_lines :: "line list"
  c_owners :: owners

definition collect_empty :: collected where
  "collect_empty = \<lparr>c_total = 0, c_lines = [], c_owners = []\<rparr>"

record order_view =
  ov_id :: oid
  ov_total :: money
  ov_status :: ustr
  ov_items :: "(ustr \<times> int \<times> money \<times> money) list"

text \<open>\<open>{'product_name', 'quantity', 'price', 'total': item['qty'] * item['price']}\<close>\<close>

definition item_view :: "item_row \<times> ustr \<Rightarrow> ustr \<times> int \<times> money \<times> money" where
  "item_view x = (snd x, oi_qty (fst x), oi_price (fst x), of_int (oi_qty (fst x)) * oi_price (fst x))"

section \<open>Errors\<close>

definition items_required :: api_error where
  "items_required = BadRequest (ustr ''Items array required'')"

definition item_required :: api_error where
  "item_required = BadRequest (ustr ''Each item must have product_id and qty'')"

definition product_not_found :: "int \<Rightarrow> api_error" where
  "product_not_found i = NotFound (ustr ''Product with id '' @ show_int i @ ustr '' not found'')"

definition order_not_found :: api_error where
  "order_not_found = NotFound (ustr ''Order not found'')"

definition invalid_status :: api_error where
  "invalid_status = BadRequest (ustr ''Invalid status'')"

section \<open>create_order\<close>

text \<open>One iteration of \<open>for item in data['items']\<close>.\<close>

definition collect_item :: "faults \<Rightarrow> collected \<Rightarrow> item_req \<Rightarrow> collected act" where
  "collect_item F acc it =
     (case (rq_product_id it, rq_qty it) of
        (Some i, Some q) \<Rightarrow>
          if i = 0 \<or> q = 0 then eraise item_required
          else ebind (execute_query F (sel_product_owner i)) (\<lambda>r.
                 case r of
                   None \<Rightarrow> eraise (product_not_found i)
                 | Some (p, pr, u) \<Rightarrow>
                     (let t = p_price pr * of_int q
                      in eret \<lparr>c_total = c_total acc + t,
                               c_lines = c_lines acc @
                                 [\<lparr>l_product = p, l_qty = q, l_price = p_price pr,
                                   l_name = p_name pr, l_owner = created_by pr,
                                   l_owner_tg = telegram_id u\<rparr>],
                               c_owners = add_owner (created_by pr) (telegram_id u)
                                 \<lparr>s_name = p_name pr, s_qty = q, s_price = p_price pr, s_total = t\<rparr>
                                 (c_owners acc)\<rparr>))
      | _ \<Rightarrow> eraise item_required)"

text \<open>The \<open>INSERT INTO orders\<close> and the loop of \<open>INSERT INTO order_items\<close>.\<close>

definition insert_order :: "faults \<Rightarrow> time \<Rightarrow> uid \<Rightarrow> collected \<Rightarrow> oid act" where
  "insert_order F now u acc =
     ebind (execute_query F (ins_order u (c_total acc) (ustr ''new'') now)) (\<lambda>k.
     ebind (eforeach (\<lambda>l. execute_query F (ins_item k (l_product l) (l_qty l) (l_price l)))
              (c_lines acc)) (\<lambda>_.
     eret k))"

definition buyer_msg :: "oid \<Rightarrow> collected \<Rightarrow> msg" where
  "buyer_msg k acc =
     Order_created k (map (\<lambda>l. (l_name l, l_qty l)) (take 3 (c_lines acc)))
       (length (c_lines acc) - 3) (c_total acc)"

definition owner_msg :: "oid \<Rightarrow> sold list \<Rightarrow> msg" where
  "owner_msg k xs =
     Product_purchased k (map (\<lambda>x. (s_name x, s_qty x, s_price x, s_total x)) xs)
       (sum_list (map s_total xs))"

text \<open>The buyer's message, then one message per owner other than the buyer.\<close>

definition notify_order :: "faults \<Rightarrow> uid \<Rightarrow> oid \<Rightarrow> collected \<Rightarrow> unit act" where
  "notify_order F u k acc =
     ebind (execute_query F (sel_user u)) (\<lambda>buyer.
     ebind (notify_if (case buyer of Some b \<Rightarrow> telegram_id b | None \<Rightarrow> None) (buyer_msg k acc)) (\<lambda>_.
     eforeach (\<lambda>(ow, t, xs). if ow \<noteq> u then notify_if t (owner_msg k xs) else eret ())
       (c_owners acc)))"

text \<open>
  \<open>req\<close> is \<open>data['items']\<close>: \<open>None\<close> when the body, the key or a list is missing.
\<close>

definition create_order :: "faults \<Rightarrow> time \<Rightarrow> uid \<Rightarrow> item_req list option \<Rightarrow> order_view act" where
  "create_order F now u req =
     (case req of
        None \<Rightarrow> eraise items_required
      | Some [] \<Rightarrow> eraise items_required
      | Some items \<Rightarrow>
          ebind (efold (collect_item F) items collect_empty) (\<lambda>acc.
          ebind (insert_order F now u acc) (\<lambda>k.
          ebind (notify_order F u k acc) (\<lambda>_.
          ebind (execute_query F (sel_items_named k)) (\<lambda>details.
          eret \<lparr>ov_id = k, ov_total = c_total acc, ov_status = ustr ''new'',
                ov_items = map item_view details\<rparr>)))))"

section \<open>get_orders, get_order, update_order\<close>

definition get_orders :: "faults \<Rightarrow> uid \<Rightarrow> (oid \<times> order_row \<times> nat) list act" where
  "get_orders F u = execute_query F (sel_orders_counted u)"

definition get_order :: "faults \<Rightarrow> uid \<Rightarrow> oid \<Rightarrow> order_view act" where
  "get_order F u k =
     ebind (execute_query F (sel_order_of k u)) (\<lambda>r.
       case r of
         None \<Rightarrow> eraise order_not_found
       | Some o' \<Rightarrow>
           ebind (execute_query F (sel_items_named k)) (\<lambda>its.
           eret \<lparr>ov_id = k, ov_total = total_amount o', ov_status = o_status o',
                 ov_items = map item_view its\<rparr>))"

definition allowed_statuses :: "ustr list" where
  "allowed_statuses = map ustr [''new'', ''in_progress'', ''completed'', ''canceled'']"

text \<open>
  \<open>st\<close> is \<open>data['status']\<close> when the key is present. The ownership check comes
  first, so an invalid status on another user's order is answered 404.
\<close>

definition set_status :: "faults \<Rightarrow> oid \<Rightarrow> ustr \<Rightarrow> ustr \<Rightarrow> unit act" where
  "set_status F k v old =
     (if v \<notin> set allowed_statuses then eraise invalid_status
      else ebind (execute_query F (upd_order_status k v)) (\<lambda>_.
           ebind (execute_query F (sel_order_buyer_tg k)) (\<lambda>b.
           notify_if (case b of Some t \<Rightarrow> t | None \<Rightarrow> None) (Status_changed k v old))))"

definition update_order :: "faults \<Rightarrow> uid \<Rightarrow> oid \<Rightarrow> ustr option \<Rightarrow> (oid \<times> order_row) act" where
  "update_order F u k st =
     ebind (execute_query F (sel_order_of k u)) (\<lambda>r.
       case r of
         None \<Rightarrow> eraise order_not_found
       | Some o' \<Rightarrow>
           ebind (case st of None \<Rightarrow> eret () | Some v \<Rightarrow> set_status F k v (o_status o')) (\<lambda>_.
           ebind (execute_query F (sel_order k)) (\<lambda>r'.
             case r' of
               None \<Rightarrow> eraise internal_error
             | Some o'' \<Rightarrow> eret (k, o''))))"

section \<open>Reference functions\<close>

text \<open>
  What one item of the request resolves to (the product row and its owner that the
  \<open>SELECT ... JOIN users\<close> finds, with the requested quantity), the line total
  \<open>price * qty\<close>, and one turn of the accumulation loop, stated on the resolved line.
\<close>


definition line_of :: "pid \<Rightarrow> product_row \<Rightarrow> user_row \<Rightarrow> int \<Rightarrow> line" where
  "line_of p pr u q =
     \<lparr>l_product = p, l_qty = q, l_price = p_price pr, l_name = p_name pr,
      l_owner = created_by pr, l_owner_tg = telegram_id u\<rparr>"

definition resolve :: "db \<Rightarrow> item_req \<Rightarrow> line option" where
  "resolve d it =
     (case (rq_product_id it, rq_qty it) of
        (Some i, Some q) \<Rightarrow>
          if i = 0 \<or> q = 0 then None
          else map_option (\<lambda>(p, pr, u). line_of p pr u q) (product_owner d i)
      | _ \<Rightarrow> None)"

definition line_total :: "line \<Rightarrow> money" where
  "line_total l = l_price l * of_int (l_qty l)"

definition sold_of :: "line \<Rightarrow> sold" where
  "sold_of l = \<lparr>s_name = l_name l, s_qty = l_qty l, s_price = l_price l, s_total = line_total l\<rparr>"

definition acc_add :: "collected \<Rightarrow> line \<Rightarrow> collected" where
  "acc_add acc l =
     \<lparr>c_total = c_total acc + line_total l, c_lines = c_lines acc @ [l],
      c_owners = add_owner (l_owner l) (l_owner_tg l) (sold_of l) (c_owners acc)\<rparr>"

lemma collect_item_ok:
  assumes "\<not> F (stmt_no s)" and "resolve (db s) it = Some l"
  shows "collect_item F acc it s = (Inr (acc_add acc l), s\<lparr>stmt_no := Suc (stmt_no s)\<rparr>)"
proof -
  obtain i q where it: "rq_product_id it = Some i" "rq_qty it = Some q" and nz: "i \<noteq> 0" "q \<noteq> 0"
    using assms(2) by (auto simp: resolve_def split: option.splits if_splits)
  then obtain p pr u where po: "product_owner (db s) i = Some (p, pr, u)" and l: "l = line_of p pr u q"
    using assms(2) by (auto simp: resolve_def)
  have "execute_query F (sel_product_owner i) s = (Inr (Some (p, pr, u)), s\<lparr>stmt_no := Suc (stmt_no s)\<rparr>)"
    using assms(1) po by (simp add: execute_query_select sel_product_owner_def)
  then show ?thesis
    using it nz l
    by (simp add: collect_item_def ebind_Inr eret_apply acc_add_def line_of_def sold_of_def line_total_def Let_def)
qed

lemma collect_loop:
  assumes "faults_free F (stmt_no s) (length items)" and "map (resolve (db s)) items = map Some ls"
  shows "efold (collect_item F) items acc s =
           (Inr (foldl acc_add acc ls), s\<lparr>stmt_no := stmt_no s + length items\<rparr>)"
  using assms
proof (induction items arbitrary: acc s ls)
  case Nil
  then show ?case by (simp add: eret_apply)
next
  case (Cons it items)
  from Cons.prems(2) obtain l ls' where ls: "ls = l # ls'" and r: "resolve (db s) it = Some l"
    and rs: "map (resolve (db s)) items = map Some ls'"
    by (cases ls) auto
  let ?s1 = "s\<lparr>stmt_no := Suc (stmt_no s)\<rparr>"
  from Cons.prems(1) have f0: "\<not> F (stmt_no s)" and f1: "faults_free F (stmt_no ?s1) (length items)"
    by (simp_all add: faults_free_Suc)
  have step: "collect_item F acc it s = (Inr (acc_add acc l), ?s1)"
    using f0 r by (rule collect_item_ok)
  have "efold (collect_item F) items (acc_add acc l) ?s1 =
          (Inr (foldl acc_add (acc_add acc l) ls'), ?s1\<lparr>stmt_no := stmt_no ?s1 + length items\<rparr>)"
    using Cons.IH [OF f1] rs by simp
  then show ?case using step ls by (simp add: ebind_Inr)
qed

lemma foldl_acc_add:
  "c_total (foldl acc_add acc ls) = c_total acc + sum_list (map line_total ls)"
  "c_lines (foldl acc_add acc ls) = c_lines acc @ ls"
  "c_owners (foldl acc_add acc ls) =
     foldl (\<lambda>os l. add_owner (l_owner l) (l_owner_tg l) (sold_of l) os) (c_owners acc) ls"
  by (induction ls arbitrary: acc) (simp_all add: acc_add_def add.assoc)


definition item_row_of :: "oid \<Rightarrow> line \<Rightarrow> item_row" where
  "item_row_of k l = \<lparr>oi_order = k, oi_product = l_product l, oi_qty = l_qty l, oi_price = l_price l\<rparr>"

definition add_lines :: "oid \<Rightarrow> line list \<Rightarrow> db \<Rightarrow> db" where
  "add_lines k ls d = foldl (\<lambda>d l. add_item k (l_product l) (l_qty l) (l_price l) d) d ls"

lemma add_lines_simps [simp]:
  "add_lines k [] d = d"
  "add_lines k (l # ls) d = add_lines k ls (add_item k (l_product l) (l_qty l) (l_price l) d)"
  by (simp_all add: add_lines_def)

lemma add_lines_frame [simp]:
  "products (add_lines k ls d) = products d" "users (add_lines k ls d) = users d"
  "orders (add_lines k ls d) = orders d" "next_order (add_lines k ls d) = next_order d"
  by (induction ls arbitrary: d) simp_all

lemma add_lines_wf: "db_wf d \<Longrightarrow> k < next_order d \<Longrightarrow> db_wf (add_lines k ls d)"
  by (induction ls arbitrary: d) (simp_all add: add_item_wf)

lemma items_of_add_lines:
  assumes "0 < next_item d"
  shows "items_of (add_lines k ls d) k' = items_of d k' @ (if k = k' then map (item_row_of k) ls else [])"
  using assms
proof (induction ls arbitrary: d)
  case Nil then show ?case by simp
next
  case (Cons l ls)
  then show ?case by (simp add: items_of_add_item item_row_of_def)
qed

abbreviation ins_line :: "faults \<Rightarrow> oid \<Rightarrow> line \<Rightarrow> unit act" where
  "ins_line F k l \<equiv> execute_query F (ins_item k (l_product l) (l_qty l) (l_price l))"

lemma insert_items_loop:
  "faults_free F (stmt_no s) (length ls) \<Longrightarrow>
   eforeach (ins_line F k) ls s =
     (Inr (), s\<lparr>db := add_lines k ls (db s), stmt_no := stmt_no s + length ls\<rparr>)"
proof (induction ls arbitrary: s)
  case Nil then show ?case by (simp add: eret_apply)
next
  case (Cons l ls)
  let ?s1 = "s\<lparr>db := add_item k (l_product l) (l_qty l) (l_price l) (db s), stmt_no := Suc (stmt_no s)\<rparr>"
  from Cons.prems have f0: "\<not> F (stmt_no s)" and f1: "faults_free F (stmt_no ?s1) (length ls)"
    by (simp_all add: faults_free_Suc)
  have "ins_line F k l s = (Inr (), ?s1)"
    using f0 by (simp add: execute_query_ok ins_item_def)
  then show ?case using Cons.IH [OF f1] by (simp add: ebind_Inr)
qed

lemma insert_items_fault:
  "faults_free F (stmt_no s) j \<Longrightarrow> F (stmt_no s + j) \<Longrightarrow> j < length ls \<Longrightarrow>
   eforeach (ins_line F k) ls s =
     (Inl internal_error, s\<lparr>db := add_lines k (take j ls) (db s), stmt_no := stmt_no s + Suc j\<rparr>)"
proof (induction ls arbitrary: s j)
  case Nil then show ?case by simp
next
  case (Cons l ls)
  show ?case
  proof (cases j)
    case 0
    with Cons.prems show ?thesis by (simp add: execute_query_fault ebind_Inl)
  next
    case (Suc j')
    let ?s1 = "s\<lparr>db := add_item k (l_product l) (l_qty l) (l_price l) (db s), stmt_no := Suc (stmt_no s)\<rparr>"
    from Cons.prems Suc have f0: "\<not> F (stmt_no s)" and f1: "faults_free F (stmt_no ?s1) j'"
      and f2: "F (stmt_no ?s1 + j')" and lt: "j' < length ls"
      by (simp_all add: faults_free_Suc)
    have "ins_line F k l s = (Inr (), ?s1)"
      using f0 by (simp add: execute_query_ok ins_item_def)
    then show ?thesis using Cons.IH [OF f1 f2 lt] Suc by (simp add: ebind_Inr)
  qed
qed


lemma insert_order_ok:
  assumes "faults_free F (stmt_no s) (Suc (length (c_lines acc)))"
  shows "insert_order F now u acc s =
           (Inr (next_order (db s)),
            s\<lparr>db := add_lines (next_order (db s)) (c_lines acc)
                       (add_order u (c_total acc) (ustr ''new'') now (db s)),
              stmt_no := stmt_no s + Suc (length (c_lines acc))\<rparr>)"
proof -
  let ?s1 = "s\<lparr>db := add_order u (c_total acc) (ustr ''new'') now (db s), stmt_no := Suc (stmt_no s)\<rparr>"
  from assms have f0: "\<not> F (stmt_no s)" and f1: "faults_free F (stmt_no ?s1) (length (c_lines acc))"
    by (simp_all add: faults_free_Suc)
  have "execute_query F (ins_order u (c_total acc) (ustr ''new'') now) s = (Inr (next_order (db s)), ?s1)"
    using f0 by (simp add: execute_query_ok ins_order_def)
  then show ?thesis
    using insert_items_loop [OF f1, of "next_order (db s)"]
    by (simp add: insert_order_def ebind_Inr eret_apply)
qed

lemma insert_order_fault:
  assumes "faults_free F (stmt_no s) (Suc j)" and "F (stmt_no s + Suc j)" and "j < length (c_lines acc)"
  shows "insert_order F now u acc s =
           (Inl internal_error,
            s\<lparr>db := add_lines (next_order (db s)) (take j (c_lines acc))
                       (add_order u (c_total acc) (ustr ''new'') now (db s)),
              stmt_no := stmt_no s + Suc (Suc j)\<rparr>)"
proof -
  let ?s1 = "s\<lparr>db := add_order u (c_total acc) (ustr ''new'') now (db s), stmt_no := Suc (stmt_no s)\<rparr>"
  from assms have f0: "\<not> F (stmt_no s)" and f1: "faults_free F (stmt_no ?s1) j"
    and f2: "F (stmt_no ?s1 + j)"
    by (simp_all add: faults_free_Suc)
  have "execute_query F (ins_order u (c_total acc) (ustr ''new'') now) s = (Inr (next_order (db s)), ?s1)"
    using f0 by (simp add: execute_query_ok ins_order_def)
  then show ?thesis
    using insert_items_fault [OF f1 f2 assms(3), of "next_order (db s)"]
    by (simp add: insert_order_def ebind_Inr ebind_Inl)
qed

definition owner_notes :: "uid \<Rightarrow> oid \<Rightarrow> owners \<Rightarrow> outbox" where
  "owner_notes u k os = concat (map (\<lambda>(ow, t, xs). if ow \<noteq> u then tg_msgs t (owner_msg k xs) else []) os)"

definition order_notifications :: "db \<Rightarrow> uid \<Rightarrow> oid \<Rightarrow> collected \<Rightarrow> outbox" where
  "order_notifications d u k acc =
     tg_msgs (case users d u of Some b \<Rightarrow> telegram_id b | None \<Rightarrow> None) (buyer_msg k acc) @
     owner_notes u k (c_owners acc)"

lemma notify_owners_loop:
  "eforeach (\<lambda>(ow, t, xs). if ow \<noteq> u then notify_if t (owner_msg k xs) else eret ()) os s =
     (Inr (), s\<lparr>sent := sent s @ owner_notes u k os\<rparr>)"
proof (induction os arbitrary: s)
  case Nil then show ?case by (simp add: eret_apply owner_notes_def)
next
  case (Cons x os)
  obtain ow t xs where x: "x = (ow, t, xs)" by (cases x) auto
  show ?case
  proof (cases "ow \<noteq> u")
    case True
    with Cons.IH show ?thesis by (simp add: x ebind_Inr notify_if_apply owner_notes_def)
  next
    case False
    with Cons.IH show ?thesis by (simp add: x ebind_Inr eret_apply owner_notes_def)
  qed
qed

lemma notify_order_ok:
  "\<not> F (stmt_no s) \<Longrightarrow>
   notify_order F u k acc s =
     (Inr (), s\<lparr>sent := sent s @ order_notifications (db s) u k acc, stmt_no := Suc (stmt_no s)\<rparr>)"
  by (simp add: notify_order_def execute_query_select sel_user_def ebind_Inr notify_if_apply
      notify_owners_loop order_notifications_def)




section \<open>The phases of create_order\<close>

definition line_view :: "line \<Rightarrow> ustr \<times> int \<times> money \<times> money" where
  "line_view l = (l_name l, l_qty l, l_price l, of_int (l_qty l) * l_price l)"

lemma resolve_SomeD:
  assumes "resolve d it = Some l"
  shows "\<exists>pr. products d (l_product l) = Some pr \<and> p_name pr = l_name l \<and> p_price pr = l_price l
           \<and> created_by pr = l_owner l"
proof -
  obtain i q where "rq_product_id it = Some i" "rq_qty it = Some q" "i \<noteq> 0" "q \<noteq> 0"
    and po: "map_option (\<lambda>(p, pr, u). line_of p pr u q) (product_owner d i) = Some l"
    using assms by (auto simp: resolve_def split: option.splits if_splits)
  then obtain p pr u where "product_owner d i = Some (p, pr, u)" and l: "l = line_of p pr u q"
    by auto
  then have "products d p = Some pr"
    by (auto simp: product_owner_def split: if_splits option.splits)
  then show ?thesis using l by (simp add: line_of_def)
qed

lemma resolve_products:
  assumes "map (resolve d) items = map Some ls" and "l \<in> set ls"
  shows "\<exists>pr. products d (l_product l) = Some pr \<and> p_name pr = l_name l \<and> p_price pr = l_price l
           \<and> created_by pr = l_owner l"
proof -
  from assms have "Some l \<in> set (map (resolve d) items)" by simp
  then obtain it where "resolve d it = Some l" by auto
  then show ?thesis by (rule resolve_SomeD)
qed

lemma named_items_lines:
  assumes "items_of d k = map (item_row_of k) ls"
    and "\<forall>l\<in>set ls. \<exists>pr. products d (l_product l) = Some pr \<and> p_name pr = l_name l"
  shows "map item_view (named_items d k) = map line_view ls"
proof -
  have "map item_view (List.map_filter (\<lambda>r. map_option (\<lambda>p. (r, p_name p)) (products d (oi_product r)))
          (map (item_row_of k) ls)) = map line_view ls"
    using assms(2)
  proof (induction ls)
    case Nil then show ?case by (simp add: List.map_filter_simps)
  next
    case (Cons l ls)
    then obtain pr where "products d (l_product l) = Some pr" "p_name pr = l_name l" by auto
    with Cons show ?case
      by (simp add: List.map_filter_simps item_view_def line_view_def item_row_of_def)
  qed
  then show ?thesis using assms(1) by (simp add: named_items_def)
qed

abbreviation order_response :: "faults \<Rightarrow> oid \<Rightarrow> collected \<Rightarrow> order_view act" where
  "order_response F k acc \<equiv>
     ebind (execute_query F (sel_items_named k)) (\<lambda>details.
       eret \<lparr>ov_id = k, ov_total = c_total acc, ov_status = ustr ''new'',
             ov_items = map item_view details\<rparr>)"

lemma create_order_items:
  assumes "items \<noteq> []"
  shows "create_order F now u (Some items) =
     ebind (efold (collect_item F) items collect_empty) (\<lambda>acc.
     ebind (insert_order F now u acc) (\<lambda>k.
     ebind (notify_order F u k acc) (\<lambda>_. order_response F k acc)))"
proof (cases items)
  case Nil
  with assms show ?thesis by simp
next
  case (Cons x xs)
  then show ?thesis by (simp only: create_order_def list.case option.case)
qed

lemma create_order_run:
  assumes wf: "db_wf (db s)" and ne: "items \<noteq> []" and res: "map (resolve (db s)) items = map Some ls"
  defines "k \<equiv> next_order (db s)" and "tot \<equiv> sum_list (map line_total ls)"
  shows "create_order no_faults now u (Some items) s =
    (Inr \<lparr>ov_id = k, ov_total = tot, ov_status = ustr ''new'', ov_items = map line_view ls\<rparr>,
     s\<lparr>db := add_lines k ls (add_order u tot (ustr ''new'') now (db s)),
       sent := sent s @ order_notifications (db s) u k (foldl acc_add collect_empty ls),
       stmt_no := stmt_no s + length items + Suc (length ls) + 2\<rparr>)"
proof -
  let ?acc = "foldl acc_add collect_empty ls"
  have len: "length ls = length items" using res by (metis length_map)
  have acc: "c_total ?acc = tot" "c_lines ?acc = ls"
    by (simp_all add: foldl_acc_add collect_empty_def tot_def)
  let ?s1 = "s\<lparr>stmt_no := stmt_no s + length items\<rparr>"
  have p1: "efold (collect_item no_faults) items collect_empty s = (Inr ?acc, ?s1)"
    using res by (intro collect_loop) simp_all
  let ?d2 = "add_lines k ls (add_order u tot (ustr ''new'') now (db s))"
  let ?s2 = "s\<lparr>db := ?d2, stmt_no := stmt_no s + length items + Suc (length ls)\<rparr>"
  have p2: "insert_order no_faults now u ?acc ?s1 = (Inr k, ?s2)"
    using insert_order_ok [of no_faults ?s1 ?acc now u] acc by (simp add: k_def)
  let ?s3 = "s\<lparr>db := ?d2, sent := sent s @ order_notifications (db s) u k ?acc,
                stmt_no := Suc (stmt_no s + length items + Suc (length ls))\<rparr>"
  have nts: "order_notifications ?d2 u k ?acc = order_notifications (db s) u k ?acc"
    by (simp add: order_notifications_def)
  have p3: "notify_order no_faults u k ?acc ?s2 = (Inr (), ?s3)"
    using notify_order_ok [of no_faults ?s2 u k ?acc] nts by (simp add: no_faults_def)
  have fresh: "items_of (db s) k = []" using wf by (simp add: k_def items_of_fresh)
  have pos: "0 < next_item (db s)" using wf by (simp add: db_wf_def)
  have its: "items_of ?d2 k = map (item_row_of k) ls"
    using pos fresh by (simp add: items_of_add_lines items_of_add_order)
  have prods: "\<forall>l\<in>set ls. \<exists>pr. products ?d2 (l_product l) = Some pr \<and> p_name pr = l_name l"
    using resolve_products [OF res] by fastforce
  have view: "map item_view (named_items ?d2 k) = map line_view ls"
    by (rule named_items_lines [OF its prods])
  have p4: "order_response no_faults k ?acc ?s3 =
              (Inr \<lparr>ov_id = k, ov_total = tot, ov_status = ustr ''new'', ov_items = map line_view ls\<rparr>,
               ?s3\<lparr>stmt_no := Suc (stmt_no ?s3)\<rparr>)"
    using view acc by (simp add: execute_query_select sel_items_named_def no_faults_def ebind_Inr eret_apply)
  have "create_order no_faults now u (Some items) s =
          ebind (insert_order no_faults now u ?acc) (\<lambda>k.
          ebind (notify_order no_faults u k ?acc) (\<lambda>_. order_response no_faults k ?acc)) ?s1"
    unfolding create_order_items [OF ne]
    by (rule ebind_Inr [where m = "efold (collect_item no_faults) items collect_empty" and s = s, OF p1])
  also have "\<dots> = ebind (notify_order no_faults u k ?acc) (\<lambda>_. order_response no_faults k ?acc) ?s2"
    by (rule ebind_Inr [where m = "insert_order no_faults now u ?acc" and s = ?s1, OF p2])
  also have "\<dots> = order_response no_faults k ?acc ?s3"
    by (rule ebind_Inr [where m = "notify_order no_faults u k ?acc" and s = ?s2, OF p3])
  also have "\<dots> = (Inr \<lparr>ov_id = k, ov_total = tot, ov_status = ustr ''new'', ov_items = map line_view ls\<rparr>,
               ?s3\<lparr>stmt_no := Suc (stmt_no ?s3)\<rparr>)"
    by (rule p4)
  finally show ?thesis using len by simp
qed


section \<open>Grouping the lines by owner\<close>

text \<open>
  \<open>product_owners\<close> is built by \<open>add_owner\<close> one line at a time; the reference
  groups the lines by owner in the order of each owner's first line.
\<close>


definition owner_lines :: "line list \<Rightarrow> uid \<Rightarrow> line list" where
  "owner_lines ls v = filter (\<lambda>l. l_owner l = v) ls"

definition owner_entry :: "line list \<Rightarrow> uid \<Rightarrow> uid \<times> tgid option \<times> sold list" where
  "owner_entry ls v =
     (v, (case owner_lines ls v of l # _ \<Rightarrow> l_owner_tg l | [] \<Rightarrow> None), map sold_of (owner_lines ls v))"

definition group_owners :: "line list \<Rightarrow> owners" where
  "group_owners ls = map (owner_entry ls) (firsts (map l_owner ls))"

lemma map_upd_owner_absent:
  "v \<notin> fst ` set os \<Longrightarrow>
   map (\<lambda>(w, tv, xs). if w = v then (w, tv, xs @ [x]) else (w, tv, xs)) os = os"
  by (induction os) auto

lemma add_owner_distinct:
  "distinct (map fst os) \<Longrightarrow>
   add_owner u t x os =
     (if u \<in> set (map fst os)
      then map (\<lambda>(v, tv, xs). if v = u then (v, tv, xs @ [x]) else (v, tv, xs)) os
      else os @ [(u, t, [x])])"
  by (induction u t x os rule: add_owner.induct) (auto simp: map_upd_owner_absent)

lemma owner_entry_snoc:
  "owner_entry (ls @ [l]) v =
     (if v = l_owner l
      then (if v \<in> set (map l_owner ls)
            then (case owner_entry ls v of (w, tv, xs) \<Rightarrow> (w, tv, xs @ [sold_of l]))
            else (v, l_owner_tg l, [sold_of l]))
      else owner_entry ls v)"
proof -
  have "v \<in> set (map l_owner ls) \<Longrightarrow> owner_lines ls v \<noteq> []"
    by (auto simp: owner_lines_def filter_empty_conv)
  moreover have "v \<notin> set (map l_owner ls) \<Longrightarrow> owner_lines ls v = []"
    by (auto simp: owner_lines_def filter_empty_conv)
  ultimately show ?thesis
    by (auto simp: owner_entry_def owner_lines_def split: list.splits)
qed

lemma owner_entry_fst [simp]: "fst (owner_entry ls v) = v"
  by (simp add: owner_entry_def)

lemma group_owners_snoc:
  "group_owners (ls @ [l]) = add_owner (l_owner l) (l_owner_tg l) (sold_of l) (group_owners ls)"
proof -
  let ?upd = "\<lambda>(w, tv, xs). if w = l_owner l then (w, tv, xs @ [sold_of l]) else (w, tv, xs)"
  have dist: "distinct (map fst (group_owners ls))"
    by (simp add: group_owners_def comp_def)
  have keys: "map fst (group_owners ls) = firsts (map l_owner ls)"
    by (simp add: group_owners_def comp_def)
  show ?thesis
  proof (cases "l_owner l \<in> set (map l_owner ls)")
    case True
    have "map (owner_entry (ls @ [l])) (firsts (map l_owner ls)) =
            map (?upd \<circ> owner_entry ls) (firsts (map l_owner ls))"
    proof (rule map_cong [OF refl])
      fix v assume "v \<in> set (firsts (map l_owner ls))"
      then have v: "v \<in> set (map l_owner ls)" by simp
      obtain tv xs where e: "owner_entry ls v = (v, tv, xs)"
        using owner_entry_fst [of ls v] by (cases "owner_entry ls v") auto
      show "owner_entry (ls @ [l]) v = (?upd \<circ> owner_entry ls) v"
      proof (cases "v = l_owner l")
        case True
        with e have e': "owner_entry ls (l_owner l) = (l_owner l, tv, xs)" by simp
        from True v show ?thesis by (simp add: owner_entry_snoc e')
      next
        case False
        with e show ?thesis by (simp add: owner_entry_snoc)
      qed
    qed
    then have "group_owners (ls @ [l]) = map ?upd (group_owners ls)"
      using True by (simp add: group_owners_def firsts_snoc)
    then show ?thesis using True dist keys by (simp add: add_owner_distinct)
  next
    case False
    have "map (owner_entry (ls @ [l])) (firsts (map l_owner ls)) = map (owner_entry ls) (firsts (map l_owner ls))"
    proof (rule map_cong [OF refl])
      fix v assume "v \<in> set (firsts (map l_owner ls))"
      with False have "v \<noteq> l_owner l" by force
      then show "owner_entry (ls @ [l]) v = owner_entry ls v" by (simp add: owner_entry_snoc)
    qed
    moreover have "owner_entry (ls @ [l]) (l_owner l) = (l_owner l, l_owner_tg l, [sold_of l])"
      using False by (simp add: owner_entry_snoc)
    ultimately have "group_owners (ls @ [l]) = group_owners ls @ [(l_owner l, l_owner_tg l, [sold_of l])]"
      using False by (simp add: group_owners_def firsts_snoc)
    then show ?thesis using False dist keys by (simp add: add_owner_distinct)
  qed
qed

lemma owners_fold_group:
  "foldl (\<lambda>os l. add_owner (l_owner l) (l_owner_tg l) (sold_of l) os) [] ls = group_owners ls"
proof (induction ls rule: rev_induct)
  case Nil then show ?case by (simp add: group_owners_def)
next
  case (snoc l ls)
  then show ?case by (simp add: group_owners_snoc)
qed


definition demo_db :: db where
  "demo_db = empty_db\<lparr>
     users := [1 \<mapsto> \<lparr>username = ustr ''a'', email = ustr ''a@shop'', first_name = ustr ''A'',
                     last_name = ustr ''A'', password_hash = ustr ''h'', theme = ustr ''light'', telegram_id = None, u_created_at = 0\<rparr>,
               2 \<mapsto> \<lparr>username = ustr ''b'', email = ustr ''b@shop'', first_name = ustr ''B'',
                     last_name = ustr ''B'', password_hash = ustr ''h'', theme = ustr ''light'', telegram_id = Some (ustr ''555''), u_created_at = 0\<rparr>],
     next_user := 3,
     products := [1 \<mapsto> \<lparr>p_name = ustr ''X'', p_price = 10, p_description = [], created_by = 2, p_created_at = 0\<rparr>,
                  2 \<mapsto> \<lparr>p_name = ustr ''Y'', p_price = 5, p_description = [], created_by = 2, p_created_at = 0\<rparr>],
     next_product := 3\<rparr>"

definition demo_sys :: sys where
  "demo_sys = \<lparr>db = demo_db, sent = [], stmt_no = 0\<rparr>"

definition demo_items :: "item_req list" where
  "demo_items = [\<lparr>rq_product_id = Some 1, rq_qty = Some 2\<rparr>, \<lparr>rq_product_id = Some 2, rq_qty = Some 1\<rparr>]"

definition demo_lines :: "line list" where
  "demo_lines =
     [\<lparr>l_product = 1, l_qty = 2, l_price = 10, l_name = ustr ''X'', l_owner = 2, l_owner_tg = Some (ustr ''555'')\<rparr>,
      \<lparr>l_product = 2, l_qty = 1, l_price = 5, l_name = ustr ''Y'', l_owner = 2, l_owner_tg = Some (ustr ''555'')\<rparr>]"

lemma demo_wf: "db_wf (db demo_sys)"
  by (simp add: demo_sys_def demo_db_def db_wf_def empty_db_def below_def)

lemma demo_resolve: "map (resolve (db demo_sys)) demo_items = map Some demo_lines"
  by (simp add: demo_sys_def demo_db_def demo_items_def demo_lines_def resolve_def product_owner_def
      line_of_def empty_db_def)

section \<open>Correspondence of stored items, and which errors change nothing\<close>


lemma resolve_SomeD_req:
  assumes "resolve d it = Some l"
  shows "rq_product_id it = Some (int (l_product l)) \<and> rq_qty it = Some (l_qty l) \<and>
         (\<exists>pr. products d (l_product l) = Some pr \<and> p_price pr = l_price l)"
proof -
  obtain i q where iq: "rq_product_id it = Some i" "rq_qty it = Some q" "i \<noteq> 0" "q \<noteq> 0"
    and po: "map_option (\<lambda>(p, pr, u). line_of p pr u q) (product_owner d i) = Some l"
    using assms by (auto simp: resolve_def split: option.splits if_splits)
  then obtain p pr u where "product_owner d i = Some (p, pr, u)" and l: "l = line_of p pr u q"
    by auto
  then have "0 \<le> i" "p = nat i" "products d p = Some pr"
    by (auto simp: product_owner_def split: if_splits option.splits)
  then show ?thesis using iq l by (simp add: line_of_def)
qed

lemma stored_items_match:
  assumes "map (resolve d) items = map Some ls"
  shows "list_all2 (\<lambda>it r. rq_product_id it = Some (int (oi_product r)) \<and> rq_qty it = Some (oi_qty r) \<and>
                            (\<exists>pr. products d (oi_product r) = Some pr \<and> oi_price r = p_price pr))
           items (map (item_row_of k) ls)"
  using assms
proof (induction items arbitrary: ls)
  case Nil then show ?case by simp
next
  case (Cons it items)
  then obtain l ls' where "ls = l # ls'" "resolve d it = Some l" "map (resolve d) items = map Some ls'"
    by (cases ls) auto
  with Cons.IH show ?case
    using resolve_SomeD_req [of d it l] by (auto simp: item_row_of_def)
qed



lemma keeps_collect_item: "keeps (\<lambda>s. P (db s) (sent s)) (collect_item F acc it)"
  unfolding collect_item_def
  by (auto intro!: keeps_ebind keeps_read_only_query simp: Let_def split: option.splits prod.splits)

lemma raises_only_if [intro]: "raises_only e m1 \<Longrightarrow> raises_only e m2 \<Longrightarrow> raises_only e (if b then m1 else m2)"
  by simp

lemma raises_only_case_prod3 [intro]:
  "(\<And>a b c. raises_only e (f a b c)) \<Longrightarrow> raises_only e (case x of (a, b, c) \<Rightarrow> f a b c)"
  by (cases x) auto

lemma raises_only_insert_order: "raises_only internal_error (insert_order F now u acc)"
  unfolding insert_order_def
  by (intro raises_only_ebind raises_only_execute_query raises_only_eforeach raises_only_eret)

lemma raises_only_notify_order: "raises_only internal_error (notify_order F u k acc)"
  unfolding notify_order_def
  by (intro raises_only_ebind raises_only_execute_query raises_only_notify_if raises_only_eforeach
      raises_only_case_prod3 raises_only_if raises_only_eret)

lemma raises_only_after_collect:
  "raises_only internal_error
     (ebind (insert_order F now u acc) (\<lambda>k.
      ebind (notify_order F u k acc) (\<lambda>_. order_response F k acc)))"
  by (intro raises_only_ebind raises_only_insert_order raises_only_notify_order
      raises_only_execute_query raises_only_eret)

section \<open>Chat ids of the owners, ownership checks\<close>


lemma resolve_owner_tg:
  assumes "resolve d it = Some l"
  shows "l_owner_tg l = user_tg d (l_owner l)"
proof -
  obtain i q where "rq_product_id it = Some i" "rq_qty it = Some q" "i \<noteq> 0" "q \<noteq> 0"
    and po: "map_option (\<lambda>(p, pr, u). line_of p pr u q) (product_owner d i) = Some l"
    using assms by (auto simp: resolve_def split: option.splits if_splits)
  then obtain p pr w where "product_owner d i = Some (p, pr, w)" and l: "l = line_of p pr w q"
    by auto
  then have "users d (created_by pr) = Some w"
    by (auto simp: product_owner_def split: if_splits option.splits)
  then show ?thesis using l by (simp add: line_of_def user_tg_def)
qed

lemma owner_entry_tg:
  assumes "\<forall>l\<in>set ls. l_owner_tg l = user_tg d (l_owner l)" and "w \<in> set (map l_owner ls)"
  shows "owner_entry ls w = (w, user_tg d w, map sold_of (owner_lines ls w))"
proof -
  obtain l ls' where ol: "owner_lines ls w = l # ls'"
    using assms(2) by (cases "owner_lines ls w") (auto simp: owner_lines_def filter_empty_conv)
  have "l \<in> set (owner_lines ls w)" using ol by simp
  then have "l \<in> set ls" "l_owner l = w" by (simp_all add: owner_lines_def)
  with assms(1) ol show ?thesis by (simp add: owner_entry_def)
qed

lemma sel_order_of_missing:
  assumes "\<not> F (stmt_no s)"
    and "orders (db s) k = None \<or> (\<exists>r. orders (db s) k = Some r \<and> o_user r \<noteq> u)"
  shows "execute_query F (sel_order_of k u) s = (Inr None, s\<lparr>stmt_no := Suc (stmt_no s)\<rparr>)"
  using assms by (auto simp: execute_query_select sel_order_of_def)

lemma sel_order_of_owned:
  assumes "\<not> F (stmt_no s)" and "orders (db s) k = Some r" and "o_user r = u"
  shows "execute_query F (sel_order_of k u) s = (Inr (Some r), s\<lparr>stmt_no := Suc (stmt_no s)\<rparr>)"
  using assms by (simp add: execute_query_select sel_order_of_def)

section \<open>A worked scenario\<close>

text \<open>
  The scenario of the specification: user 1 (no chat id) buys two units of product 1
  (price 10) and one of product 2 (price 5), both owned by user 2, whose chat id is 555.
\<close>




definition demo_order_db :: db where
  "demo_order_db =
     demo_db\<lparr>orders := [1 \<mapsto> \<lparr>o_user = 2, total_amount = 25, o_status = ustr ''new'', o_created_at = 7\<rparr>],
             next_order := 2\<rparr>"

definition demo_order_sys :: sys where
  "demo_order_sys = \<lparr>db = demo_order_db, sent = [], stmt_no = 0\<rparr>"

section \<open>Properties of create_order\<close>

text \<open>
  C1. On a non-empty item list whose every entry names an existing product (with an
  existing owner) and a non-zero quantity, a fault-free \<open>create_order\<close> succeeds, its
  total is the sum of price times quantity of the products as they are at call time, and
  it stores one order of the buyer with that total and status \<open>new\<close>.
\<close>

theorem create_order_total:
  assumes "db_wf (db s)" and "items \<noteq> []" and "map (resolve (db s)) items = map Some ls"
  shows "\<exists>v s'. create_order no_faults now u (Some items) s = (Inr v, s') \<and>
           ov_total v = (\<Sum>l\<leftarrow>ls. l_price l * of_int (l_qty l)) \<and>
           orders (db s') (ov_id v) =
             Some \<lparr>o_user = u, total_amount = ov_total v, o_status = ustr ''new'', o_created_at = now\<rparr>"
  using create_order_run [OF assms, of now u]
  by (simp add: add_order_def line_total_def [abs_def])

theorem create_order_total_witness:
  "db_wf (db demo_sys) \<and> demo_items \<noteq> [] \<and> map (resolve (db demo_sys)) demo_items = map Some demo_lines \<and>
   (\<exists>v s'. create_order no_faults 7 1 (Some demo_items) demo_sys = (Inr v, s') \<and> ov_total v = 25)"
proof -
  have ne: "demo_items \<noteq> []" by (simp add: demo_items_def)
  from create_order_total [OF demo_wf ne demo_resolve, of 7 1]
  show ?thesis using demo_wf ne demo_resolve by (auto simp: demo_lines_def)
qed

text \<open>
  C2. Under the same conditions, the stored items of the new order correspond one to one,
  in request order, to the requested items: same product id, same quantity, and the
  unit price the product has at call time (a snapshot, not a reference to the product).
\<close>

theorem create_order_stores_items:
  assumes "db_wf (db s)" and "items \<noteq> []" and "map (resolve (db s)) items = map Some ls"
  shows "\<exists>v s'. create_order no_faults now u (Some items) s = (Inr v, s') \<and>
           list_all2 (\<lambda>it r. rq_product_id it = Some (int (oi_product r)) \<and> rq_qty it = Some (oi_qty r) \<and>
                             (\<exists>pr. products (db s) (oi_product r) = Some pr \<and> oi_price r = p_price pr))
             items (items_of (db s') (ov_id v))"
proof -
  have fresh: "items_of (db s) (next_order (db s)) = []" using assms(1) by (rule items_of_fresh)
  have pos: "0 < next_item (db s)" using assms(1) by (simp add: db_wf_def)
  show ?thesis
    using create_order_run [OF assms, of now u] stored_items_match [OF assms(3), of "next_order (db s)"]
      fresh pos
    by (simp add: items_of_add_lines items_of_add_order)
qed

theorem create_order_stores_items_witness:
  "db_wf (db demo_sys) \<and> demo_items \<noteq> [] \<and> map (resolve (db demo_sys)) demo_items = map Some demo_lines \<and>
   (\<exists>v s'. create_order no_faults 7 1 (Some demo_items) demo_sys = (Inr v, s') \<and>
      map oi_price (items_of (db s') (ov_id v)) = [10, 5])"
proof -
  have ne: "demo_items \<noteq> []" by (simp add: demo_items_def)
  obtain v s' where run: "create_order no_faults 7 1 (Some demo_items) demo_sys = (Inr v, s')"
    and rel: "list_all2 (\<lambda>it r. rq_product_id it = Some (int (oi_product r)) \<and> rq_qty it = Some (oi_qty r) \<and>
                             (\<exists>pr. products (db demo_sys) (oi_product r) = Some pr \<and> oi_price r = p_price pr))
             demo_items (items_of (db s') (ov_id v))"
    using create_order_stores_items [OF demo_wf ne demo_resolve, of 7 1] by blast
  from rel have "map oi_price (items_of (db s') (ov_id v)) = [10, 5]"
    by (auto simp: demo_items_def list_all2_Cons1 demo_sys_def demo_db_def empty_db_def)
  with run demo_wf ne demo_resolve show ?thesis by (intro conjI exI)
qed



text \<open>
  C3. \<open>create_order\<close> is not atomic. When the statement that inserts the
  \<open>j\<close>-th item fails (\<open>j\<close> counted from 0), the client gets a 500 but the order
  row and the first \<open>j\<close> items stay committed: for \<open>j = 0\<close> an order with no items.
\<close>

theorem create_order_partial_commit:
  assumes wf: "db_wf (db s)" and res: "map (resolve (db s)) items = map Some ls" and j: "j < length items"
  shows "\<exists>s'. create_order (\<lambda>n. n = stmt_no s + length items + Suc j) now u (Some items) s =
                (Inl internal_error, s') \<and>
              orders (db s') (next_order (db s)) \<noteq> None \<and>
              length (items_of (db s') (next_order (db s))) = j"
proof -
  let ?F = "\<lambda>n. n = stmt_no s + length items + Suc j"
  let ?acc = "foldl acc_add collect_empty ls"
  let ?k = "next_order (db s)"
  have ne: "items \<noteq> []" using j by auto
  have len: "length ls = length items" using res by (metis length_map)
  let ?s1 = "s\<lparr>stmt_no := stmt_no s + length items\<rparr>"
  have p1: "efold (collect_item ?F) items collect_empty s = (Inr ?acc, ?s1)"
    using res by (intro collect_loop) (simp_all add: faults_free_def)
  have acc: "c_lines ?acc = ls" by (simp add: foldl_acc_add collect_empty_def)
  let ?d2 = "add_lines ?k (take j ls) (add_order u (c_total ?acc) (ustr ''new'') now (db s))"
  let ?s2 = "?s1\<lparr>db := ?d2, stmt_no := stmt_no ?s1 + Suc (Suc j)\<rparr>"
  have p2: "insert_order ?F now u ?acc ?s1 = (Inl internal_error, ?s2)"
    using insert_order_fault [of ?F ?s1 j ?acc now u] acc len j by (simp add: faults_free_def)
  have "create_order ?F now u (Some items) s =
          ebind (insert_order ?F now u ?acc) (\<lambda>k.
          ebind (notify_order ?F u k ?acc) (\<lambda>_. order_response ?F k ?acc)) ?s1"
    unfolding create_order_items [OF ne]
    by (rule ebind_Inr [where m = "efold (collect_item ?F) items collect_empty" and s = s, OF p1])
  also have "\<dots> = (Inl internal_error, ?s2)"
    by (rule ebind_Inl [where m = "insert_order ?F now u ?acc" and s = ?s1, OF p2])
  finally have run: "create_order ?F now u (Some items) s = (Inl internal_error, ?s2)" .
  have fresh: "items_of (db s) ?k = []" using wf by (rule items_of_fresh)
  have pos: "0 < next_item (db s)" using wf by (simp add: db_wf_def)
  have "orders ?d2 ?k \<noteq> None" by (simp add: add_order_def)
  moreover have "length (items_of ?d2 ?k) = j"
    using fresh pos len j by (simp add: items_of_add_lines items_of_add_order)
  ultimately show ?thesis using run by auto
qed

theorem create_order_partial_commit_witness:
  "db_wf (db demo_sys) \<and> map (resolve (db demo_sys)) demo_items = map Some demo_lines \<and> 0 < length demo_items \<and>
   (\<exists>s'. create_order (\<lambda>n. n = 3) 7 1 (Some demo_items) demo_sys = (Inl internal_error, s') \<and>
         orders (db s') 1 \<noteq> None \<and> items_of (db s') 1 = [])"
proof -
  have j: "0 < length demo_items" by (simp add: demo_items_def)
  have st: "stmt_no demo_sys + length demo_items + Suc 0 = 3" "next_order (db demo_sys) = 1"
    by (simp_all add: demo_sys_def demo_items_def demo_db_def empty_db_def)
  obtain s' where "create_order (\<lambda>n. n = stmt_no demo_sys + length demo_items + Suc 0) 7 1 (Some demo_items) demo_sys =
                     (Inl internal_error, s')"
    and "orders (db s') (next_order (db demo_sys)) \<noteq> None"
    and "length (items_of (db s') (next_order (db demo_sys))) = 0"
    using create_order_partial_commit [OF demo_wf demo_resolve j, of 7 1] by blast
  with st demo_wf demo_resolve j show ?thesis by auto
qed

text \<open>
  C4. Every answer of \<open>create_order\<close> other than a 500 that is an error (400 for a
  missing list, item field or zero value, 404 for a missing product) leaves the store and
  the outbox as they were: validation finishes before the first write.
\<close>

theorem create_order_client_error_no_effect:
  assumes run: "create_order F now u req s = (Inl e, s')" and e: "e \<noteq> internal_error"
  shows "db s' = db s \<and> sent s' = sent s"
proof (cases "req = None \<or> req = Some []")
  case True
  with run show ?thesis by (auto simp: create_order_def eraise_apply)
next
  case False
  then obtain items where req: "req = Some items" and ne: "items \<noteq> []" by auto
  let ?rest = "\<lambda>acc. ebind (insert_order F now u acc) (\<lambda>k.
                 ebind (notify_order F u k acc) (\<lambda>_. order_response F k acc))"
  from run have "ebind (efold (collect_item F) items collect_empty) ?rest s = (Inl e, s')"
    by (simp add: req create_order_items [OF ne])
  then show ?thesis
  proof (cases rule: ebind_cases)
    case raised
    have "keeps (\<lambda>t. db t = db s \<and> sent t = sent s) (efold (collect_item F) items collect_empty)"
      by (intro keeps_efold keeps_collect_item)
    with raised show ?thesis by (auto dest: keepsD)
  next
    case (returned acc s1)
    have "e = internal_error"
      using raises_onlyD [OF raises_only_after_collect returned(2)] returned(2) by simp
    with e show ?thesis by simp
  qed
qed

theorem create_order_client_error_no_effect_witness:
  "create_order no_faults 7 1 None demo_sys = (Inl items_required, demo_sys) \<and> items_required \<noteq> internal_error \<and>
   db demo_sys = db demo_sys \<and> sent demo_sys = sent demo_sys"
proof -
  have run: "create_order no_faults 7 1 None demo_sys = (Inl items_required, demo_sys)"
    by (simp add: create_order_def eraise_apply)
  have ne: "items_required \<noteq> internal_error"
    by (simp add: items_required_def internal_error_def)
  from create_order_client_error_no_effect [OF run ne] run ne show ?thesis by simp
qed

text \<open>
  C5. Under the conditions of C1, the messages \<open>create_order\<close> sends are: the buyer's
  message if the buyer has a chat id, then, for each distinct product owner other than the
  buyer that has a chat id, in the order of the owners' first lines, exactly one message
  that lists all of that owner's lines and the owner's revenue, the sum of their line totals.
\<close>


theorem create_order_notifications:
  assumes "db_wf (db s)" and "items \<noteq> []" and "map (resolve (db s)) items = map Some ls"
  shows "\<exists>v s'. create_order no_faults now u (Some items) s = (Inr v, s') \<and>
           sent s' = sent s @ tg_msgs (user_tg (db s) u) (buyer_msg (ov_id v) (foldl acc_add collect_empty ls)) @
             concat (map (\<lambda>w. if w \<noteq> u
                               then tg_msgs (user_tg (db s) w)
                                      (Product_purchased (ov_id v)
                                         (map (\<lambda>l. (l_name l, l_qty l, l_price l, line_total l)) (owner_lines ls w))
                                         (\<Sum>l\<leftarrow>owner_lines ls w. line_total l))
                               else [])
                        (firsts (map l_owner ls)))"
proof -
  let ?k = "next_order (db s)"
  have tg: "\<forall>l\<in>set ls. l_owner_tg l = user_tg (db s) (l_owner l)"
  proof
    fix l assume "l \<in> set ls"
    with assms(3) have "Some l \<in> set (map (resolve (db s)) items)" by simp
    then obtain it where "resolve (db s) it = Some l" by auto
    then show "l_owner_tg l = user_tg (db s) (l_owner l)" by (rule resolve_owner_tg)
  qed
  have owners: "c_owners (foldl acc_add collect_empty ls) = group_owners ls"
    by (simp add: foldl_acc_add collect_empty_def owners_fold_group)
  have "owner_notes u ?k (group_owners ls) =
          concat (map (\<lambda>w. if w \<noteq> u
                           then tg_msgs (user_tg (db s) w)
                                  (Product_purchased ?k
                                     (map (\<lambda>l. (l_name l, l_qty l, l_price l, line_total l)) (owner_lines ls w))
                                     (\<Sum>l\<leftarrow>owner_lines ls w. line_total l))
                           else [])
                    (firsts (map l_owner ls)))"
    unfolding owner_notes_def group_owners_def map_map
  proof (intro arg_cong [where f = concat] map_cong refl)
    fix w assume "w \<in> set (firsts (map l_owner ls))"
    then have "w \<in> set (map l_owner ls)" by simp
    then show "((\<lambda>(ow, t, xs). if ow \<noteq> u then tg_msgs t (owner_msg ?k xs) else []) \<circ> owner_entry ls) w =
               (if w \<noteq> u then tg_msgs (user_tg (db s) w)
                                (Product_purchased ?k
                                   (map (\<lambda>l. (l_name l, l_qty l, l_price l, line_total l)) (owner_lines ls w))
                                   (\<Sum>l\<leftarrow>owner_lines ls w. line_total l))
                else [])"
      using owner_entry_tg [OF tg] by (simp add: owner_msg_def sold_of_def comp_def)
  qed
  moreover have "(case users (db s) u of None \<Rightarrow> None | Some b \<Rightarrow> telegram_id b) = user_tg (db s) u"
    by (simp add: user_tg_def)
  ultimately have eq: "order_notifications (db s) u ?k (foldl acc_add collect_empty ls) =
          tg_msgs (user_tg (db s) u) (buyer_msg ?k (foldl acc_add collect_empty ls)) @
             concat (map (\<lambda>w. if w \<noteq> u
                               then tg_msgs (user_tg (db s) w)
                                      (Product_purchased ?k
                                         (map (\<lambda>l. (l_name l, l_qty l, l_price l, line_total l)) (owner_lines ls w))
                                         (\<Sum>l\<leftarrow>owner_lines ls w. line_total l))
                               else [])
                        (firsts (map l_owner ls)))"
    using owners by (simp add: order_notifications_def)
  show ?thesis
    using create_order_run [OF assms, of now u] by (simp only: eq) (simp cong: if_cong)
qed


theorem create_order_notifications_witness:
  "db_wf (db demo_sys) \<and> demo_items \<noteq> [] \<and> map (resolve (db demo_sys)) demo_items = map Some demo_lines \<and>
   (\<exists>v s'. create_order no_faults 7 1 (Some demo_items) demo_sys = (Inr v, s') \<and>
      sent s' = [(ustr ''555'', Product_purchased (ov_id v) [(ustr ''X'', 2, 10, 20), (ustr ''Y'', 1, 5, 5)] 25)])"
proof -
  have ne: "demo_items \<noteq> []" by (simp add: demo_items_def)
  obtain v s' where run: "create_order no_faults 7 1 (Some demo_items) demo_sys = (Inr v, s')"
    and snt: "sent s' = sent demo_sys @ tg_msgs (user_tg (db demo_sys) 1) (buyer_msg (ov_id v) (foldl acc_add collect_empty demo_lines)) @
             concat (map (\<lambda>w. if w \<noteq> 1
                               then tg_msgs (user_tg (db demo_sys) w)
                                      (Product_purchased (ov_id v)
                                         (map (\<lambda>l. (l_name l, l_qty l, l_price l, line_total l)) (owner_lines demo_lines w))
                                         (\<Sum>l\<leftarrow>owner_lines demo_lines w. line_total l))
                               else [])
                        (firsts (map l_owner demo_lines)))"
    using create_order_notifications [OF demo_wf ne demo_resolve, of 7 1] by blast
  have f: "firsts (map l_owner demo_lines) = [2]"
    by (simp add: demo_lines_def firsts_def)
  have o: "map (\<lambda>l. (l_name l, l_qty l, l_price l, l_price l * of_int (l_qty l))) (owner_lines demo_lines 2) =
             [(ustr ''X'', 2, 10, 20), (ustr ''Y'', 1, 5, 5)]"
    and o2: "(\<Sum>l\<leftarrow>owner_lines demo_lines 2. l_price l * of_int (l_qty l)) = 25"
    by (simp_all add: demo_lines_def owner_lines_def line_total_def)
  have t1: "user_tg (db demo_sys) (Suc 0) = None" and t2: "user_tg (db demo_sys) 2 = Some (ustr ''555'')"
    and s0: "sent demo_sys = []"
    by (simp_all add: user_tg_def demo_sys_def demo_db_def empty_db_def)
  have "sent s' = [(ustr ''555'', Product_purchased (ov_id v) [(ustr ''X'', 2, 10, 20), (ustr ''Y'', 1, 5, 5)] 25)]"
    unfolding snt f s0 by (simp add: o o2 t1 t2 tg_msgs_def line_total_def [abs_def] ustr_def)
  with run demo_wf ne demo_resolve show ?thesis by (intro conjI exI)
qed


section \<open>Properties of get_order and update_order\<close>

text \<open>
  C6. \<open>get_order\<close> answers an order of another user exactly as it answers an order id
  that does not exist: the same 404 and no other effect.
\<close>

theorem get_order_not_owned_is_not_found:
  assumes "\<not> F (stmt_no s)"
    and "orders (db s) k = None \<or> (\<exists>r. orders (db s) k = Some r \<and> o_user r \<noteq> u)"
  shows "get_order F u k s = (Inl order_not_found, s\<lparr>stmt_no := Suc (stmt_no s)\<rparr>)"
  using sel_order_of_missing [where F = F and s = s and k = k and u = u, OF assms]
  by (simp add: get_order_def ebind_Inr eraise_apply)

theorem get_order_not_owned_is_not_found_witness:
  "get_order no_faults 1 1 demo_order_sys = (Inl order_not_found, demo_order_sys\<lparr>stmt_no := 1\<rparr>) \<and>
   get_order no_faults 1 2 demo_order_sys = (Inl order_not_found, demo_order_sys\<lparr>stmt_no := 1\<rparr>)"
proof -
  have f: "\<not> no_faults (stmt_no demo_order_sys)" by (simp add: no_faults_def)
  have a: "orders (db demo_order_sys) 1 = None \<or> (\<exists>r. orders (db demo_order_sys) 1 = Some r \<and> o_user r \<noteq> 1)"
    and b: "orders (db demo_order_sys) 2 = None \<or> (\<exists>r. orders (db demo_order_sys) 2 = Some r \<and> o_user r \<noteq> 1)"
    by (simp_all add: demo_order_sys_def demo_order_db_def)
  have st: "Suc (stmt_no demo_order_sys) = 1" by (simp add: demo_order_sys_def)
  show ?thesis
    using get_order_not_owned_is_not_found [where F = no_faults and s = demo_order_sys and k = 1 and u = 1, OF f a]
      get_order_not_owned_is_not_found [where F = no_faults and s = demo_order_sys and k = 2 and u = 1, OF f b] st
    by simp
qed

text \<open>
  C7. \<open>update_order\<close> answers an order of another user exactly as a missing one,
  whatever status the request carries (the ownership check comes before the status check).
\<close>

theorem update_order_not_owned_is_not_found:
  assumes "\<not> F (stmt_no s)"
    and "orders (db s) k = None \<or> (\<exists>r. orders (db s) k = Some r \<and> o_user r \<noteq> u)"
  shows "update_order F u k st s = (Inl order_not_found, s\<lparr>stmt_no := Suc (stmt_no s)\<rparr>)"
  using sel_order_of_missing [where F = F and s = s and k = k and u = u, OF assms]
  by (simp add: update_order_def ebind_Inr eraise_apply)

text \<open>
  C8. A status outside \<open>new, in_progress, completed, canceled\<close> on the caller's own
  order is answered 400 and changes neither the store nor the outbox.
\<close>

theorem update_order_not_owned_is_not_found_witness:
  "update_order no_faults 1 1 (Some (ustr ''completed'')) demo_order_sys =
     (Inl order_not_found, demo_order_sys\<lparr>stmt_no := 1\<rparr>)"
proof -
  have f: "\<not> no_faults (stmt_no demo_order_sys)" by (simp add: no_faults_def)
  have a: "orders (db demo_order_sys) 1 = None \<or> (\<exists>r. orders (db demo_order_sys) 1 = Some r \<and> o_user r \<noteq> 1)"
    by (simp add: demo_order_sys_def demo_order_db_def)
  show ?thesis
    using update_order_not_owned_is_not_found [where F = no_faults and s = demo_order_sys and k = 1 and u = 1, OF f a]
    by (simp add: demo_order_sys_def)
qed

theorem update_order_invalid_status:
  assumes "\<not> F (stmt_no s)" and "orders (db s) k = Some r" and "o_user r = u"
    and "v \<notin> set allowed_statuses"
  shows "update_order F u k (Some v) s = (Inl invalid_status, s\<lparr>stmt_no := Suc (stmt_no s)\<rparr>)"
  using sel_order_of_owned [where F = F and s = s and k = k and u = u, OF assms(1-3)] assms(4)
  by (simp add: update_order_def set_status_def ebind_Inr eraise_apply ebind_eraise)

theorem update_order_invalid_status_witness:
  "update_order no_faults 2 1 (Some (ustr ''shipped'')) demo_order_sys =
     (Inl invalid_status, demo_order_sys\<lparr>stmt_no := 1\<rparr>)"
proof -
  have f: "\<not> no_faults (stmt_no demo_order_sys)" by (simp add: no_faults_def)
  have o: "orders (db demo_order_sys) 1 = Some \<lparr>o_user = 2, total_amount = 25, o_status = ustr ''new'', o_created_at = 7\<rparr>"
    by (simp add: demo_order_sys_def demo_order_db_def)
  have v: "ustr ''shipped'' \<notin> set allowed_statuses"
    by (simp add: allowed_statuses_def ustr_def)
  show ?thesis
    using update_order_invalid_status [where F = no_faults and s = demo_order_sys and u = 2, OF f o _ v]
    by (simp add: demo_order_sys_def)
qed

text \<open>
  C9. A status of the enumeration on the caller's own order is stored (from any status,
  the same one included), one message naming the new and the previous status goes to the
  buyer's chat id if there is one, and the updated row is returned.
\<close>

theorem update_order_sets_status:
  assumes "orders (db s) k = Some r" and "o_user r = u" and "v \<in> set allowed_statuses"
  shows "update_order no_faults u k (Some v) s =
           (Inr (k, r\<lparr>o_status := v\<rparr>),
            s\<lparr>db := (db s)\<lparr>orders := (orders (db s))(k \<mapsto> r\<lparr>o_status := v\<rparr>)\<rparr>,
              sent := sent s @ tg_msgs (user_tg (db s) u) (Status_changed k v (o_status r)),
              stmt_no := stmt_no s + 4\<rparr>)"
proof -
  have f: "\<And>n. \<not> no_faults n" by (simp add: no_faults_def)
  let ?d1 = "(db s)\<lparr>orders := (orders (db s))(k \<mapsto> r\<lparr>o_status := v\<rparr>)\<rparr>"
  let ?s1 = "s\<lparr>stmt_no := Suc (stmt_no s)\<rparr>"
  let ?s2 = "s\<lparr>db := ?d1, stmt_no := Suc (Suc (stmt_no s))\<rparr>"
  let ?s3 = "?s2\<lparr>stmt_no := Suc (Suc (Suc (stmt_no s)))\<rparr>"
  let ?s4 = "?s3\<lparr>sent := sent s @ tg_msgs (user_tg (db s) u) (Status_changed k v (o_status r))\<rparr>"
  have q1: "execute_query no_faults (sel_order_of k u) s = (Inr (Some r), ?s1)"
    using sel_order_of_owned [where F = no_faults and s = s, OF f assms(1,2)] .
  have q2: "execute_query no_faults (upd_order_status k v) ?s1 = (Inr (), ?s2)"
    using assms(1) by (simp add: execute_query_ok upd_order_status_def f)
  have q3: "execute_query no_faults (sel_order_buyer_tg k) ?s2 =
             (Inr (map_option telegram_id (users (db s) u)), ?s3)"
    using assms(1,2) by (simp add: execute_query_select sel_order_buyer_tg_def f)
  have tg: "(case map_option telegram_id (users (db s) u) of Some t \<Rightarrow> t | None \<Rightarrow> None) = user_tg (db s) u"
    by (simp add: user_tg_def split: option.splits)
  have q4: "execute_query no_faults (sel_order k) ?s4 = (Inr (Some (r\<lparr>o_status := v\<rparr>)), ?s4\<lparr>stmt_no := Suc (stmt_no ?s4)\<rparr>)"
    by (simp add: execute_query_select sel_order_def f)
  have st: "set_status no_faults k v (o_status r) ?s1 = (Inr (), ?s4)"
    using q2 q3 assms(3) tg by (simp add: set_status_def ebind_Inr notify_if_apply)
  show ?thesis
    using q1 st q4 by (simp add: update_order_def ebind_Inr eret_apply)
qed

theorem update_order_sets_status_witness:
  "\<exists>s'. update_order no_faults 2 1 (Some (ustr ''completed'')) demo_order_sys =
          (Inr (1, \<lparr>o_user = 2, total_amount = 25, o_status = ustr ''completed'', o_created_at = 7\<rparr>), s') \<and>
        sent s' = [(ustr ''555'', Status_changed 1 (ustr ''completed'') (ustr ''new''))]"
proof -
  have o: "orders (db demo_order_sys) 1 = Some \<lparr>o_user = 2, total_amount = 25, o_status = ustr ''new'', o_created_at = 7\<rparr>"
    by (simp add: demo_order_sys_def demo_order_db_def)
  have v: "ustr ''completed'' \<in> set allowed_statuses"
    by (simp add: allowed_statuses_def)
  have t: "user_tg (db demo_order_sys) 2 = Some (ustr ''555'')" and s0: "sent demo_order_sys = []"
    by (simp_all add: user_tg_def demo_order_sys_def demo_order_db_def demo_db_def)
  show ?thesis
    using update_order_sets_status [OF o _ v] t s0 by (simp add: tg_msgs_def ustr_def)
qed

end
