(* ===== verification/Linking.thy ===== *)
theory Linking
  imports Runtime
begin

text \<open>
  Linking a site account to a Telegram chat, \<open>src/back/app.py\<close>:
  \<open>generate_telegram_token\<close> (POST /api/telegram/generate-token, behind \<open>jwt_required\<close>)
  deletes every link token of the user, stores a fresh one valid for thirty minutes and
  sends it to the user's chat if one is already linked; \<open>link_telegram\<close>
  (GET /link-telegram) redeems a valid token: it writes the chat id into the token's user,
  marks the token used and confirms to the chat. The token text, \<open>secrets.token_hex(16)\<close>,
  is a parameter of the model, as is the clock \<open>datetime.now()\<close>.
\<close>

section \<open>Errors and handlers\<close>

definition link_args_required :: api_error where
  "link_args_required = BadRequest (ustr ''Token and telegram_id required'')"

definition invalid_token :: api_error where
  "invalid_token = BadRequest (ustr ''Invalid or expired token'')"

definition user_not_found :: api_error where
  "user_not_found = NotFound (ustr ''User not found'')"

text \<open>\<open>timedelta(minutes=30)\<close>, with time counted in seconds.\<close>

definition token_lifetime :: time where
  "token_lifetime = 30 * 60"

definition generate_telegram_token :: "faults \<Rightarrow> uid \<Rightarrow> ustr \<Rightarrow> time \<Rightarrow> (ustr \<times> time) act" where
  "generate_telegram_token F u tok now =
     ebind (execute_query F (del_tokens_of u)) (\<lambda>_.
     ebind (execute_query F (ins_token u tok (now + token_lifetime))) (\<lambda>_.
     ebind (execute_query F (sel_user u)) (\<lambda>w.
     ebind (notify_if (case w of Some r \<Rightarrow> telegram_id r | None \<Rightarrow> None) (Link_code tok)) (\<lambda>_.
     eret (tok, now + token_lifetime)))))"

text \<open>
  \<open>tok\<close> and \<open>tg\<close> are \<open>request.args.get('token')\<close> and
  \<open>request.args.get('telegram_id')\<close>; the user's id is the token's \<open>user_id\<close>.
\<close>

definition link_telegram :: "faults \<Rightarrow> ustr option \<Rightarrow> tgid option \<Rightarrow> time \<Rightarrow> ustr act" where
  "link_telegram F tok tg now =
     (case (tok, tg) of
        (Some k, Some t) \<Rightarrow>
          if k = [] \<or> t = [] then eraise link_args_required
          else ebind (execute_query F (sel_valid_token k now)) (\<lambda>r.
            case r of
              None \<Rightarrow> eraise invalid_token
            | Some (i, tr) \<Rightarrow>
                ebind (execute_query F (sel_user (t_user tr))) (\<lambda>w.
                case w of
                  None \<Rightarrow> eraise user_not_found
                | Some ur \<Rightarrow>
                    ebind (execute_query F (upd_user_tg (t_user tr) t)) (\<lambda>_.
                    ebind (execute_query F (mark_token_used i)) (\<lambda>_.
                    ebind (send_telegram_notification t (Account_linked (email ur))) (\<lambda>_.
                    eret (email ur))))))
      | _ \<Rightarrow> eraise link_args_required)"

section \<open>The UNIQUE constraint on tokens\<close>

definition tokens_unique :: "db \<Rightarrow> bool" where
  "tokens_unique d \<longleftrightarrow> unique_col token (link_tokens d) (next_token d)"

definition link_inv :: "db \<Rightarrow> bool" where
  "link_inv d \<longleftrightarrow> db_wf d \<and> tokens_unique d"

text \<open>A statement that keeps a property of the store whenever it succeeds.\<close>

definition preserves :: "(db \<Rightarrow> bool) \<Rightarrow> 'a stmt \<Rightarrow> bool" where
  "preserves P q \<longleftrightarrow> (\<forall>d d' r. P d \<longrightarrow> q d = Some (d', r) \<longrightarrow> P d')"

lemma keeps_execute_preserves [intro]:
  "preserves P q \<Longrightarrow> keeps (\<lambda>s. P (db s)) (execute_query F q)"
  by (auto simp: keeps_def preserves_def execute_query_def split: option.splits)

lemma preserves_read_only [intro]: "read_only q \<Longrightarrow> preserves P q"
  by (auto simp: read_only_def preserves_def)

lemma tokens_unique_same:
  "link_tokens d' = link_tokens d \<Longrightarrow> next_token d' = next_token d \<Longrightarrow>
     tokens_unique d' = tokens_unique d"
  by (simp add: tokens_unique_def)

lemma preserves_link_inv_del_tokens_of [intro]: "preserves link_inv (del_tokens_of u)"
  unfolding preserves_def link_inv_def
proof (intro allI impI, elim conjE)
  fix d d' r assume q: "del_tokens_of u d = Some (d', r)" and wf: "db_wf d" and un: "tokens_unique d"
  have "db_wf d'" using wf q keeps_wf_del_tokens_of by (auto simp: keeps_wf_def)
  moreover have "tokens_unique d'"
    unfolding tokens_unique_def unique_col_iff
  proof (intro allI impI)
    fix i j ri rj
    assume "0 < i" "i < next_token d'" "0 < j" "j < next_token d'"
      "link_tokens d' i = Some ri" "link_tokens d' j = Some rj" "token ri = token rj"
    with q un show "i = j"
      by (auto simp: del_tokens_of_def tokens_unique_def unique_col_iff split: option.splits if_splits)
  qed
  ultimately show "db_wf d' \<and> tokens_unique d'" ..
qed

lemma preserves_link_inv_ins_token [intro]: "preserves link_inv (ins_token u tok ex)"
  unfolding preserves_def link_inv_def
proof (intro allI impI, elim conjE)
  fix d d' r assume q: "ins_token u tok ex d = Some (d', r)" and wf: "db_wf d" and un: "tokens_unique d"
  have "db_wf d'" using wf q keeps_wf_ins_token by (auto simp: keeps_wf_def)
  moreover
  have fresh: "\<forall>i r. 0 < i \<longrightarrow> i < next_token d \<longrightarrow> link_tokens d i = Some r \<longrightarrow> token r \<noteq> tok"
    using q unfolding ins_token_def rows_where_Nil_iff by (auto split: if_splits)
  have bel: "\<And>x y. link_tokens d x = Some y \<Longrightarrow> 0 < x \<and> x < next_token d"
    using wf by (auto simp: db_wf_def below_def)
  have d': "d' = d\<lparr>link_tokens := (link_tokens d)(next_token d \<mapsto>
                      \<lparr>t_user = u, token = tok, expires_at = ex, is_used = False\<rparr>),
                   next_token := Suc (next_token d)\<rparr>"
    using q by (simp add: ins_token_def split: if_splits)
  have only: "x = next_token d" if "link_tokens d' x = Some y" "token y = tok" for x y
  proof (rule ccontr)
    assume "x \<noteq> next_token d"
    with that d' have "link_tokens d x = Some y" by simp
    with bel fresh \<open>token y = tok\<close> show False by blast
  qed
  have "tokens_unique d'"
    unfolding tokens_unique_def unique_col_iff
  proof (intro allI impI)
    fix i j ri rj
    assume h: "0 < i" "i < next_token d'" "0 < j" "j < next_token d'"
      "link_tokens d' i = Some ri" "link_tokens d' j = Some rj" "token ri = token rj"
    show "i = j"
    proof (cases "token ri = tok")
      case True
      with h only show ?thesis by metis
    next
      case False
      with h d' have "i \<noteq> next_token d" "j \<noteq> next_token d" by auto
      with h d' un show ?thesis by (simp add: tokens_unique_def unique_col_iff)
    qed
  qed
  ultimately show "db_wf d' \<and> tokens_unique d'" ..
qed

lemma preserves_link_inv_mark_token_used [intro]: "preserves link_inv (mark_token_used i)"
  unfolding preserves_def link_inv_def
proof (intro allI impI, elim conjE)
  fix d d' r assume q: "mark_token_used i d = Some (d', r)" and wf: "db_wf d" and un: "tokens_unique d"
  have "db_wf d'" using wf q keeps_wf_mark_token_used by (auto simp: keeps_wf_def)
  moreover have "tokens_unique d'"
    unfolding tokens_unique_def unique_col_iff
  proof (intro allI impI)
    fix a b ra rb
    assume "0 < a" "a < next_token d'" "0 < b" "b < next_token d'"
      "link_tokens d' a = Some ra" "link_tokens d' b = Some rb" "token ra = token rb"
    with q un show "a = b"
      by (auto simp: mark_token_used_def tokens_unique_def unique_col_iff split: option.splits if_splits)
  qed
  ultimately show "db_wf d' \<and> tokens_unique d'" ..
qed

lemma preserves_link_inv_upd_user_tg [intro]: "preserves link_inv (upd_user_tg u t)"
  using keeps_wf_upd_user_tg [of u t]
  by (auto simp: preserves_def link_inv_def keeps_wf_def upd_user_tg_def tokens_unique_def)


section \<open>Evaluation of the handlers\<close>

lemma del_tokens_of_apply:
  "del_tokens_of u d = Some (d\<lparr>link_tokens := delete_where (\<lambda>r. t_user r = u) (link_tokens d)\<rparr>, ())"
  by (simp add: del_tokens_of_def delete_where_def)

definition new_token :: "uid \<Rightarrow> ustr \<Rightarrow> time \<Rightarrow> token_row" where
  "new_token u tok ex = \<lparr>t_user = u, token = tok, expires_at = ex, is_used = False\<rparr>"

text \<open>The store after a reissue: the user's tokens deleted, the new one appended.\<close>

definition reissued :: "uid \<Rightarrow> ustr \<Rightarrow> time \<Rightarrow> db \<Rightarrow> db" where
  "reissued u tok ex d =
     d\<lparr>link_tokens := (delete_where (\<lambda>r. t_user r = u) (link_tokens d))(next_token d \<mapsto> new_token u tok ex),
       next_token := Suc (next_token d)\<rparr>"

lemma ins_token_after_delete:
  assumes "rows_where (link_tokens d) (next_token d) (\<lambda>r. token r = tok \<and> t_user r \<noteq> u) = []"
  shows "ins_token u tok ex (d\<lparr>link_tokens := delete_where (\<lambda>r. t_user r = u) (link_tokens d)\<rparr>) =
           Some (reissued u tok ex d, ())"
  using assms by (simp add: ins_token_def reissued_def new_token_def rows_where_delete_where)

lemma generate_telegram_token_ok:
  assumes "faults_free F (stmt_no s) 3"
    and "rows_where (link_tokens (db s)) (next_token (db s)) (\<lambda>r. token r = tok \<and> t_user r \<noteq> u) = []"
  shows "generate_telegram_token F u tok now s =
           (Inr (tok, now + token_lifetime),
            s\<lparr>db := reissued u tok (now + token_lifetime) (db s),
              sent := sent s @ tg_msgs (user_tg (db s) u) (Link_code tok),
              stmt_no := stmt_no s + 3\<rparr>)"
proof -
  have f: "\<not> F (stmt_no s)" "\<not> F (Suc (stmt_no s))" "\<not> F (Suc (Suc (stmt_no s)))"
    using assms(1) by (simp_all add: faults_free_Suc numeral_3_eq_3)
  have u: "users (reissued u tok (now + token_lifetime) (db s)) = users (db s)"
    by (simp add: reissued_def)
  have tg: "(case users (db s) u of Some r \<Rightarrow> telegram_id r | None \<Rightarrow> None) = user_tg (db s) u"
    by (simp add: user_tg_def)
  show ?thesis
    using f
    by (simp add: generate_telegram_token_def exc_simps del_tokens_of_apply
        ins_token_after_delete [OF assms(2)] sel_user_def u tg)
qed

text \<open>The store after a successful redemption of token row \<open>i\<close> by chat \<open>t\<close>.\<close>

definition linked :: "nat \<Rightarrow> token_row \<Rightarrow> user_row \<Rightarrow> tgid \<Rightarrow> db \<Rightarrow> db" where
  "linked i r ur t d =
     d\<lparr>users := (users d)(t_user r \<mapsto> ur\<lparr>telegram_id := Some t\<rparr>),
       link_tokens := (link_tokens d)(i \<mapsto> r\<lparr>is_used := True\<rparr>)\<rparr>"

lemma link_telegram_no_token:
  assumes "k \<noteq> []" "t \<noteq> []" "\<not> F (stmt_no s)"
    and "rows_where (link_tokens (db s)) (next_token (db s)) (valid_token now k) = []"
  shows "link_telegram F (Some k) (Some t) now s = (Inl invalid_token, s\<lparr>stmt_no := Suc (stmt_no s)\<rparr>)"
  using assms by (simp add: link_telegram_def sel_valid_token_def exc_simps)

lemma sel_valid_token_unique:
  assumes "link_inv d" "link_tokens d i = Some r" "valid_token now k r"
  shows "rows_where (link_tokens d) (next_token d) (valid_token now k) = [(i, r)]"
proof -
  have b: "0 < i" "i < next_token d"
    using assms(1,2) by (auto simp: link_inv_def db_wf_def below_def)
  show ?thesis
  proof (rule rows_where_single [where P = "valid_token now k" and t = "link_tokens d" and n = "next_token d", OF b assms(2,3)])
    fix j r' assume "0 < j" "j < next_token d" "link_tokens d j = Some r'" "valid_token now k r'"
    with assms b show "j = i"
      by (auto simp: link_inv_def tokens_unique_def valid_token_def intro: unique_colD)
  qed
qed

lemma link_telegram_ok:
  assumes "link_inv (db s)" "link_tokens (db s) i = Some r" "valid_token now k r"
    and "users (db s) (t_user r) = Some ur" "k \<noteq> []" "t \<noteq> []"
    and "faults_free F (stmt_no s) 4"
  shows "link_telegram F (Some k) (Some t) now s =
           (Inr (email ur),
            s\<lparr>db := linked i r ur t (db s), sent := sent s @ [(t, Account_linked (email ur))],
              stmt_no := stmt_no s + 4\<rparr>)"
proof -
  have f: "\<not> F (stmt_no s)" "\<not> F (Suc (stmt_no s))" "\<not> F (Suc (Suc (stmt_no s)))"
    "\<not> F (Suc (Suc (Suc (stmt_no s))))"
    using assms(7) by (simp_all add: faults_free_Suc numeral_eq_Suc)
  have q1: "sel_valid_token k now (db s) = Some (db s, Some (i, r))"
    using sel_valid_token_unique [OF assms(1-3)] by (simp add: sel_valid_token_def)
  have q2: "sel_user (t_user r) (db s) = Some (db s, Some ur)"
    using assms(4) by (simp add: sel_user_def)
  have q3: "upd_user_tg (t_user r) t (db s) =
              Some ((db s)\<lparr>users := (users (db s))(t_user r \<mapsto> ur\<lparr>telegram_id := Some t\<rparr>)\<rparr>, ())"
    using assms(4) by (simp add: upd_user_tg_def)
  have q4: "mark_token_used i ((db s)\<lparr>users := (users (db s))(t_user r \<mapsto> ur\<lparr>telegram_id := Some t\<rparr>)\<rparr>) =
              Some (linked i r ur t (db s), ())"
    using assms(2) by (simp add: mark_token_used_def linked_def)
  show ?thesis
    using f assms(5,6)
    by (simp add: link_telegram_def exc_simps q1 q2 q3 q4)
qed

section \<open>A linking scenario\<close>

definition demo_link_db :: db where
  "demo_link_db = empty_db\<lparr>
     users := [1 \<mapsto> \<lparr>username = ustr ''a'', email = ustr ''a@shop'', first_name = ustr ''A'',
                     last_name = ustr ''A'', password_hash = ustr ''h'', theme = ustr ''light'', telegram_id = None, u_created_at = 0\<rparr>,
               2 \<mapsto> \<lparr>username = ustr ''b'', email = ustr ''b@shop'', first_name = ustr ''B'',
                     last_name = ustr ''B'', password_hash = ustr ''h'', theme = ustr ''light'', telegram_id = Some (ustr ''555''), u_created_at = 0\<rparr>],
     next_user := 3,
     link_tokens := [1 \<mapsto> \<lparr>t_user = 1, token = ustr ''abc'', expires_at = 2000, is_used = False\<rparr>,
                     2 \<mapsto> \<lparr>t_user = 2, token = ustr ''old'', expires_at = 100, is_used = False\<rparr>],
     next_token := 3\<rparr>"

definition demo_link_sys :: sys where
  "demo_link_sys = \<lparr>db = demo_link_db, sent = [], stmt_no = 0\<rparr>"

lemma demo_link_inv: "link_inv demo_link_db"
  by (simp add: demo_link_db_def link_inv_def db_wf_def empty_db_def below_def tokens_unique_def
      unique_col_def rows_where_def ustr_def upt_rec)

lemma rows_where_reissued:
  assumes "0 < next_token d"
  shows "rows_where (link_tokens (reissued u tok ex d)) (next_token (reissued u tok ex d)) P =
           rows_where (link_tokens d) (next_token d) (\<lambda>r. P r \<and> t_user r \<noteq> u) @
           (if P (new_token u tok ex) then [(next_token d, new_token u tok ex)] else [])"
  using assms by (simp add: reissued_def rows_where_insert rows_where_delete_where)

lemma rows_where_False [simp]: "rows_where t n (\<lambda>r. False) = []"
  by (simp add: rows_where_Nil_iff)

text \<open>
  C10. A fault-free \<open>generate_telegram_token\<close> for user \<open>u\<close> whose
  new token collides with no token of another user returns the token and its expiry thirty
  minutes ahead; afterwards the user has exactly one link token, the new unused one, the
  other users' tokens are untouched, and the code is sent to the user's chat if one is
  linked.
\<close>

theorem generate_telegram_token_reissues:
  assumes "db_wf (db s)" "faults_free F (stmt_no s) 3"
    and "rows_where (link_tokens (db s)) (next_token (db s)) (\<lambda>r. token r = tok \<and> t_user r \<noteq> u) = []"
    and "generate_telegram_token F u tok now s = (res, s')"
  shows "res = Inr (tok, now + token_lifetime) \<and>
         rows_where (link_tokens (db s')) (next_token (db s')) (\<lambda>r. t_user r = u) =
           [(next_token (db s), \<lparr>t_user = u, token = tok, expires_at = now + token_lifetime, is_used = False\<rparr>)] \<and>
         rows_where (link_tokens (db s')) (next_token (db s')) (\<lambda>r. t_user r \<noteq> u) =
           rows_where (link_tokens (db s)) (next_token (db s)) (\<lambda>r. t_user r \<noteq> u) \<and>
         sent s' = sent s @ tg_msgs (user_tg (db s) u) (Link_code tok)"
proof -
  have n: "0 < next_token (db s)" using assms(1) by (simp add: db_wf_def)
  have s': "res = Inr (tok, now + token_lifetime)" "db s' = reissued u tok (now + token_lifetime) (db s)"
    "sent s' = sent s @ tg_msgs (user_tg (db s) u) (Link_code tok)"
    using generate_telegram_token_ok [OF assms(2,3), of now] assms(4) by auto
  show ?thesis
    using s' by (simp add: rows_where_reissued [OF n] new_token_def)
qed

lemma demo_link_wf: "db_wf (db demo_link_sys)"
  using demo_link_inv by (simp add: link_inv_def demo_link_sys_def)

theorem generate_telegram_token_reissues_witness:
  "fst (generate_telegram_token no_faults 1 (ustr ''xyz'') 50 demo_link_sys) = Inr (ustr ''xyz'', 1850) \<and>
   rows_where (link_tokens (db (snd (generate_telegram_token no_faults 1 (ustr ''xyz'') 50 demo_link_sys))))
     (next_token (db (snd (generate_telegram_token no_faults 1 (ustr ''xyz'') 50 demo_link_sys)))) (\<lambda>r. t_user r = 1) =
     [(3, \<lparr>t_user = 1, token = ustr ''xyz'', expires_at = 1850, is_used = False\<rparr>)] \<and>
   sent (snd (generate_telegram_token no_faults 1 (ustr ''xyz'') 50 demo_link_sys)) = []"
proof -
  have h: "rows_where (link_tokens (db demo_link_sys)) (next_token (db demo_link_sys))
             (\<lambda>r. token r = ustr ''xyz'' \<and> t_user r \<noteq> 1) = []"
    by (simp add: demo_link_sys_def demo_link_db_def rows_where_def ustr_def upt_rec)
  from generate_telegram_token_reissues [OF demo_link_wf faults_free_no_faults h surjective_pairing]
  show ?thesis
    by (simp add: demo_link_sys_def demo_link_db_def token_lifetime_def user_tg_def tg_msgs_def)
qed

lemma revoked_after_reissue:
  assumes "link_inv d" "link_tokens d i = Some r" "t_user r = u" "token r \<noteq> tok"
  shows "rows_where (link_tokens (reissued u tok ex d)) (next_token (reissued u tok ex d))
           (valid_token now (token r)) = []"
proof -
  have n: "0 < next_token d" using assms(1) by (simp add: link_inv_def db_wf_def)
  have i: "0 < i" "i < next_token d"
    using assms(1,2) by (auto simp: link_inv_def db_wf_def below_def)
  have "rows_where (link_tokens d) (next_token d) (\<lambda>r'. valid_token now (token r) r' \<and> t_user r' \<noteq> u) = []"
    unfolding rows_where_Nil_iff
  proof (intro allI impI notI)
    fix j r' assume j: "0 < j" "j < next_token d" "link_tokens d j = Some r'"
      and v: "valid_token now (token r) r' \<and> t_user r' \<noteq> u"
    then have "j = i"
      using assms(1,2) i by (auto simp: link_inv_def tokens_unique_def valid_token_def intro: unique_colD)
    with j v assms(2,3) show False by simp
  qed
  with assms(4) show ?thesis
    by (simp add: rows_where_reissued [OF n] new_token_def valid_token_def)
qed

text \<open>
  C11. After a reissue by \<open>generate_telegram_token\<close>, every earlier token of the user is
  rejected by \<open>link_telegram\<close> with 400, even one that has not expired.
\<close>

theorem generate_telegram_token_revokes_old:
  assumes "link_inv (db s)" "faults_free F (stmt_no s) 3"
    and "rows_where (link_tokens (db s)) (next_token (db s)) (\<lambda>r. token r = tok \<and> t_user r \<noteq> u) = []"
    and "generate_telegram_token F u tok now s = (res, s')"
    and "link_tokens (db s) i = Some r" "t_user r = u" "token r \<noteq> tok" "token r \<noteq> []"
    and "t \<noteq> []" "\<not> F' (stmt_no s')"
  shows "link_telegram F' (Some (token r)) (Some t) now' s' = (Inl invalid_token, s'\<lparr>stmt_no := Suc (stmt_no s')\<rparr>)"
proof -
  have "db s' = reissued u tok (now + token_lifetime) (db s)"
    using generate_telegram_token_ok [OF assms(2,3), of now] assms(4) by auto
  with revoked_after_reissue [OF assms(1,5-7)]
  have "rows_where (link_tokens (db s')) (next_token (db s')) (valid_token now' (token r)) = []" by simp
  with assms(8-10) show ?thesis by (rule link_telegram_no_token)
qed

theorem generate_telegram_token_revokes_old_witness:
  "link_telegram no_faults (Some (ustr ''abc'')) (Some (ustr ''777'')) 60
     (snd (generate_telegram_token no_faults 1 (ustr ''xyz'') 50 demo_link_sys)) =
   (Inl invalid_token, (snd (generate_telegram_token no_faults 1 (ustr ''xyz'') 50 demo_link_sys))
      \<lparr>stmt_no := Suc (stmt_no (snd (generate_telegram_token no_faults 1 (ustr ''xyz'') 50 demo_link_sys)))\<rparr>)"
proof -
  have h: "rows_where (link_tokens (db demo_link_sys)) (next_token (db demo_link_sys))
             (\<lambda>r. token r = ustr ''xyz'' \<and> t_user r \<noteq> 1) = []"
    by (simp add: demo_link_sys_def demo_link_db_def rows_where_def ustr_def upt_rec)
  have i: "link_tokens (db demo_link_sys) 1 = Some \<lparr>t_user = 1, token = ustr ''abc'', expires_at = 2000, is_used = False\<rparr>"
    by (simp add: demo_link_sys_def demo_link_db_def)
  have l: "link_inv (db demo_link_sys)" using demo_link_inv by (simp add: demo_link_sys_def)
  show ?thesis
    using generate_telegram_token_revokes_old [OF l faults_free_no_faults h surjective_pairing i]
    by (simp add: ustr_def no_faults_def)
qed

lemma linked_next_token [simp]: "next_token (linked i r ur t d) = next_token d"
  by (simp add: linked_def)

text \<open>
  C12. Redeeming a valid token (unused, not expired) of an existing user with a non-empty
  chat id, without faults, answers with the user's e-mail, stores the chat id on that user
  and on no other, marks the token used and sends one confirmation to the chat.
\<close>

theorem link_telegram_links:
  assumes "link_inv (db s)" "link_tokens (db s) i = Some r" "valid_token now k r"
    and "users (db s) (t_user r) = Some ur" "k \<noteq> []" "t \<noteq> []"
    and "faults_free F (stmt_no s) 4"
    and "link_telegram F (Some k) (Some t) now s = (res, s')"
  shows "res = Inr (email ur) \<and> user_tg (db s') (t_user r) = Some t \<and>
         (\<forall>v. v \<noteq> t_user r \<longrightarrow> users (db s') v = users (db s) v) \<and>
         link_tokens (db s') i = Some (r\<lparr>is_used := True\<rparr>) \<and>
         sent s' = sent s @ [(t, Account_linked (email ur))]"
  using link_telegram_ok [OF assms(1-7)] assms(8)
  by (auto simp: linked_def user_tg_def)

lemma spent_after_link:
  assumes "link_inv d" "link_tokens d i = Some r" "valid_token now k r"
  shows "rows_where (link_tokens (linked i r ur t d)) (next_token (linked i r ur t d)) (valid_token now' k) = []"
  unfolding rows_where_Nil_iff
proof (intro allI impI notI)
  fix j r' assume j: "0 < j" "j < next_token (linked i r ur t d)"
    "link_tokens (linked i r ur t d) j = Some r'" and v: "valid_token now' k r'"
  show False
  proof (cases "j = i")
    case True
    with j v show False by (auto simp: linked_def valid_token_def)
  next
    case False
    with j have r': "link_tokens d j = Some r'" "0 < j" "j < next_token d" by (simp_all add: linked_def)
    have "0 < i" "i < next_token d"
      using assms(1,2) by (auto simp: link_inv_def db_wf_def below_def)
    with r' assms v have "j = i"
      by (auto simp: link_inv_def tokens_unique_def valid_token_def intro: unique_colD)
    with False show False ..
  qed
qed

text \<open>
  C13. A token that has been redeemed once is rejected with 400 on every later redemption,
  whatever the chat id and the time.
\<close>

theorem link_telegram_single_use:
  assumes "link_inv (db s)" "link_tokens (db s) i = Some r" "valid_token now k r"
    and "users (db s) (t_user r) = Some ur" "k \<noteq> []" "t \<noteq> []"
    and "faults_free F (stmt_no s) 4"
    and "link_telegram F (Some k) (Some t) now s = (res, s')"
    and "t' \<noteq> []" "\<not> F' (stmt_no s')"
  shows "link_telegram F' (Some k) (Some t') now' s' = (Inl invalid_token, s'\<lparr>stmt_no := Suc (stmt_no s')\<rparr>)"
proof -
  have "db s' = linked i r ur t (db s)"
    using link_telegram_ok [OF assms(1-7)] assms(8) by auto
  with spent_after_link [OF assms(1-3)]
  have "rows_where (link_tokens (db s')) (next_token (db s')) (valid_token now' k) = []" by simp
  with assms(5,9,10) show ?thesis by (rule link_telegram_no_token)
qed

definition demo_token :: token_row where
  "demo_token = \<lparr>t_user = 1, token = ustr ''abc'', expires_at = 2000, is_used = False\<rparr>"

definition demo_user_a :: user_row where
  "demo_user_a = \<lparr>username = ustr ''a'', email = ustr ''a@shop'', first_name = ustr ''A'',
                   last_name = ustr ''A'', password_hash = ustr ''h'', theme = ustr ''light'', telegram_id = None, u_created_at = 0\<rparr>"

lemma demo_link_facts:
  "link_inv (db demo_link_sys)" "link_tokens (db demo_link_sys) 1 = Some demo_token"
  "valid_token 60 (ustr ''abc'') demo_token"
  "users (db demo_link_sys) (t_user demo_token) = Some demo_user_a"
  using demo_link_inv
  by (simp_all add: demo_link_sys_def demo_link_db_def valid_token_def demo_token_def demo_user_a_def)

theorem link_telegram_links_witness:
  "fst (link_telegram no_faults (Some (ustr ''abc'')) (Some (ustr ''777'')) 60 demo_link_sys) = Inr (ustr ''a@shop'') \<and>
   user_tg (db (snd (link_telegram no_faults (Some (ustr ''abc'')) (Some (ustr ''777'')) 60 demo_link_sys))) 1 =
     Some (ustr ''777'') \<and>
   sent (snd (link_telegram no_faults (Some (ustr ''abc'')) (Some (ustr ''777'')) 60 demo_link_sys)) =
     [(ustr ''777'', Account_linked (ustr ''a@shop''))]"
  using link_telegram_links [OF demo_link_facts _ _ faults_free_no_faults surjective_pairing]
  by (simp add: ustr_def demo_link_sys_def demo_token_def demo_user_a_def)

theorem link_telegram_single_use_witness:
  "link_telegram no_faults (Some (ustr ''abc'')) (Some (ustr ''888'')) 61
     (snd (link_telegram no_faults (Some (ustr ''abc'')) (Some (ustr ''777'')) 60 demo_link_sys)) =
   (Inl invalid_token, (snd (link_telegram no_faults (Some (ustr ''abc'')) (Some (ustr ''777'')) 60 demo_link_sys))
      \<lparr>stmt_no := Suc (stmt_no (snd (link_telegram no_faults (Some (ustr ''abc'')) (Some (ustr ''777'')) 60 demo_link_sys)))\<rparr>)"
  using link_telegram_single_use [OF demo_link_facts _ _ faults_free_no_faults surjective_pairing]
  by (simp add: ustr_def no_faults_def)

text \<open>
  A token every row of which is used or expired (or that has no row at all) is
  rejected with the same 400 \<open>Invalid or expired token\<close>; the store and the
  outbox are unchanged.
\<close>

theorem link_telegram_rejects_unusable:
  assumes "k \<noteq> []" "t \<noteq> []" "\<not> F (stmt_no s)"
    and "\<forall>j r. link_tokens (db s) j = Some r \<longrightarrow> token r = k \<longrightarrow> is_used r \<or> expires_at r \<le> now"
  shows "link_telegram F (Some k) (Some t) now s = (Inl invalid_token, s\<lparr>stmt_no := Suc (stmt_no s)\<rparr>)"
proof -
  have "rows_where (link_tokens (db s)) (next_token (db s)) (valid_token now k) = []"
    using assms(4) by (fastforce simp: rows_where_Nil_iff valid_token_def)
  with assms(1-3) show ?thesis by (rule link_telegram_no_token)
qed

theorem link_telegram_rejects_unusable_witness:
  "link_telegram no_faults (Some (ustr ''old'')) (Some (ustr ''777'')) 150 demo_link_sys =
     (Inl invalid_token, demo_link_sys\<lparr>stmt_no := 1\<rparr>)"
proof -
  have h: "\<forall>j r. link_tokens (db demo_link_sys) j = Some r \<longrightarrow> token r = ustr ''old'' \<longrightarrow>
             is_used r \<or> expires_at r \<le> 150"
    by (simp add: demo_link_sys_def demo_link_db_def ustr_def)
  show ?thesis
    using link_telegram_rejects_unusable [OF _ _ _ h]
    by (simp add: ustr_def no_faults_def demo_link_sys_def)
qed

text \<open>
  A missing or empty token or chat id is answered 400 before any statement runs.
\<close>

theorem link_telegram_requires_args:
  assumes "\<not> truthy_str tok \<or> \<not> truthy_str tg"
  shows "link_telegram F tok tg now s = (Inl link_args_required, s)"
  using assms by (auto simp: link_telegram_def truthy_str_def eraise_apply split: option.splits)

theorem link_telegram_requires_args_witness:
  "link_telegram no_faults (Some (ustr ''abc'')) (Some []) 60 demo_link_sys = (Inl link_args_required, demo_link_sys)"
  using link_telegram_requires_args [of "Some (ustr ''abc'')" "Some []"] by simp

text \<open>
  Both linking handlers keep the store well-formed and the token column unique, on
  every path, errors included.
\<close>

theorem linking_keeps_link_inv:
  "keeps (\<lambda>s. link_inv (db s)) (generate_telegram_token F u tok now) \<and>
   keeps (\<lambda>s. link_inv (db s)) (link_telegram F tok' tg now')"
proof
  show "keeps (\<lambda>s. link_inv (db s)) (generate_telegram_token F u tok now)"
    unfolding generate_telegram_token_def
    by (intro keeps_ebind keeps_execute_preserves preserves_link_inv_del_tokens_of
        preserves_link_inv_ins_token preserves_read_only read_only_selects keeps_notify_if keeps_eret)
  show "keeps (\<lambda>s. link_inv (db s)) (link_telegram F tok' tg now')"
    unfolding link_telegram_def
    by (auto split: option.split prod.split
        intro!: keeps_ebind keeps_execute_preserves preserves_link_inv_upd_user_tg
        preserves_link_inv_mark_token_used preserves_read_only read_only_selects keeps_send
        keeps_eraise keeps_eret)
qed

theorem linking_keeps_link_inv_witness:
  "link_inv (db (snd (generate_telegram_token no_faults 1 (ustr ''xyz'') 50 demo_link_sys))) \<and>
   link_inv (db (snd (link_telegram no_faults (Some (ustr ''abc'')) (Some (ustr ''777'')) 60 demo_link_sys)))"
proof -
  note k = linking_keeps_link_inv [of no_faults 1 "ustr ''xyz''" 50 "Some (ustr ''abc'')" "Some (ustr ''777'')" 60]
  have l: "link_inv (db demo_link_sys)" using demo_link_inv by (simp add: demo_link_sys_def)
  from k l show ?thesis by (simp add: keeps_def)
qed

text \<open>
  C17. When the new token equals a token of another user, the INSERT violates the UNIQUE
  constraint: the request fails with 500 after the DELETE has committed, so the user is
  left with no link token at all.
\<close>

theorem generate_telegram_token_collision:
  assumes "db_wf (db s)" "faults_free F (stmt_no s) 2"
    and "link_tokens (db s) j = Some r" "token r = tok" "t_user r \<noteq> u"
    and "generate_telegram_token F u tok now s = (res, s')"
  shows "res = Inl internal_error \<and>
         rows_where (link_tokens (db s')) (next_token (db s')) (\<lambda>r. t_user r = u) = [] \<and>
         sent s' = sent s"
proof -
  have f: "\<not> F (stmt_no s)" "\<not> F (Suc (stmt_no s))"
    using assms(2) by (simp_all add: faults_free_Suc numeral_2_eq_2)
  have j: "0 < j" "j < next_token (db s)"
    using assms(1,3) by (auto simp: db_wf_def below_def)
  let ?d1 = "(db s)\<lparr>link_tokens := delete_where (\<lambda>r. t_user r = u) (link_tokens (db s))\<rparr>"
  have "rows_where (link_tokens ?d1) (next_token ?d1) (\<lambda>r'. token r' = tok) \<noteq> []"
    using j assms(3-5) by (auto simp: rows_where_Nil_iff)
  then have q: "ins_token u tok (now + token_lifetime) ?d1 = None"
    by (simp add: ins_token_def)
  have "generate_telegram_token F u tok now s =
          (Inl internal_error, s\<lparr>db := ?d1, stmt_no := Suc (Suc (stmt_no s))\<rparr>)"
    using f by (simp add: generate_telegram_token_def exc_simps del_tokens_of_apply q)
  with assms(6) show ?thesis
    by (auto simp: rows_where_delete_where)
qed

theorem generate_telegram_token_collision_witness:
  "fst (generate_telegram_token no_faults 2 (ustr ''abc'') 50 demo_link_sys) = Inl internal_error \<and>
   rows_where (link_tokens (db (snd (generate_telegram_token no_faults 2 (ustr ''abc'') 50 demo_link_sys))))
     (next_token (db (snd (generate_telegram_token no_faults 2 (ustr ''abc'') 50 demo_link_sys)))) (\<lambda>r. t_user r = 2) = []"
proof -
  have i: "link_tokens (db demo_link_sys) 1 = Some demo_token"
    using demo_link_facts(2) .
  show ?thesis
    using generate_telegram_token_collision [OF demo_link_wf faults_free_no_faults i _ _ surjective_pairing]
    by (simp add: demo_token_def)
qed

end
