(* ===== verification/Telegram.thy ===== *)
theory Telegram
  imports Linking
begin

text \<open>
  The endpoints the bot calls, \<open>src/back/app.py\<close>: \<open>create_telegram_order\<close>
  (POST /api/telegram/create-order), \<open>get_telegram_products\<close>
  (GET /api/telegram/products), \<open>get_telegram_user_info\<close> (GET /api/telegram/user-info)
  and \<open>get_telegram_orders\<close> (GET /api/telegram/orders). None of them authenticates: the
  caller names the user by chat id, and the first user in id order with that chat id is
  taken. \<open>create_telegram_order\<close> runs in a \<open>try\<close> whose \<open>except Exception\<close> answers
  500 with the exception's text; its body is modelled as a computation whose raised value
  is an exception and whose returned value is the response, an error or the order.
\<close>

section \<open>Requests, responses and errors\<close>

text \<open>One element of \<open>data['items']\<close>: \<open>None\<close> for a missing key.\<close>

record tg_item_req =
  ti_name :: "ustr option"
  ti_qty :: "int option"
  ti_price :: "money option"
  ti_desc :: "ustr option"

text \<open>
  The JSON body: \<open>telegram_id\<close>, \<open>items\<close> (\<open>None\<close> when missing or not a list) and
  \<open>total_amount\<close>.
\<close>

record tg_order_req =
  tr_tg :: "tgid option"
  tr_items :: "tg_item_req list option"
  tr_total :: "money option"

record tg_order_view =
  tv_id :: oid
  tv_total :: money
  tv_status :: ustr
  tv_created_at :: time
  tv_items :: "(ustr \<times> int \<times> money \<times> money) list"

definition tg_args_required :: api_error where
  "tg_args_required = BadRequest (ustr ''telegram_id and items array required'')"

definition tg_id_required :: api_error where
  "tg_id_required = BadRequest (ustr ''telegram_id required'')"

text \<open>\<open>f'Internal server error: {str(e)}'\<close>; the exception's text is not modelled.\<close>

definition tg_server_error :: api_error where
  "tg_server_error = ServerError (ustr ''Internal server error: '')"

text \<open>The default description, the Russian for \<open>Goods from Telegram order #<id>\<close>, as code points.\<close>

definition tg_default_desc :: "oid \<Rightarrow> ustr" where
  "tg_default_desc k =
     [1058, 1086, 1074, 1072, 1088, 32, 1080, 1079, 32, 1079, 1072, 1082, 1072, 1079, 1072, 32]
     @ ustr ''Telegram #'' @ show_nat k"

text \<open>\<open>try: ... except Exception as e: return 500\<close>.\<close>

definition tg_try :: "('s, api_error + 'a) exc \<Rightarrow> ('s, 'a) exc" where
  "tg_try m s = (case m s of
                   (Inl _, s') \<Rightarrow> (Inl tg_server_error, s')
                 | (Inr (Inl e), s') \<Rightarrow> (Inl e, s')
                 | (Inr (Inr a), s') \<Rightarrow> (Inr a, s'))"

section \<open>create_telegram_order\<close>

text \<open>
  One turn of the item loop: a product row owned by the buyer, then the order item.
  A missing \<open>product_name\<close> or \<open>price\<close> raises \<open>KeyError\<close> before the first INSERT,
  a missing \<open>quantity\<close> after it.
\<close>

definition tg_insert_item :: "faults \<Rightarrow> time \<Rightarrow> uid \<Rightarrow> oid \<Rightarrow> tg_item_req \<Rightarrow> (ustr \<times> int \<times> money) act" where
  "tg_insert_item F now u k it =
     (case (ti_name it, ti_price it) of
        (Some n, Some p) \<Rightarrow>
          ebind (execute_query F (ins_product n p (case ti_desc it of Some de \<Rightarrow> de | None \<Rightarrow> tg_default_desc k)
                                    u now)) (\<lambda>pid.
          case ti_qty it of
            None \<Rightarrow> eraise internal_error
          | Some q \<Rightarrow> ebind (execute_query F (ins_item k pid q p)) (\<lambda>_. eret (n, q, p)))
      | _ \<Rightarrow> eraise internal_error)"

text \<open>
  After the loop: the order and its joined items are read back, the buyer is notified and
  the response is built from the request's items and \<open>total_amount\<close>.
\<close>

definition tg_finish :: "faults \<Rightarrow> oid \<Rightarrow> user_row \<Rightarrow> money \<Rightarrow> (ustr \<times> int \<times> money) list \<Rightarrow>
                           (api_error + tg_order_view) act" where
  "tg_finish F k ur tot ls =
     ebind (execute_query F (sel_order k)) (\<lambda>od.
     case od of
       None \<Rightarrow> eraise internal_error
     | Some orow \<Rightarrow>
         ebind (execute_query F (sel_items_named k)) (\<lambda>_.
         ebind (notify_if (telegram_id ur) (Tg_order_created k ls tot)) (\<lambda>_.
         eret (Inr \<lparr>tv_id = k, tv_total = tot, tv_status = ustr ''new'', tv_created_at = o_created_at orow,
                    tv_items = map (\<lambda>(n, q, p). (n, q, p, of_int q * p)) ls\<rparr>))))"

text \<open>The inserts: the order row with the request's total, then the item loop.\<close>

definition tg_place_order :: "faults \<Rightarrow> time \<Rightarrow> uid \<Rightarrow> user_row \<Rightarrow> money \<Rightarrow> tg_item_req list \<Rightarrow>
                                (api_error + tg_order_view) act" where
  "tg_place_order F now u ur tot its =
     ebind (execute_query F (ins_order u tot (ustr ''new'') now)) (\<lambda>k.
     ebind (emap (tg_insert_item F now u k) its) (\<lambda>ls.
     tg_finish F k ur tot ls))"

definition tg_order_body :: "faults \<Rightarrow> time \<Rightarrow> tg_order_req \<Rightarrow> (api_error + tg_order_view) act" where
  "tg_order_body F now req =
     (case (tr_tg req, tr_items req) of
        (Some t, Some its) \<Rightarrow>
          if t = [] \<or> its = [] then eret (Inl tg_args_required)
          else ebind (execute_query F (sel_user_by_tg t)) (\<lambda>r.
            case r of
              None \<Rightarrow> eret (Inl user_not_found)
            | Some (u, ur) \<Rightarrow>
                tg_place_order F now u ur (case tr_total req of Some x \<Rightarrow> x | None \<Rightarrow> 0) its)
      | _ \<Rightarrow> eret (Inl tg_args_required))"

definition create_telegram_order :: "faults \<Rightarrow> time \<Rightarrow> tg_order_req \<Rightarrow> tg_order_view act" where
  "create_telegram_order F now req = tg_try (tg_order_body F now req)"

section \<open>The read endpoints\<close>

text \<open>An order as these endpoints list it, with its items joined to the product names.\<close>

record order_json =
  oj_id :: oid
  oj_row :: order_row
  oj_items :: "(ustr \<times> int \<times> money \<times> money) list"

definition items_json :: "(item_row \<times> ustr) list \<Rightarrow> (ustr \<times> int \<times> money \<times> money) list" where
  "items_json its = map (\<lambda>(r, n). (n, oi_qty r, oi_price r, of_int (oi_qty r) * oi_price r)) its"

definition with_items :: "faults \<Rightarrow> (oid \<times> order_row) \<Rightarrow> order_json act" where
  "with_items F o' =
     ebind (execute_query F (sel_items_named (fst o'))) (\<lambda>its.
     eret \<lparr>oj_id = fst o', oj_row = snd o', oj_items = items_json its\<rparr>)"

text \<open>The user a chat id names, with the error answers the three endpoints share.\<close>

definition tg_user :: "faults \<Rightarrow> tgid option \<Rightarrow> (uid \<times> user_row) act" where
  "tg_user F tg =
     (if \<not> truthy_str tg then eraise tg_id_required
      else ebind (execute_query F (sel_user_by_tg (the tg))) (\<lambda>r.
             case r of None \<Rightarrow> eraise user_not_found | Some x \<Rightarrow> eret x))"

definition get_telegram_products :: "faults \<Rightarrow> tgid option \<Rightarrow> (pid \<times> product_row) list act" where
  "get_telegram_products F tg =
     ebind (tg_user F tg) (\<lambda>(u, _). execute_query F (sel_products_of u))"

record user_info =
  ui_email :: ustr
  ui_first_name :: ustr
  ui_last_name :: ustr
  ui_total_all :: money
  ui_orders :: "order_json list"

definition get_telegram_user_info :: "faults \<Rightarrow> tgid option \<Rightarrow> user_info act" where
  "get_telegram_user_info F tg =
     ebind (tg_user F tg) (\<lambda>(u, ur).
     ebind (execute_query F (sel_orders_by_id u)) (\<lambda>all.
     ebind (execute_query F (sel_orders_recent 3 u)) (\<lambda>os.
     ebind (emap (with_items F) os) (\<lambda>ol.
     eret \<lparr>ui_email = email ur, ui_first_name = first_name ur, ui_last_name = last_name ur,
           ui_total_all = (\<Sum>(k, r)\<leftarrow>all. total_amount r), ui_orders = ol\<rparr>))))"

definition get_telegram_orders :: "faults \<Rightarrow> tgid option \<Rightarrow> order_json list act" where
  "get_telegram_orders F tg =
     ebind (tg_user F tg) (\<lambda>(u, _).
     ebind (execute_query F (sel_orders_of u)) (\<lambda>os.
     emap (with_items F) os))"

section \<open>Evaluation of create_telegram_order\<close>

definition tg_item_ok :: "tg_item_req \<Rightarrow> bool" where
  "tg_item_ok it \<longleftrightarrow> ti_name it \<noteq> None \<and> ti_price it \<noteq> None \<and> ti_qty it \<noteq> None"

definition tg_line :: "tg_item_req \<Rightarrow> ustr \<times> int \<times> money" where
  "tg_line it = (the (ti_name it), the (ti_qty it), the (ti_price it))"

definition tg_desc :: "oid \<Rightarrow> tg_item_req \<Rightarrow> ustr" where
  "tg_desc k it = (case ti_desc it of Some de \<Rightarrow> de | None \<Rightarrow> tg_default_desc k)"

text \<open>The store after the item loop: a product and an order item per element.\<close>

fun tg_items_db :: "time \<Rightarrow> uid \<Rightarrow> oid \<Rightarrow> tg_item_req list \<Rightarrow> db \<Rightarrow> db" where
  "tg_items_db now u k [] d = d"
| "tg_items_db now u k (it # its) d =
     tg_items_db now u k its
       (add_item k (next_product d) (the (ti_qty it)) (the (ti_price it))
          (add_product (the (ti_name it)) (the (ti_price it)) (tg_desc k it) u now d))"

lemma tg_insert_item_ok:
  assumes "tg_item_ok it" "\<not> F (stmt_no s)" "\<not> F (Suc (stmt_no s))"
  shows "tg_insert_item F now u k it s =
           (Inr (tg_line it),
            s\<lparr>db := add_item k (next_product (db s)) (the (ti_qty it)) (the (ti_price it))
                      (add_product (the (ti_name it)) (the (ti_price it)) (tg_desc k it) u now (db s)),
              stmt_no := Suc (Suc (stmt_no s))\<rparr>)"
proof -
  obtain n p q where it: "ti_name it = Some n" "ti_price it = Some p" "ti_qty it = Some q"
    using assms(1) by (auto simp: tg_item_ok_def)
  show ?thesis
    using assms(2,3) it
    by (simp add: tg_insert_item_def exc_simps ins_product_def ins_item_def tg_line_def tg_desc_def)
qed

lemma tg_items_loop:
  assumes "list_all tg_item_ok its" "faults_free F (stmt_no s) (2 * length its)"
  shows "emap (tg_insert_item F now u k) its s =
           (Inr (map tg_line its),
            s\<lparr>db := tg_items_db now u k its (db s), stmt_no := stmt_no s + 2 * length its\<rparr>)"
  using assms
proof (induction its arbitrary: s)
  case Nil then show ?case by (simp add: exc_simps)
next
  case (Cons it its)
  have f: "\<not> F (stmt_no s)" "\<not> F (Suc (stmt_no s))"
    "faults_free F (Suc (Suc (stmt_no s))) (2 * length its)"
    using Cons.prems(2) by (simp_all add: faults_free_Suc)
  have ok: "tg_item_ok it" "list_all tg_item_ok its" using Cons.prems(1) by simp_all
  note step = tg_insert_item_ok [OF ok(1) f(1,2), of now u k]
  let ?s1 = "s\<lparr>db := add_item k (next_product (db s)) (the (ti_qty it)) (the (ti_price it))
                      (add_product (the (ti_name it)) (the (ti_price it)) (tg_desc k it) u now (db s)),
              stmt_no := Suc (Suc (stmt_no s))\<rparr>"
  have ih: "emap (tg_insert_item F now u k) its ?s1 =
              (Inr (map tg_line its), ?s1\<lparr>db := tg_items_db now u k its (db ?s1),
                                          stmt_no := stmt_no ?s1 + 2 * length its\<rparr>)"
    using Cons.IH [OF ok(2)] f(3) by simp
  show ?case
    by (simp add: exc_simps step ih)
qed

lemma tg_items_db_frame:
  "orders (tg_items_db now u k its d) = orders d" "users (tg_items_db now u k its d) = users d"
  "next_order (tg_items_db now u k its d) = next_order d"
  by (induction its arbitrary: d) simp_all

lemma tg_items_db_items:
  "0 < next_item d \<Longrightarrow>
   map (\<lambda>r. (oi_qty r, oi_price r)) (items_of (tg_items_db now u k its d) k) =
   map (\<lambda>r. (oi_qty r, oi_price r)) (items_of d k) @ map (\<lambda>it. (the (ti_qty it), the (ti_price it))) its"
  by (induction its arbitrary: d) (simp_all add: items_of_add_item items_of_add_product)

lemma tg_items_db_wf: "db_wf d \<Longrightarrow> k < next_order d \<Longrightarrow> db_wf (tg_items_db now u k its d)"
  by (induction its arbitrary: d) (simp_all add: add_item_wf add_product_wf)

lemma tg_finish_ok:
  assumes "\<not> F (stmt_no s)" "\<not> F (Suc (stmt_no s))" "orders (db s) k = Some orow"
    and "telegram_id ur = Some t" "t \<noteq> []"
  shows "tg_finish F k ur tot ls s =
           (Inr (Inr \<lparr>tv_id = k, tv_total = tot, tv_status = ustr ''new'', tv_created_at = o_created_at orow,
                      tv_items = map (\<lambda>(n, q, p). (n, q, p, of_int q * p)) ls\<rparr>),
            s\<lparr>sent := sent s @ [(t, Tg_order_created k ls tot)], stmt_no := Suc (Suc (stmt_no s))\<rparr>)"
  using assms
  by (simp add: tg_finish_def exc_simps sel_order_def sel_items_named_def tg_msgs_def)

lemma tg_place_order_ok:
  assumes ff: "faults_free F (stmt_no s) (Suc (2 * length its + 2))"
    and ok: "list_all tg_item_ok its" and tg: "telegram_id ur = Some t" "t \<noteq> []"
  shows "tg_place_order F now u ur tot its s =
           (Inr (Inr \<lparr>tv_id = next_order (db s), tv_total = tot, tv_status = ustr ''new'', tv_created_at = now,
                      tv_items = map (\<lambda>(n, q, p). (n, q, p, of_int q * p)) (map tg_line its)\<rparr>),
            s\<lparr>db := tg_items_db now u (next_order (db s)) its (add_order u tot (ustr ''new'') now (db s)),
              sent := sent s @ [(t, Tg_order_created (next_order (db s)) (map tg_line its) tot)],
              stmt_no := Suc (stmt_no s + 2 * length its + 2)\<rparr>)"
proof -
  let ?k = "next_order (db s)"
  let ?d2 = "add_order u tot (ustr ''new'') now (db s)"
  let ?d3 = "tg_items_db now u ?k its ?d2"
  let ?s2 = "s\<lparr>db := ?d2, stmt_no := Suc (stmt_no s)\<rparr>"
  let ?s3 = "?s2\<lparr>db := ?d3, stmt_no := Suc (stmt_no s) + 2 * length its\<rparr>"
  have f: "\<not> F (stmt_no s)" "faults_free F (Suc (stmt_no s)) (2 * length its + 2)"
    using ff by (simp_all add: faults_free_Suc)
  then have f2: "faults_free F (Suc (stmt_no s)) (2 * length its)"
    "faults_free F (Suc (stmt_no s) + 2 * length its) 2"
    by (simp_all only: faults_free_add)
  then have f3: "\<not> F (Suc (stmt_no s) + 2 * length its)" "\<not> F (Suc (Suc (stmt_no s) + 2 * length its))"
    by (simp_all add: faults_free_Suc numeral_2_eq_2)
  have b2: "execute_query F (ins_order u tot (ustr ''new'') now) s = (Inr ?k, ?s2)"
    using f(1) by (simp add: execute_query_def ins_order_def)
  have loop: "emap (tg_insert_item F now u ?k) its ?s2 = (Inr (map tg_line its), ?s3)"
    using tg_items_loop [OF ok, of F ?s2 now u ?k] f2(1) by simp
  have o3: "orders (db ?s3) ?k = Some \<lparr>o_user = u, total_amount = tot, o_status = ustr ''new'', o_created_at = now\<rparr>"
    by (simp add: tg_items_db_frame add_order_def)
  have fin: "tg_finish F ?k ur tot (map tg_line its) ?s3 =
               (Inr (Inr \<lparr>tv_id = ?k, tv_total = tot, tv_status = ustr ''new'', tv_created_at = now,
                          tv_items = map (\<lambda>(n, q, p). (n, q, p, of_int q * p)) (map tg_line its)\<rparr>),
                ?s3\<lparr>sent := sent ?s3 @ [(t, Tg_order_created ?k (map tg_line its) tot)],
                     stmt_no := Suc (Suc (stmt_no ?s3))\<rparr>)"
    using tg_finish_ok [OF _ _ o3 tg, of F tot "map tg_line its"] f3 by simp
  show ?thesis
    unfolding tg_place_order_def using fin
    by (simp add: ebind_Inr [where m = "execute_query F (ins_order u tot (ustr ''new'') now)" and s = s, OF b2]
        ebind_Inr [where m = "emap (tg_insert_item F now u ?k) its" and s = ?s2, OF loop])
qed

lemma tg_order_body_ok:
  assumes "faults_free F (stmt_no s) (2 * length its + 4)"
    and lookup: "rows_where (users (db s)) (next_user (db s)) (\<lambda>r. telegram_id r = Some t) = (u, ur) # rest"
    and ne: "t \<noteq> []" "its \<noteq> []" and ok: "list_all tg_item_ok its"
  shows "tg_order_body F now \<lparr>tr_tg = Some t, tr_items = Some its, tr_total = tot\<rparr> s =
           tg_place_order F now u ur (case tot of Some x \<Rightarrow> x | None \<Rightarrow> 0) its (s\<lparr>stmt_no := Suc (stmt_no s)\<rparr>)"
proof -
  have f: "\<not> F (stmt_no s)" using faults_freeD [OF assms(1)] by simp
  have b1: "execute_query F (sel_user_by_tg t) s = (Inr (Some (u, ur)), s\<lparr>stmt_no := Suc (stmt_no s)\<rparr>)"
    using f by (simp add: execute_query_def sel_user_by_tg_def lookup)
  show ?thesis
    using ne by (simp add: tg_order_body_def ebind_Inr [where m = "execute_query F (sel_user_by_tg t)" and s = s, OF b1])
qed

lemma tg_lookup_tg:
  "rows_where (users d) (next_user d) (\<lambda>r. telegram_id r = Some t) = (u, ur) # rest \<Longrightarrow> telegram_id ur = Some t"
proof -
  assume h: "rows_where (users d) (next_user d) (\<lambda>r. telegram_id r = Some t) = (u, ur) # rest"
  have "(u, ur) \<in> set (rows_where (users d) (next_user d) (\<lambda>r. telegram_id r = Some t))"
    unfolding h by simp
  then show ?thesis by (simp add: set_rows_where)
qed

lemma create_telegram_order_ok:
  assumes ff: "faults_free F (stmt_no s) (2 * length its + 4)"
    and lookup: "rows_where (users (db s)) (next_user (db s)) (\<lambda>r. telegram_id r = Some t) = (u, ur) # rest"
    and ne: "t \<noteq> []" "its \<noteq> []" and ok: "list_all tg_item_ok its"
  shows "create_telegram_order F now \<lparr>tr_tg = Some t, tr_items = Some its, tr_total = Some tot\<rparr> s =
     (Inr \<lparr>tv_id = next_order (db s), tv_total = tot, tv_status = ustr ''new'', tv_created_at = now,
           tv_items = map (\<lambda>(n, q, p). (n, q, p, of_int q * p)) (map tg_line its)\<rparr>,
      s\<lparr>db := tg_items_db now u (next_order (db s)) its (add_order u tot (ustr ''new'') now (db s)),
        sent := sent s @ [(t, Tg_order_created (next_order (db s)) (map tg_line its) tot)],
        stmt_no := Suc (Suc (stmt_no s) + 2 * length its + 2)\<rparr>)"
proof -
  have ff1: "faults_free F (Suc (stmt_no s)) (Suc (2 * length its + 2))"
    by (rule faults_free_mono [OF ff]) simp_all
  then have ff2: "faults_free F (stmt_no (s\<lparr>stmt_no := Suc (stmt_no s)\<rparr>)) (Suc (2 * length its + 2))"
    by simp
  show ?thesis
    using tg_order_body_ok [OF ff lookup ne ok, of now "Some tot"]
      tg_place_order_ok [OF ff2 ok tg_lookup_tg [OF lookup] ne(1), of now u tot]
    by (simp add: create_telegram_order_def tg_try_def)
qed

lemma tg_items_db_next_product:
  "next_product (tg_items_db now u k its d) = next_product d + length its"
  by (induction its arbitrary: d) simp_all

lemma tg_items_db_old_products:
  "p < next_product d \<Longrightarrow> products (tg_items_db now u k its d) p = products d p"
  by (induction its arbitrary: d) (simp_all add: add_product_def)

lemma tg_items_db_new_products:
  "i < length its \<Longrightarrow> products (tg_items_db now u k its d) (next_product d + i) =
     Some \<lparr>p_name = the (ti_name (its ! i)), p_price = the (ti_price (its ! i)),
           p_description = tg_desc k (its ! i), created_by = u, p_created_at = now\<rparr>"
proof (induction its arbitrary: d i)
  case Nil
  then show ?case by simp
next
  case (Cons it its)
  let ?d' = "add_item k (next_product d) (the (ti_qty it)) (the (ti_price it))
               (add_product (the (ti_name it)) (the (ti_price it)) (tg_desc k it) u now d)"
  have n: "next_product ?d' = Suc (next_product d)" by simp
  show ?case
  proof (cases i)
    case 0
    have "products (tg_items_db now u k its ?d') (next_product d) = products ?d' (next_product d)"
      by (rule tg_items_db_old_products) (simp add: n)
    with 0 show ?thesis by (simp add: add_product_def)
  next
    case (Suc j)
    with Cons.prems have "j < length its" by simp
    from Cons.IH [OF this, of ?d'] Suc show ?thesis by (simp add: n)
  qed
qed

lemma tg_items_db_item_products:
  "0 < next_item d \<Longrightarrow>
   map oi_product (items_of (tg_items_db now u k its d) k) =
     map oi_product (items_of d k) @ [next_product d..<next_product d + length its]"
proof (induction its arbitrary: d)
  case Nil
  then show ?case by simp
next
  case (Cons it its)
  have u: "[next_product d..<Suc (next_product d + length its)] =
             next_product d # [Suc (next_product d)..<Suc (next_product d + length its)]"
    by (rule upt_conv_Cons) simp
  from Cons show ?case by (simp add: items_of_add_item items_of_add_product u del: upt_Suc)
qed

text \<open>
  C27. A fault-free create_telegram_order for a linked chat with complete items stores an
  order of the chat's user whose total is the total_amount of the request, whatever the
  items add up to; inserts one new product per item, owned by the chat's user, with the
  item's name and price, at the next product ids, leaving every earlier product as it
  was; stores one order item per request item with its quantity and price, pointing at
  that new product; answers with that total and the items with their line totals, and
  sends one confirmation to the chat.
\<close>

theorem create_telegram_order_trusts_total:
  assumes wf: "db_wf (db s)" and ff: "faults_free F (stmt_no s) (2 * length its + 4)"
    and lookup: "rows_where (users (db s)) (next_user (db s)) (\<lambda>r. telegram_id r = Some t) = (u, ur) # rest"
    and ne: "t \<noteq> []" "its \<noteq> []" and ok: "list_all tg_item_ok its"
    and run: "create_telegram_order F now \<lparr>tr_tg = Some t, tr_items = Some its, tr_total = Some tot\<rparr> s = (res, s')"
  shows "res = Inr \<lparr>tv_id = next_order (db s), tv_total = tot, tv_status = ustr ''new'', tv_created_at = now,
                   tv_items = map (\<lambda>it. (the (ti_name it), the (ti_qty it), the (ti_price it),
                                          of_int (the (ti_qty it)) * the (ti_price it))) its\<rparr> \<and>
         orders (db s') (next_order (db s)) =
           Some \<lparr>o_user = u, total_amount = tot, o_status = ustr ''new'', o_created_at = now\<rparr> \<and>
         map (\<lambda>r. (oi_qty r, oi_price r)) (items_of (db s') (next_order (db s))) =
           map (\<lambda>it. (the (ti_qty it), the (ti_price it))) its \<and>
         map oi_product (items_of (db s') (next_order (db s))) =
           [next_product (db s)..<next_product (db s) + length its] \<and>
         next_product (db s') = next_product (db s) + length its \<and>
         (\<forall>p < next_product (db s). products (db s') p = products (db s) p) \<and>
         (\<forall>i < length its. products (db s') (next_product (db s) + i) =
            Some \<lparr>p_name = the (ti_name (its ! i)), p_price = the (ti_price (its ! i)),
                  p_description = tg_desc (next_order (db s)) (its ! i), created_by = u,
                  p_created_at = now\<rparr>) \<and>
         sent s' = sent s @ [(t, Tg_order_created (next_order (db s)) (map tg_line its) tot)]"
proof -
  note body = create_telegram_order_ok [OF ff lookup ne ok, of now tot]
  have items: "map (\<lambda>r. (oi_qty r, oi_price r))
                 (items_of (tg_items_db now u (next_order (db s)) its (add_order u tot (ustr ''new'') now (db s)))
                   (next_order (db s))) =
               map (\<lambda>it. (the (ti_qty it), the (ti_price it))) its"
    using wf tg_items_db_items [of "add_order u tot (ustr ''new'') now (db s)" now u "next_order (db s)" its]
    by (simp add: db_wf_def items_of_add_order items_of_fresh [OF wf])
  let ?d2 = "add_order u tot (ustr ''new'') now (db s)"
  let ?d3 = "tg_items_db now u (next_order (db s)) its ?d2"
  have pids: "map oi_product (items_of ?d3 (next_order (db s))) =
                [next_product (db s)..<next_product (db s) + length its]"
  proof -
    have "0 < next_item ?d2" using wf by (simp add: db_wf_def)
    moreover have "items_of ?d2 (next_order (db s)) = []" by (simp add: items_of_add_order items_of_fresh [OF wf])
    moreover have "next_product ?d2 = next_product (db s)" by (simp add: add_order_def)
    ultimately show ?thesis using tg_items_db_item_products [of ?d2 now u "next_order (db s)" its] by simp
  qed
  have np: "next_product ?d3 = next_product (db s) + length its"
    by (simp add: tg_items_db_next_product add_order_def)
  have old: "\<forall>p < next_product (db s). products ?d3 p = products (db s) p"
    by (simp add: tg_items_db_old_products add_order_def)
  have new: "\<forall>i < length its. products ?d3 (next_product (db s) + i) =
            Some \<lparr>p_name = the (ti_name (its ! i)), p_price = the (ti_price (its ! i)),
                  p_description = tg_desc (next_order (db s)) (its ! i), created_by = u,
                  p_created_at = now\<rparr>"
    using tg_items_db_new_products [of _ its now u "next_order (db s)" ?d2] by (simp add: add_order_def)
  have s': "s' = s\<lparr>db := ?d3, sent := sent s @ [(t, Tg_order_created (next_order (db s)) (map tg_line its) tot)],
                    stmt_no := Suc (Suc (stmt_no s) + 2 * length its + 2)\<rparr>"
    using run body by simp
  show ?thesis
    using run body items pids np old new unfolding s'
    by (auto simp: tg_line_def tg_items_db_frame add_order_def)
qed

lemma tg_insert_item_no_qty:
  assumes "ti_name it = Some n" "ti_price it = Some p" "ti_qty it = None" "\<not> F (stmt_no s)"
  shows "tg_insert_item F now u k it s =
           (Inl internal_error,
            s\<lparr>db := add_product n p (tg_desc k it) u now (db s), stmt_no := Suc (stmt_no s)\<rparr>)"
  using assms by (simp add: tg_insert_item_def exc_simps ins_product_def tg_desc_def)

text \<open>
  C28. When an item of the request has a name and a price but no quantity, the request
  answers 500, yet the order row, the items before it and a product row for the faulty
  item stay committed and no confirmation is sent.
\<close>

theorem create_telegram_order_missing_quantity:
  assumes wf: "db_wf (db s)" and ff: "faults_free F (stmt_no s) (2 * length pre + 3)"
    and lookup: "rows_where (users (db s)) (next_user (db s)) (\<lambda>r. telegram_id r = Some t) = (u, ur) # rest"
    and ne: "t \<noteq> []" and ok: "list_all tg_item_ok pre"
    and bad: "ti_name b = Some n" "ti_price b = Some p" "ti_qty b = None"
    and run: "create_telegram_order F now \<lparr>tr_tg = Some t, tr_items = Some (pre @ b # post), tr_total = tot\<rparr> s =
                (res, s')"
  shows "res = Inl tg_server_error \<and> orders (db s') (next_order (db s)) \<noteq> None \<and>
         length (items_of (db s') (next_order (db s))) = length pre \<and>
         next_product (db s') = next_product (db s) + length pre + 1 \<and> sent s' = sent s"
proof -
  let ?x = "case tot of Some x \<Rightarrow> x | None \<Rightarrow> 0"
  let ?k = "next_order (db s)"
  let ?d2 = "add_order u ?x (ustr ''new'') now (db s)"
  let ?d3 = "tg_items_db now u ?k pre ?d2"
  let ?s1 = "s\<lparr>stmt_no := Suc (stmt_no s)\<rparr>"
  let ?s2 = "s\<lparr>stmt_no := Suc (Suc (stmt_no s)), db := ?d2\<rparr>"
  let ?s3 = "?s2\<lparr>db := ?d3, stmt_no := Suc (Suc (stmt_no s)) + 2 * length pre\<rparr>"
  let ?s4 = "?s3\<lparr>db := add_product n p (tg_desc ?k b) u now ?d3, stmt_no := Suc (stmt_no ?s3)\<rparr>"
  have f0: "\<not> F (stmt_no s)" "\<not> F (Suc (stmt_no s))" "\<not> F (Suc (Suc (stmt_no s)) + 2 * length pre)"
    using faults_freeD [OF ff] by simp_all
  have ffl: "faults_free F (Suc (Suc (stmt_no s))) (2 * length pre)"
    by (rule faults_free_mono [OF ff]) simp_all
  have b1: "execute_query F (sel_user_by_tg t) s = (Inr (Some (u, ur)), ?s1)"
    using f0 by (simp add: execute_query_def sel_user_by_tg_def lookup)
  have b2: "execute_query F (ins_order u ?x (ustr ''new'') now) ?s1 = (Inr ?k, ?s2)"
    using f0 by (simp add: execute_query_def ins_order_def)
  have lp: "emap (tg_insert_item F now u ?k) pre ?s2 = (Inr (map tg_line pre), ?s3)"
    using tg_items_loop [OF ok, of F ?s2 now u ?k] ffl by simp
  have bi: "tg_insert_item F now u ?k b ?s3 = (Inl internal_error, ?s4)"
    using tg_insert_item_no_qty [OF bad, of F ?s3 now u ?k] f0(3) by simp
  have rest: "emap (tg_insert_item F now u ?k) (b # post) ?s3 = (Inl internal_error, ?s4)"
    using bi by (simp add: ebind_def)
  have all: "emap (tg_insert_item F now u ?k) (pre @ b # post) ?s2 = (Inl internal_error, ?s4)"
    using rest by (simp add: emap_append_Inr [OF lp] ebind_def)
  have place: "tg_place_order F now u ur ?x (pre @ b # post) ?s1 = (Inl internal_error, ?s4)"
  proof -
    have "tg_place_order F now u ur ?x (pre @ b # post) ?s1 =
            ebind (emap (tg_insert_item F now u ?k) (pre @ b # post)) (\<lambda>ls. tg_finish F ?k ur ?x ls) ?s2"
      unfolding tg_place_order_def
      by (simp only: ebind_Inr [where m = "execute_query F (ins_order u ?x (ustr ''new'') now)" and s = ?s1, OF b2])
    also have "\<dots> = (Inl internal_error, ?s4)"
      using all by (simp add: ebind_def)
    finally show ?thesis .
  qed
  have body: "tg_order_body F now \<lparr>tr_tg = Some t, tr_items = Some (pre @ b # post), tr_total = tot\<rparr> s =
                (Inl internal_error, ?s4)"
    using ne place by (simp add: tg_order_body_def ebind_Inr [where m = "execute_query F (sel_user_by_tg t)" and s = s, OF b1])
  have n: "0 < next_item ?d2" using wf by (simp add: db_wf_def)
  have "map (\<lambda>r. (oi_qty r, oi_price r)) (items_of ?d3 ?k) = map (\<lambda>it. (the (ti_qty it), the (ti_price it))) pre"
    using tg_items_db_items [OF n, of now u ?k pre] items_of_fresh [OF wf] by (simp add: items_of_add_order)
  then have "length (map (\<lambda>r. (oi_qty r, oi_price r)) (items_of ?d3 ?k)) = length pre" by simp
  then have it: "length (items_of ?d3 ?k) = length pre" by simp
  from run body have "res = Inl tg_server_error" "s' = ?s4"
    by (simp_all add: create_telegram_order_def tg_try_def)
  with it show ?thesis
    by (simp add: items_of_add_product tg_items_db_frame tg_items_db_next_product add_order_def)
qed

section \<open>Evaluation of the read endpoints\<close>

definition order_json_of :: "db \<Rightarrow> oid \<times> order_row \<Rightarrow> order_json" where
  "order_json_of d o' = \<lparr>oj_id = fst o', oj_row = snd o', oj_items = items_json (named_items d (fst o'))\<rparr>"

lemma with_items_loop:
  assumes "faults_free F (stmt_no s) (length os)"
  shows "emap (with_items F) os s = (Inr (map (order_json_of (db s)) os), s\<lparr>stmt_no := stmt_no s + length os\<rparr>)"
  using assms
proof (induction os arbitrary: s)
  case Nil then show ?case by (simp add: exc_simps)
next
  case (Cons o' os)
  have f: "\<not> F (stmt_no s)" "faults_free F (Suc (stmt_no s)) (length os)"
    using Cons.prems by (simp_all add: faults_free_Suc)
  have w: "with_items F o' s = (Inr (order_json_of (db s) o'), s\<lparr>stmt_no := Suc (stmt_no s)\<rparr>)"
    using f(1) by (simp add: with_items_def exc_simps sel_items_named_def order_json_of_def)
  have ih: "emap (with_items F) os (s\<lparr>stmt_no := Suc (stmt_no s)\<rparr>) =
              (Inr (map (order_json_of (db s)) os), s\<lparr>stmt_no := Suc (stmt_no s) + length os\<rparr>)"
    using Cons.IH [of "s\<lparr>stmt_no := Suc (stmt_no s)\<rparr>"] f(2) by simp
  show ?case using w ih by (simp add: exc_simps)
qed

lemma tg_user_found:
  assumes "t \<noteq> []" "\<not> F (stmt_no s)"
    and "rows_where (users (db s)) (next_user (db s)) (\<lambda>r. telegram_id r = Some t) = (u, ur) # rest"
  shows "tg_user F (Some t) s = (Inr (u, ur), s\<lparr>stmt_no := Suc (stmt_no s)\<rparr>)"
  using assms by (simp add: tg_user_def exc_simps sel_user_by_tg_def)

abbreviation orders_newest :: "db \<Rightarrow> uid \<Rightarrow> (oid \<times> order_row) list" where
  "orders_newest d u \<equiv> newest_first o_created_at (rows_where (orders d) (next_order d) (\<lambda>r. o_user r = u))"

text \<open>
  C31. get_telegram_orders answers with all orders of the chat's user, newest first, each
  with its items joined to their product names and line totals, and changes neither the
  store nor the outbox.
\<close>

theorem get_telegram_orders_lists_user_orders:
  assumes "t \<noteq> []"
    and "rows_where (users (db s)) (next_user (db s)) (\<lambda>r. telegram_id r = Some t) = (u, ur) # rest"
    and "faults_free F (stmt_no s) (2 + length (orders_newest (db s) u))"
  shows "get_telegram_orders F (Some t) s =
           (Inr (map (order_json_of (db s)) (orders_newest (db s) u)),
            s\<lparr>stmt_no := stmt_no s + 2 + length (orders_newest (db s) u)\<rparr>)"
proof -
  let ?os = "orders_newest (db s) u"
  have f: "\<not> F (stmt_no s)" "\<not> F (Suc (stmt_no s))"
    using faults_freeD [OF assms(3)] by simp_all
  have fl: "faults_free F (Suc (Suc (stmt_no s))) (length ?os)"
    by (rule faults_free_mono [OF assms(3)]) simp_all
  have u: "tg_user F (Some t) s = (Inr (u, ur), s\<lparr>stmt_no := Suc (stmt_no s)\<rparr>)"
    using tg_user_found [where F = F and s = s, OF assms(1) f(1) assms(2)] .
  have q: "execute_query F (sel_orders_of u) (s\<lparr>stmt_no := Suc (stmt_no s)\<rparr>) =
             (Inr ?os, s\<lparr>stmt_no := Suc (Suc (stmt_no s))\<rparr>)"
    using f(2) by (simp add: execute_query_def sel_orders_of_def)
  have l: "emap (with_items F) ?os (s\<lparr>stmt_no := Suc (Suc (stmt_no s))\<rparr>) =
             (Inr (map (order_json_of (db s)) ?os), s\<lparr>stmt_no := Suc (Suc (stmt_no s)) + length ?os\<rparr>)"
    using with_items_loop [of F "s\<lparr>stmt_no := Suc (Suc (stmt_no s))\<rparr>" ?os] fl by simp
  show ?thesis
    unfolding get_telegram_orders_def
    using u q l by (simp add: ebind_def)
qed

lemma get_telegram_user_info_ok:
  assumes "t \<noteq> []"
    and "rows_where (users (db s)) (next_user (db s)) (\<lambda>r. telegram_id r = Some t) = (u, ur) # rest"
    and "faults_free F (stmt_no s) (3 + length (take 3 (orders_newest (db s) u)))"
  shows "get_telegram_user_info F (Some t) s =
           (Inr \<lparr>ui_email = email ur, ui_first_name = first_name ur, ui_last_name = last_name ur,
                 ui_total_all = (\<Sum>(k, r)\<leftarrow>rows_where (orders (db s)) (next_order (db s)) (\<lambda>r. o_user r = u).
                                   total_amount r),
                 ui_orders = map (order_json_of (db s)) (take 3 (orders_newest (db s) u))\<rparr>,
            s\<lparr>stmt_no := stmt_no s + 3 + length (take 3 (orders_newest (db s) u))\<rparr>)"
proof -
  let ?os = "take 3 (orders_newest (db s) u)"
  let ?all = "rows_where (orders (db s)) (next_order (db s)) (\<lambda>r. o_user r = u)"
  have f: "\<not> F (stmt_no s)" "\<not> F (Suc (stmt_no s))" "\<not> F (Suc (Suc (stmt_no s)))"
    using faults_freeD [OF assms(3)] by simp_all
  have fl: "faults_free F (Suc (Suc (Suc (stmt_no s)))) (length ?os)"
    by (rule faults_free_mono [OF assms(3)]) simp_all
  have u: "tg_user F (Some t) s = (Inr (u, ur), s\<lparr>stmt_no := Suc (stmt_no s)\<rparr>)"
    using tg_user_found [where F = F and s = s, OF assms(1) f(1) assms(2)] .
  have q1: "execute_query F (sel_orders_by_id u) (s\<lparr>stmt_no := Suc (stmt_no s)\<rparr>) =
             (Inr ?all, s\<lparr>stmt_no := Suc (Suc (stmt_no s))\<rparr>)"
    using f(2) by (simp add: execute_query_def sel_orders_by_id_def)
  have q2: "execute_query F (sel_orders_recent 3 u) (s\<lparr>stmt_no := Suc (Suc (stmt_no s))\<rparr>) =
             (Inr ?os, s\<lparr>stmt_no := Suc (Suc (Suc (stmt_no s)))\<rparr>)"
    using f(3) by (simp add: execute_query_def sel_orders_recent_def)
  have l: "emap (with_items F) ?os (s\<lparr>stmt_no := Suc (Suc (Suc (stmt_no s)))\<rparr>) =
             (Inr (map (order_json_of (db s)) ?os), s\<lparr>stmt_no := Suc (Suc (Suc (stmt_no s))) + length ?os\<rparr>)"
    using with_items_loop [of F "s\<lparr>stmt_no := Suc (Suc (Suc (stmt_no s)))\<rparr>" ?os] fl by simp
  show ?thesis
    unfolding get_telegram_user_info_def
    using u q1 q2 l by (simp add: ebind_def eret_def)
qed

text \<open>
  The three read endpoints answer 400 without running a statement when the chat id is
  missing or empty, and 404 after one SELECT when no user has it; nothing else changes.
\<close>

theorem telegram_reads_reject:
  "(\<not> truthy_str tg \<longrightarrow>
      get_telegram_products F tg s = (Inl tg_id_required, s) \<and>
      get_telegram_user_info F tg s = (Inl tg_id_required, s) \<and>
      get_telegram_orders F tg s = (Inl tg_id_required, s)) \<and>
   (t \<noteq> [] \<and> \<not> F (stmt_no s) \<and>
    rows_where (users (db s)) (next_user (db s)) (\<lambda>r. telegram_id r = Some t) = [] \<longrightarrow>
      get_telegram_products F (Some t) s = (Inl user_not_found, s\<lparr>stmt_no := Suc (stmt_no s)\<rparr>) \<and>
      get_telegram_user_info F (Some t) s = (Inl user_not_found, s\<lparr>stmt_no := Suc (stmt_no s)\<rparr>) \<and>
      get_telegram_orders F (Some t) s = (Inl user_not_found, s\<lparr>stmt_no := Suc (stmt_no s)\<rparr>))"
proof (intro conjI impI)
  assume "\<not> truthy_str tg"
  then have u: "tg_user F tg s = (Inl tg_id_required, s)" by (simp add: tg_user_def exc_simps)
  show "get_telegram_products F tg s = (Inl tg_id_required, s)"
    unfolding get_telegram_products_def using u by (simp add: ebind_def)
  show "get_telegram_user_info F tg s = (Inl tg_id_required, s)"
    unfolding get_telegram_user_info_def using u by (simp add: ebind_def)
  show "get_telegram_orders F tg s = (Inl tg_id_required, s)"
    unfolding get_telegram_orders_def using u by (simp add: ebind_def)
next
  assume h: "t \<noteq> [] \<and> \<not> F (stmt_no s) \<and>
    rows_where (users (db s)) (next_user (db s)) (\<lambda>r. telegram_id r = Some t) = []"
  then have u: "tg_user F (Some t) s = (Inl user_not_found, s\<lparr>stmt_no := Suc (stmt_no s)\<rparr>)"
    by (simp add: tg_user_def exc_simps sel_user_by_tg_def)
  show "get_telegram_products F (Some t) s = (Inl user_not_found, s\<lparr>stmt_no := Suc (stmt_no s)\<rparr>)"
    unfolding get_telegram_products_def using u by (simp add: ebind_def)
  show "get_telegram_user_info F (Some t) s = (Inl user_not_found, s\<lparr>stmt_no := Suc (stmt_no s)\<rparr>)"
    unfolding get_telegram_user_info_def using u by (simp add: ebind_def)
  show "get_telegram_orders F (Some t) s = (Inl user_not_found, s\<lparr>stmt_no := Suc (stmt_no s)\<rparr>)"
    unfolding get_telegram_orders_def using u by (simp add: ebind_def)
qed

text \<open>
  A request without a chat id or with a missing, non-list or empty item list is
  answered 400 and changes nothing.
\<close>

theorem create_telegram_order_rejects:
  assumes "\<not> truthy_str (tr_tg req) \<or> tr_items req = None \<or> tr_items req = Some []"
  shows "create_telegram_order F now req s = (Inl tg_args_required, s)"
  using assms
  by (auto simp: create_telegram_order_def tg_try_def tg_order_body_def truthy_str_def eret_def
      split: option.splits)

section \<open>Witnesses on a concrete store\<close>

definition demo_user_b :: user_row where
  "demo_user_b = \<lparr>username = ustr ''b'', email = ustr ''b@shop'', first_name = ustr ''B'',
                   last_name = ustr ''B'', password_hash = ustr ''h'', theme = ustr ''light'', telegram_id = Some (ustr ''555''), u_created_at = 0\<rparr>"

lemma demo_lookup_555:
  "rows_where (users (db demo_link_sys)) (next_user (db demo_link_sys))
     (\<lambda>r. telegram_id r = Some (ustr ''555'')) = [(2, demo_user_b)]"
  by (simp add: demo_link_sys_def demo_link_db_def demo_user_b_def rows_where_def upt_rec ustr_def)

definition demo_tg_item :: tg_item_req where
  "demo_tg_item = \<lparr>ti_name = Some (ustr ''X''), ti_qty = Some 2, ti_price = Some 10, ti_desc = None\<rparr>"

definition demo_tg_req :: tg_order_req where
  "demo_tg_req = \<lparr>tr_tg = Some (ustr ''555''), tr_items = Some [demo_tg_item], tr_total = Some 1\<rparr>"

theorem create_telegram_order_trusts_total_witness:
  "fst (create_telegram_order no_faults 7 demo_tg_req demo_link_sys) =
     Inr \<lparr>tv_id = 1, tv_total = 1, tv_status = ustr ''new'', tv_created_at = 7,
          tv_items = [(ustr ''X'', 2, 10, 20)]\<rparr> \<and>
   orders (db (snd (create_telegram_order no_faults 7 demo_tg_req demo_link_sys))) 1 =
     Some \<lparr>o_user = 2, total_amount = 1, o_status = ustr ''new'', o_created_at = 7\<rparr> \<and>
   map (\<lambda>r. (oi_qty r, oi_price r)) (items_of (db (snd (create_telegram_order no_faults 7 demo_tg_req demo_link_sys))) 1) =
     [(2, 10)] \<and>
   map oi_product (items_of (db (snd (create_telegram_order no_faults 7 demo_tg_req demo_link_sys))) 1) = [1] \<and>
   products (db (snd (create_telegram_order no_faults 7 demo_tg_req demo_link_sys))) 1 =
     Some \<lparr>p_name = ustr ''X'', p_price = 10, p_description = tg_desc 1 demo_tg_item, created_by = 2,
           p_created_at = 7\<rparr>"
proof -
  have ok: "list_all tg_item_ok [demo_tg_item]" by (simp add: tg_item_ok_def demo_tg_item_def)
  have n: "next_order (db demo_link_sys) = 1" "next_product (db demo_link_sys) = 1"
    by (simp_all add: demo_link_sys_def demo_link_db_def empty_db_def)
  show ?thesis
    using create_telegram_order_trusts_total [OF demo_link_wf faults_free_no_faults demo_lookup_555 _ _ ok,
        of 7 1 "fst (create_telegram_order no_faults 7 demo_tg_req demo_link_sys)"
           "snd (create_telegram_order no_faults 7 demo_tg_req demo_link_sys)"]
    by (simp add: demo_tg_req_def demo_tg_item_def n ustr_def)
qed

definition demo_bad_item :: tg_item_req where
  "demo_bad_item = \<lparr>ti_name = Some (ustr ''Y''), ti_qty = None, ti_price = Some 5, ti_desc = None\<rparr>"

theorem create_telegram_order_missing_quantity_witness:
  "fst (create_telegram_order no_faults 7
          \<lparr>tr_tg = Some (ustr ''555''), tr_items = Some [demo_bad_item], tr_total = None\<rparr> demo_link_sys) =
     Inl tg_server_error \<and>
   orders (db (snd (create_telegram_order no_faults 7
          \<lparr>tr_tg = Some (ustr ''555''), tr_items = Some [demo_bad_item], tr_total = None\<rparr> demo_link_sys))) 1 \<noteq> None \<and>
   next_product (db (snd (create_telegram_order no_faults 7
          \<lparr>tr_tg = Some (ustr ''555''), tr_items = Some [demo_bad_item], tr_total = None\<rparr> demo_link_sys))) = 2"
proof -
  have n: "next_order (db demo_link_sys) = 1" "next_product (db demo_link_sys) = 1"
    by (simp_all add: demo_link_sys_def demo_link_db_def empty_db_def)
  show ?thesis
    using create_telegram_order_missing_quantity [where pre = "[]" and b = demo_bad_item and n = "ustr ''Y''"
        and p = 5 and post = "[]" and now = 7 and tot = None,
        OF demo_link_wf faults_free_no_faults demo_lookup_555 _ _ _ _ _ surjective_pairing]
    by (simp add: demo_bad_item_def n ustr_def)
qed

definition demo_shop_db :: db where
  "demo_shop_db = demo_link_db\<lparr>
     products := [1 \<mapsto> \<lparr>p_name = ustr ''X'', p_price = 10, p_description = [], created_by = 2, p_created_at = 0\<rparr>],
     next_product := 2,
     orders := [1 \<mapsto> \<lparr>o_user = 2, total_amount = 25, o_status = ustr ''new'', o_created_at = 5\<rparr>,
                2 \<mapsto> \<lparr>o_user = 2, total_amount = 7, o_status = ustr ''completed'', o_created_at = 9\<rparr>],
     next_order := 3,
     order_items := [1 \<mapsto> \<lparr>oi_order = 1, oi_product = 1, oi_qty = 2, oi_price = 10\<rparr>],
     next_item := 2\<rparr>"

definition demo_shop_sys :: sys where
  "demo_shop_sys = \<lparr>db = demo_shop_db, sent = [], stmt_no = 0\<rparr>"

lemma demo_shop_lookup:
  "rows_where (users (db demo_shop_sys)) (next_user (db demo_shop_sys))
     (\<lambda>r. telegram_id r = Some (ustr ''555'')) = [(2, demo_user_b)]"
  by (simp add: demo_shop_sys_def demo_shop_db_def demo_link_db_def demo_user_b_def rows_where_def upt_rec ustr_def)

theorem get_telegram_orders_lists_user_orders_witness:
  "get_telegram_orders no_faults (Some (ustr ''555'')) demo_shop_sys =
     (Inr [\<lparr>oj_id = 2, oj_row = \<lparr>o_user = 2, total_amount = 7, o_status = ustr ''completed'', o_created_at = 9\<rparr>,
            oj_items = []\<rparr>,
           \<lparr>oj_id = 1, oj_row = \<lparr>o_user = 2, total_amount = 25, o_status = ustr ''new'', o_created_at = 5\<rparr>,
            oj_items = [(ustr ''X'', 2, 10, 20)]\<rparr>],
      demo_shop_sys\<lparr>stmt_no := 4\<rparr>)"
proof -
  have o: "orders_newest (db demo_shop_sys) 2 =
             [(2, \<lparr>o_user = 2, total_amount = 7, o_status = ustr ''completed'', o_created_at = 9\<rparr>),
              (1, \<lparr>o_user = 2, total_amount = 25, o_status = ustr ''new'', o_created_at = 5\<rparr>)]"
    by (simp add: demo_shop_sys_def demo_shop_db_def newest_first_def rows_where_def upt_rec)
  have r: "get_telegram_orders no_faults (Some (ustr ''555'')) demo_shop_sys =
             (Inr (map (order_json_of (db demo_shop_sys)) (orders_newest (db demo_shop_sys) 2)),
              demo_shop_sys\<lparr>stmt_no := stmt_no demo_shop_sys + 2 + length (orders_newest (db demo_shop_sys) 2)\<rparr>)"
    by (rule get_telegram_orders_lists_user_orders [OF _ demo_shop_lookup]) (simp_all add: ustr_def)
  show ?thesis
    unfolding r o by (simp add: ustr_def order_json_of_def named_items_def items_of_def items_json_def
        demo_shop_sys_def demo_shop_db_def rows_where_def upt_rec)
qed

lemma demo_shop_user_info:
  "fst (get_telegram_user_info no_faults (Some (ustr ''555'')) demo_shop_sys) =
     Inr \<lparr>ui_email = ustr ''b@shop'', ui_first_name = ustr ''B'', ui_last_name = ustr ''B'', ui_total_all = 32,
          ui_orders = [\<lparr>oj_id = 2, oj_row = \<lparr>o_user = 2, total_amount = 7, o_status = ustr ''completed'', o_created_at = 9\<rparr>,
                        oj_items = []\<rparr>,
                       \<lparr>oj_id = 1, oj_row = \<lparr>o_user = 2, total_amount = 25, o_status = ustr ''new'', o_created_at = 5\<rparr>,
                        oj_items = [(ustr ''X'', 2, 10, 20)]\<rparr>]\<rparr>"
proof -
  have o: "orders_newest (db demo_shop_sys) 2 =
             [(2, \<lparr>o_user = 2, total_amount = 7, o_status = ustr ''completed'', o_created_at = 9\<rparr>),
              (1, \<lparr>o_user = 2, total_amount = 25, o_status = ustr ''new'', o_created_at = 5\<rparr>)]"
    by (simp add: demo_shop_sys_def demo_shop_db_def newest_first_def rows_where_def upt_rec)
  have r: "get_telegram_user_info no_faults (Some (ustr ''555'')) demo_shop_sys =
             (Inr \<lparr>ui_email = email demo_user_b, ui_first_name = first_name demo_user_b,
                   ui_last_name = last_name demo_user_b,
                   ui_total_all = (\<Sum>(k, r)\<leftarrow>rows_where (orders (db demo_shop_sys)) (next_order (db demo_shop_sys))
                                       (\<lambda>r. o_user r = 2). total_amount r),
                   ui_orders = map (order_json_of (db demo_shop_sys)) (take 3 (orders_newest (db demo_shop_sys) 2))\<rparr>,
              demo_shop_sys\<lparr>stmt_no := stmt_no demo_shop_sys + 3 + length (take 3 (orders_newest (db demo_shop_sys) 2))\<rparr>)"
    by (rule get_telegram_user_info_ok [OF _ demo_shop_lookup]) (simp_all add: ustr_def)
  show ?thesis
    unfolding r o
    by (simp add: ustr_def order_json_of_def named_items_def items_of_def items_json_def demo_user_b_def
        demo_shop_sys_def demo_shop_db_def rows_where_def upt_rec)
qed

theorem telegram_reads_reject_witness:
  "get_telegram_orders no_faults None demo_link_sys = (Inl tg_id_required, demo_link_sys) \<and>
   get_telegram_orders no_faults (Some (ustr ''999'')) demo_link_sys =
     (Inl user_not_found, demo_link_sys\<lparr>stmt_no := 1\<rparr>)"
proof -
  have h: "rows_where (users (db demo_link_sys)) (next_user (db demo_link_sys))
             (\<lambda>r. telegram_id r = Some (ustr ''999'')) = []"
    by (simp add: demo_link_sys_def demo_link_db_def rows_where_def upt_rec ustr_def)
  show ?thesis
    using telegram_reads_reject [of None no_faults demo_link_sys "ustr ''999''"] h
    by (simp add: ustr_def no_faults_def demo_link_sys_def)
qed

theorem create_telegram_order_rejects_witness:
  "create_telegram_order no_faults 7 \<lparr>tr_tg = Some (ustr ''555''), tr_items = Some [], tr_total = None\<rparr>
     demo_link_sys = (Inl tg_args_required, demo_link_sys)"
  by (rule create_telegram_order_rejects) simp

end
