(* ===== verification/PyText.thy ===== *)
theory PyText
  imports Prelude
begin

text \<open>
  The Python string builtins the bot applies to what the user types and to callback data:
  \<open>str.split(sep)\<close> with a one-character separator, \<open>str.split()\<close>, \<open>str.strip()\<close>
  and \<open>int(s)\<close> in base 10. Text is a list of code points (\<open>ustr\<close>). \<open>int\<close> accepts
  surrounding whitespace (the code points \<open>str.isspace\<close> holds of), one sign, and decimal
  digits with single underscores between them; the non-ASCII decimal digits \<open>int\<close> also
  accepts are outside the model (they read as invalid here). \<open>float(s)\<close> is modelled
  with exact rational values besides \<open>nan\<close> and the infinities, and \<open>str.lower()\<close> on
  ASCII and basic Cyrillic, the letters the bot's sentinel word uses.
\<close>

section \<open>Characters\<close>

definition py_isspace :: "nat \<Rightarrow> bool" where
  "py_isspace c \<longleftrightarrow>
     (9 \<le> c \<and> c \<le> 13) \<or> (28 \<le> c \<and> c \<le> 32) \<or> c = 133 \<or> c = 160 \<or> c = 5760 \<or>
     (8192 \<le> c \<and> c \<le> 8202) \<or> c = 8232 \<or> c = 8233 \<or> c = 8239 \<or> c = 8287 \<or> c = 12288"

definition is_digit :: "nat \<Rightarrow> bool" where
  "is_digit c \<longleftrightarrow> 48 \<le> c \<and> c \<le> 57"

definition py_strip :: "ustr \<Rightarrow> ustr" where
  "py_strip s = rev (dropWhile py_isspace (rev (dropWhile py_isspace s)))"

section \<open>Splitting\<close>

text \<open>\<open>s.split(c)\<close>: the pieces between occurrences of \<open>c\<close>, empty pieces kept.\<close>

fun py_split_sep :: "nat \<Rightarrow> ustr \<Rightarrow> ustr list" where
  "py_split_sep c [] = [[]]"
| "py_split_sep c (x # xs) =
     (if x = c then [] # py_split_sep c xs
      else case py_split_sep c xs of p # ps \<Rightarrow> (x # p) # ps | [] \<Rightarrow> [[x]])"

text \<open>\<open>s.split()\<close>: the maximal runs of non-whitespace.\<close>

fun py_split_ws_acc :: "ustr \<Rightarrow> ustr \<Rightarrow> ustr list" where
  "py_split_ws_acc cur [] = (if cur = [] then [] else [rev cur])"
| "py_split_ws_acc cur (x # xs) =
     (if py_isspace x then (if cur = [] then py_split_ws_acc [] xs else rev cur # py_split_ws_acc [] xs)
      else py_split_ws_acc (x # cur) xs)"

definition py_split_ws :: "ustr \<Rightarrow> ustr list" where
  "py_split_ws s = py_split_ws_acc [] s"

section \<open>int()\<close>

fun no_double_underscore :: "ustr \<Rightarrow> bool" where
  "no_double_underscore (a # b # xs) \<longleftrightarrow> \<not> (a = 95 \<and> b = 95) \<and> no_double_underscore (b # xs)"
| "no_double_underscore _ \<longleftrightarrow> True"

definition digits_ok :: "ustr \<Rightarrow> bool" where
  "digits_ok s \<longleftrightarrow> s \<noteq> [] \<and> is_digit (hd s) \<and> is_digit (last s) \<and>
     list_all (\<lambda>c. is_digit c \<or> c = 95) s \<and> no_double_underscore s"

definition digits_val :: "ustr \<Rightarrow> nat" where
  "digits_val s = foldl (\<lambda>a c. 10 * a + (c - 48)) 0 (filter (\<lambda>c. c \<noteq> 95) s)"

definition py_int :: "ustr \<Rightarrow> int option" where
  "py_int s =
     (case py_strip s of
        [] \<Rightarrow> None
      | c # ds \<Rightarrow>
          if c = 45 then (if digits_ok ds then Some (- int (digits_val ds)) else None)
          else if c = 43 then (if digits_ok ds then Some (int (digits_val ds)) else None)
          else if digits_ok (c # ds) then Some (int (digits_val (c # ds))) else None)"

section \<open>float()\<close>

text \<open>
  A Python \<open>float\<close>: a finite value (kept exact, the rounding to binary64 and the
  overflow of huge literals to \<open>inf\<close> are not modelled), \<open>nan\<close>, or an infinity
  (\<open>Infty True\<close> is \<open>+inf\<close>).
\<close>

datatype pyfloat = Fin rat | NaN | Infty bool

definition pf_neg :: "pyfloat \<Rightarrow> pyfloat" where
  "pf_neg x = (case x of Fin r \<Rightarrow> Fin (- r) | NaN \<Rightarrow> NaN | Infty b \<Rightarrow> Infty (\<not> b))"

text \<open>A float stored in a \<open>REAL\<close> column of the exact-money model; \<open>None\<close> for the
  values it cannot hold.\<close>

definition pf_money :: "pyfloat \<Rightarrow> money option" where
  "pf_money x = (case x of Fin r \<Rightarrow> Some r | _ \<Rightarrow> None)"

text \<open>\<open>x <= 0\<close>: every comparison with \<open>nan\<close> is false.\<close>

definition pf_le_zero :: "pyfloat \<Rightarrow> bool" where
  "pf_le_zero x = (case x of Fin r \<Rightarrow> r \<le> 0 | NaN \<Rightarrow> False | Infty b \<Rightarrow> \<not> b)"

text \<open>\<open>x * q\<close> for an \<open>int\<close> \<open>q\<close>: \<open>inf * 0\<close> is \<open>nan\<close>.\<close>

definition pf_mul_int :: "pyfloat \<Rightarrow> int \<Rightarrow> pyfloat" where
  "pf_mul_int x q =
     (case x of Fin r \<Rightarrow> Fin (r * of_int q) | NaN \<Rightarrow> NaN
      | Infty b \<Rightarrow> if q = 0 then NaN else Infty (b = (0 < q)))"

text \<open>\<open>str.lower()\<close> on ASCII and on the basic Cyrillic block, the letters the bot compares.\<close>

definition py_lower_char :: "nat \<Rightarrow> nat" where
  "py_lower_char c =
     (if 65 \<le> c \<and> c \<le> 90 then c + 32
      else if 1040 \<le> c \<and> c \<le> 1071 then c + 32
      else if 1024 \<le> c \<and> c \<le> 1039 then c + 80 else c)"

definition py_lower :: "ustr \<Rightarrow> ustr" where
  "py_lower s = map py_lower_char s"

text \<open>\<open>s.partition(c)\<close> on the first character satisfying \<open>P\<close>; \<open>None\<close> when there is none.\<close>

fun split_first :: "(nat \<Rightarrow> bool) \<Rightarrow> ustr \<Rightarrow> ustr \<times> ustr option" where
  "split_first P [] = ([], None)"
| "split_first P (x # xs) = (if P x then ([], Some xs) else (case split_first P xs of (a, r) \<Rightarrow> (x # a, r)))"

text \<open>The exponent of a float literal: an optional sign and a digit group.\<close>

definition exp_int :: "ustr \<Rightarrow> int option" where
  "exp_int s =
     (case s of
        [] \<Rightarrow> None
      | c # ds \<Rightarrow>
          if c = 45 then (if digits_ok ds then Some (- int (digits_val ds)) else None)
          else if c = 43 then (if digits_ok ds then Some (int (digits_val ds)) else None)
          else if digits_ok s then Some (int (digits_val s)) else None)"

definition dec_val :: "ustr \<Rightarrow> ustr \<Rightarrow> int \<Rightarrow> rat" where
  "dec_val ip fp e =
     (of_nat (digits_val ip) + of_nat (digits_val fp) / 10 ^ length (filter (\<lambda>c. c \<noteq> 95) fp)) *
     (if 0 \<le> e then 10 ^ nat e else 1 / 10 ^ nat (- e))"

text \<open>An unsigned literal: \<open>nan\<close>, \<open>inf\<close>, \<open>infinity\<close> in any case, or digits with an
  optional fraction and exponent, at least one digit before or after the point.\<close>

definition py_float_abs :: "ustr \<Rightarrow> pyfloat option" where
  "py_float_abs r =
     (let l = py_lower r in
      if l = ustr ''nan'' then Some NaN
      else if l = ustr ''inf'' \<or> l = ustr ''infinity'' then Some (Infty True)
      else (case split_first (\<lambda>c. c = 101 \<or> c = 69) r of
        (m, ex) \<Rightarrow>
          (case split_first (\<lambda>c. c = 46) m of
             (ip, fpo) \<Rightarrow>
               (let fp = (case fpo of None \<Rightarrow> [] | Some f \<Rightarrow> f) in
                if (ip = [] \<and> fp = []) \<or> (ip \<noteq> [] \<and> \<not> digits_ok ip) \<or> (fp \<noteq> [] \<and> \<not> digits_ok fp)
                then None
                else (case ex of
                        None \<Rightarrow> Some (Fin (dec_val ip fp 0))
                      | Some es \<Rightarrow> map_option (\<lambda>e. Fin (dec_val ip fp e)) (exp_int es))))))"

definition py_float :: "ustr \<Rightarrow> pyfloat option" where
  "py_float s =
     (case py_strip s of
        [] \<Rightarrow> None
      | c # r \<Rightarrow>
          if c = 45 then map_option pf_neg (py_float_abs r)
          else if c = 43 then py_float_abs r
          else py_float_abs (c # r))"

section \<open>Properties\<close>

text \<open>\<open>show_nat\<close> is unfolded one step at a time below.\<close>

declare show_nat.simps [simp del]

lemma py_split_sep_not_Nil [simp]: "py_split_sep c s \<noteq> []"
  by (induction s) (auto split: list.split)

lemma py_split_sep_no_sep: "c \<notin> set s \<Longrightarrow> py_split_sep c s = [s]"
  by (induction s) auto

lemma py_split_sep_append:
  "c \<notin> set a \<Longrightarrow> py_split_sep c (a @ c # b) = a # py_split_sep c b"
proof (induction a)
  case Nil then show ?case by simp
next
  case (Cons x a)
  then show ?case by simp
qed

lemma show_nat_step:
  "\<not> n < 10 \<Longrightarrow> show_nat n = show_nat (n div 10) @ [48 + n mod 10]"
  by (subst show_nat.simps) simp

lemma show_nat_small: "n < 10 \<Longrightarrow> show_nat n = [48 + n]"
  by (subst show_nat.simps) simp

lemma show_nat_not_Nil [simp]: "show_nat n \<noteq> []"
  by (cases "n < 10") (simp_all add: show_nat_step show_nat_small)

lemma show_nat_digits: "list_all is_digit (show_nat n)"
proof (induction n rule: show_nat.induct)
  case (1 n)
  show ?case
  proof (cases "n < 10")
    case True then show ?thesis by (simp only: show_nat_small) (simp add: is_digit_def)
  next
    case False
    have "n mod 10 < 10" by simp
    with 1 False show ?thesis by (simp add: show_nat_step [OF False] is_digit_def)
  qed
qed

lemma show_nat_hd: "is_digit (hd (show_nat n))"
  using show_nat_digits [of n] show_nat_not_Nil [of n]
  by (cases "show_nat n") auto

lemma show_nat_last: "is_digit (last (show_nat n))"
  using show_nat_digits [of n] show_nat_not_Nil [of n]
  by (simp add: list_all_iff)

lemma no_double_underscore_digits: "list_all is_digit s \<Longrightarrow> no_double_underscore s"
  by (induction s rule: no_double_underscore.induct) (auto simp: is_digit_def)

lemma digits_ok_show_nat: "digits_ok (show_nat n)"
  using show_nat_digits [of n] show_nat_hd [of n] show_nat_last [of n] show_nat_not_Nil [of n]
    no_double_underscore_digits [of "show_nat n"]
  unfolding digits_ok_def list_all_iff by blast

lemma filter_show_nat: "filter (\<lambda>c. c \<noteq> 95) (show_nat n) = show_nat n"
  using show_nat_digits [of n] by (auto simp: filter_id_conv list_all_iff is_digit_def)

lemma digits_val_show_nat: "digits_val (show_nat n) = n"
proof (induction n rule: show_nat.induct)
  case (1 n)
  show ?case
  proof (cases "n < 10")
    case True then show ?thesis by (simp only: show_nat_small) (simp add: digits_val_def)
  next
    case False
    have "digits_val (show_nat n) = digits_val (show_nat (n div 10) @ [48 + n mod 10])"
      by (simp only: show_nat_step [OF False])
    also have "\<dots> = 10 * digits_val (show_nat (n div 10)) + n mod 10"
      using filter_show_nat [of "n div 10"] by (simp add: digits_val_def)
    finally have "digits_val (show_nat n) = 10 * digits_val (show_nat (n div 10)) + n mod 10" .
    with 1 False show ?thesis by simp
  qed
qed

lemma dropWhile_none: "\<forall>c\<in>set s. \<not> P c \<Longrightarrow> dropWhile P s = s"
  by (induction s) auto

lemma py_strip_id: "list_all (\<lambda>c. \<not> py_isspace c) s \<Longrightarrow> py_strip s = s"
proof -
  assume "list_all (\<lambda>c. \<not> py_isspace c) s"
  then have n: "\<forall>c\<in>set s. \<not> py_isspace c" by (simp add: list_all_iff)
  then have "dropWhile py_isspace (rev s) = rev s" by (intro dropWhile_none) simp
  with n show ?thesis by (simp add: py_strip_def dropWhile_none)
qed

lemma show_nat_no_space: "list_all (\<lambda>c. \<not> py_isspace c) (show_nat n)"
  using show_nat_digits [of n] by (auto simp: list_all_iff is_digit_def py_isspace_def)

lemma py_int_show_nat: "py_int (show_nat n) = Some (int n)"
proof -
  obtain c ds where cd: "show_nat n = c # ds" using show_nat_not_Nil [of n] by (cases "show_nat n") auto
  have "is_digit c" using show_nat_hd [of n] cd by simp
  then have "c \<noteq> 45" "c \<noteq> 43" by (auto simp: is_digit_def)
  with cd show ?thesis
    using py_strip_id [OF show_nat_no_space [of n]] digits_ok_show_nat [of n] digits_val_show_nat [of n]
    by (simp add: py_int_def)
qed

lemma py_int_show_int: "py_int (show_int i) = Some i"
proof (cases "i < 0")
  case True
  let ?ds = "show_nat (nat (- i))"
  have "list_all (\<lambda>c. \<not> py_isspace c) (45 # ?ds)"
    using show_nat_no_space [of "nat (- i)"] by (simp add: py_isspace_def)
  then have "py_strip (45 # ?ds) = 45 # ?ds" by (rule py_strip_id)
  with True show ?thesis
    using digits_ok_show_nat [of "nat (- i)"] digits_val_show_nat [of "nat (- i)"]
    by (simp add: show_int_def py_int_def)
next
  case False
  then show ?thesis using py_int_show_nat [of "nat i"] by (simp add: show_int_def)
qed

lemma show_int_no_sep: "c \<notin> set (show_int i) \<or> c = 45 \<or> is_digit c"
  using show_nat_digits [of "nat (- i)"] show_nat_digits [of "nat i"]
  by (auto simp: show_int_def list_all_iff)

lemma py_split_ws_acc_word:
  "list_all (\<lambda>c. \<not> py_isspace c) w \<Longrightarrow> py_split_ws_acc cur (w @ r) = py_split_ws_acc (rev w @ cur) r"
  by (induction w arbitrary: cur) auto

lemma py_split_ws_two:
  assumes "w1 \<noteq> []" "w2 \<noteq> []" "list_all (\<lambda>c. \<not> py_isspace c) w1" "list_all (\<lambda>c. \<not> py_isspace c) w2"
    and "py_isspace c"
  shows "py_split_ws (w1 @ c # w2) = [w1, w2]"
proof -
  have "py_split_ws_acc [] (w2 @ []) = py_split_ws_acc (rev w2) []"
    using py_split_ws_acc_word [OF assms(4), of "[]" "[]"] by simp
  then have "py_split_ws_acc [] w2 = [w2]" using assms(2) by simp
  then show ?thesis
    using py_split_ws_acc_word [OF assms(3), of "[]" "c # w2"] assms(1,5)
    by (simp add: py_split_ws_def)
qed

lemma split_first_none: "\<forall>c\<in>set s. \<not> P c \<Longrightarrow> split_first P s = (s, None)"
  by (induction s) auto

lemma set_py_split_ws_acc: "w \<in> set (py_split_ws_acc cur t) \<Longrightarrow> set w \<subseteq> set cur \<union> set t"
  by (induction cur t rule: py_split_ws_acc.induct) (auto split: if_splits)

lemma show_nat_no_slash: "47 \<notin> set (show_nat n)"
  using show_nat_digits [of n] by (auto simp: list_all_iff is_digit_def simp del: show_nat.simps)

lemma py_lower_digits: "list_all is_digit s \<Longrightarrow> py_lower s = s"
  by (induction s) (auto simp: py_lower_def py_lower_char_def is_digit_def)

lemma py_float_show_nat: "py_float (show_nat m) = Some (Fin (of_nat m))"
proof -
  obtain c ds where cd: "show_nat m = c # ds" using show_nat_not_Nil [of m] by (cases "show_nat m") auto
  have dig: "list_all is_digit (show_nat m)" by (rule show_nat_digits)
  have c: "is_digit c" using dig cd by simp
  then have c': "c \<noteq> 45" "c \<noteq> 43" by (auto simp: is_digit_def)
  have low: "py_lower (show_nat m) = show_nat m" using dig by (rule py_lower_digits)
  have notspecial: "show_nat m \<noteq> ustr ''nan''" "show_nat m \<noteq> ustr ''inf''" "show_nat m \<noteq> ustr ''infinity''"
    using dig by (auto simp: ustr_def is_digit_def simp del: show_nat.simps)
  have e: "split_first (\<lambda>c. c = 101 \<or> c = 69) (show_nat m) = (show_nat m, None)"
    using dig by (intro split_first_none) (auto simp: list_all_iff is_digit_def simp del: show_nat.simps)
  have d: "split_first (\<lambda>c. c = 46) (show_nat m) = (show_nat m, None)"
    using dig by (intro split_first_none) (auto simp: list_all_iff is_digit_def simp del: show_nat.simps)
  have "py_float_abs (show_nat m) = Some (Fin (of_nat m))"
    using low notspecial e d digits_ok_show_nat [of m] digits_val_show_nat [of m] show_nat_not_Nil [of m]
    by (simp add: py_float_abs_def dec_val_def Let_def digits_val_def del: show_nat.simps)
  then show ?thesis
    using cd c' py_strip_id [OF show_nat_no_space [of m]] by (simp add: py_float_def del: show_nat.simps)
qed

declare show_nat.simps [simp]

end
