(* ===== verification/Pagination.thy ===== *)
theory Pagination
  imports PyText
begin

text \<open>
  The order list of the bot, \<open>src/tg_bot/bot.py\<close>: \<open>cmd_orders\<close> fetches the user's
  orders, cuts them into pages of three (\<open>split_orders_into_pages\<close>), keeps the pages in
  the module dictionary \<open>user_pages\<close> under the chat id and shows the first;
  \<open>process_orders_pagination\<close> answers the buttons of \<open>create_pagination_keyboard\<close>,
  whose callback data \<open>orders_page_<n>\<close> it parses back with \<open>int(data.split("_")[2])\<close>.
  An order is of any type \<open>'o\<close>; the text of a page is kept as the data it shows.
\<close>

section \<open>Cutting a list into pages\<close>

text \<open>\<open>range(a, b, k)\<close>; a step of 0 raises \<open>ValueError\<close>, handled by the caller.\<close>

function py_range :: "nat \<Rightarrow> nat \<Rightarrow> nat \<Rightarrow> nat list" where
  "py_range a b k = (if 0 < k \<and> a < b then a # py_range (a + k) b k else [])"
  by pat_completeness auto
termination by (relation "measure (\<lambda>(a, b, k). b - a)") auto

declare py_range.simps [simp del]

text \<open>\<open>xs[i:j]\<close> for \<open>0 \<le> i \<le> j\<close>.\<close>

definition slice :: "'a list \<Rightarrow> nat \<Rightarrow> nat \<Rightarrow> 'a list" where
  "slice xs i j = take (j - i) (drop i xs)"

definition split_orders_into_pages :: "'a list \<Rightarrow> nat \<Rightarrow> 'a list list option" where
  "split_orders_into_pages orders k =
     (if orders = [] then Some []
      else if k = 0 then None
      else Some (map (\<lambda>i. slice orders i (i + k)) (py_range 0 (length orders) k)))"

definition orders_per_page :: nat where
  "orders_per_page = 3"

text \<open>The reference: pages taken one after the other from the front of the list.\<close>

function chunks :: "nat \<Rightarrow> 'a list \<Rightarrow> 'a list list" where
  "chunks k xs = (if xs = [] \<or> k = 0 then [] else take k xs # chunks k (drop k xs))"
  by pat_completeness auto
termination by (relation "measure (\<lambda>(k, xs). length xs)") auto

declare chunks.simps [simp del]

section \<open>The keyboard and its callback data\<close>

datatype label = Back_label | Page_label int nat | Forward_label

datatype button = Button label ustr

definition page_data :: "int \<Rightarrow> ustr" where
  "page_data p = ustr ''orders_page_'' @ show_int p"

definition current_page_data :: ustr where
  "current_page_data = ustr ''current_page''"

definition create_pagination_keyboard :: "int \<Rightarrow> nat \<Rightarrow> button list list" where
  "create_pagination_keyboard page tp =
     (if 1 < tp then
        [(if 1 < page then [Button Back_label (page_data (page - 1))] else []) @
         [Button (Page_label page tp) current_page_data] @
         (if page < int tp then [Button Forward_label (page_data (page + 1))] else [])]
      else [])"

text \<open>
  \<open>int(callback.data.split("_")[2])\<close>: \<open>None\<close> when the data has fewer than three
  pieces (\<open>IndexError\<close>) or the third is not an integer (\<open>ValueError\<close>).
\<close>

definition parse_page :: "ustr \<Rightarrow> int option" where
  "parse_page d = (let ps = py_split_sep 95 d in if length ps < 3 then None else py_int (ps ! 2))"

section \<open>The handlers\<close>

record 'o page_state =
  orders_pages :: "'o list list"
  current_page :: int
  total_pages :: nat
  total_orders :: nat

type_synonym 'o user_pages = "tgid \<rightharpoonup> 'o page_state"

text \<open>What \<open>format_orders_page\<close> renders: the orders of the page and the counters.\<close>

datatype 'o page_text = No_orders_on_page | Orders_page "'o list" int nat nat

definition format_orders_page :: "'o list \<Rightarrow> int \<Rightarrow> nat \<Rightarrow> nat \<Rightarrow> 'o page_text" where
  "format_orders_page os page tp n = (if os = [] then No_orders_on_page else Orders_page os page tp n)"

text \<open>
  The bot's answers. \<open>Handler_failed\<close> is an exception escaping the handler: aiogram
  logs it and the user sees nothing.
\<close>

text \<open>\<open>get_status_emoji\<close> and \<open>format_status\<close>, used in the order lines of a page and
  of \<open>/profile\<close>: lookups in a dict literal with \<open>dict.get(status, default)\<close>; an
  unknown status gets the parcel emoji and is shown as it is.\<close>

definition emoji_map :: "(ustr \<times> ustr) list" where
  "emoji_map = [(ustr ''new'', [127381]), (ustr ''in_progress'', [128260]),
                (ustr ''completed'', [9989]), (ustr ''canceled'', [10060])]"

definition get_status_emoji :: "ustr \<Rightarrow> ustr" where
  "get_status_emoji st = (case map_of emoji_map st of Some e \<Rightarrow> e | None \<Rightarrow> [128230])"

definition status_map :: "(ustr \<times> ustr) list" where
  "status_map = [(ustr ''new'', [1053, 1086, 1074, 1099, 1081]),
                 (ustr ''in_progress'', [1042, 32, 1087, 1088, 1086, 1094, 1077, 1089, 1089, 1077]),
                 (ustr ''completed'', [1047, 1072, 1074, 1077, 1088, 1096, 1077, 1085]),
                 (ustr ''canceled'', [1054, 1090, 1084, 1077, 1085, 1077, 1085])]"

definition format_status :: "ustr \<Rightarrow> ustr" where
  "format_status st = (case map_of status_map st of Some l \<Rightarrow> l | None \<Rightarrow> st)"

datatype 'o reply =
    Connection_error | Not_linked | No_orders
  | Show_page "'o page_text" "button list list"
  | Stale_data | Bad_page | Current_page_note | Handler_failed

text \<open>The JSON \<open>make_api_request\<close> returns on status 200: a list, or a dict with \<open>error\<close>.\<close>

datatype 'o json = JList "'o list" | JError ustr

definition json_truthy :: "'o json option \<Rightarrow> bool" where
  "json_truthy r = (case r of None \<Rightarrow> False | Some (JList xs) \<Rightarrow> xs \<noteq> [] | Some (JError _) \<Rightarrow> True)"

definition cmd_orders :: "tgid \<Rightarrow> 'o json option \<Rightarrow> 'o user_pages \<Rightarrow> 'o reply \<times> 'o user_pages" where
  "cmd_orders tg resp up =
     (if \<not> json_truthy resp then (Connection_error, up)
      else case resp of
        Some (JError e) \<Rightarrow> (Not_linked, up)
      | Some (JList os) \<Rightarrow>
          if os = [] then (No_orders, up)
          else (case split_orders_into_pages os orders_per_page of
                  None \<Rightarrow> (Handler_failed, up)
                | Some pages \<Rightarrow>
                    (Show_page (format_orders_page (pages ! 0) 1 (length pages) (length os))
                       (create_pagination_keyboard 1 (length pages)),
                     up(tg \<mapsto> \<lparr>orders_pages = pages, current_page = 1, total_pages = length pages,
                               total_orders = length os\<rparr>)))
      | None \<Rightarrow> (Connection_error, up))"

definition process_orders_pagination :: "tgid \<Rightarrow> ustr \<Rightarrow> 'o user_pages \<Rightarrow> 'o reply \<times> 'o user_pages" where
  "process_orders_pagination tg d up =
     (case parse_page d of
        None \<Rightarrow> (Handler_failed, up)
      | Some page \<Rightarrow>
          (case up tg of
             None \<Rightarrow> (Stale_data, up)
           | Some st \<Rightarrow>
               if page < 1 \<or> page > int (total_pages st) then (Bad_page, up)
               else (Show_page (format_orders_page (orders_pages st ! nat (page - 1)) page (total_pages st)
                                  (total_orders st))
                       (create_pagination_keyboard page (total_pages st)),
                     up(tg \<mapsto> st\<lparr>current_page := page\<rparr>))))"

definition process_current_page :: "'o user_pages \<Rightarrow> 'o reply \<times> 'o user_pages" where
  "process_current_page up = (Current_page_note, up)"

section \<open>Pages: equivalence with the reference, round trip, bounds\<close>

lemma chunks_Nil [simp]: "chunks k [] = []"
  by (simp add: chunks.simps)

lemma chunks_Cons: "xs \<noteq> [] \<Longrightarrow> 0 < k \<Longrightarrow> chunks k xs = take k xs # chunks k (drop k xs)"
  by (simp add: chunks.simps)

lemma py_range_pages:
  "0 < k \<Longrightarrow> map (\<lambda>i. slice xs i (i + k)) (py_range a (length xs) k) = chunks k (drop a xs)"
proof (induction a "length xs" k rule: py_range.induct)
  case (1 a k)
  show ?case
  proof (cases "a < length xs")
    case True
    then have "drop a xs \<noteq> []" by simp
    with True 1 show ?thesis
      by (simp add: py_range.simps [of a] chunks_Cons slice_def add.commute)
  next
    case False
    then show ?thesis by (simp add: py_range.simps [of a])
  qed
qed

lemma split_orders_into_pages_chunks:
  "0 < k \<Longrightarrow> split_orders_into_pages xs k = Some (chunks k xs)"
  using py_range_pages [of k xs 0] by (simp add: split_orders_into_pages_def)

lemma concat_chunks: "0 < k \<Longrightarrow> concat (chunks k xs) = xs"
proof (induction k xs rule: chunks.induct)
  case (1 k xs)
  then show ?case by (cases "xs = []") (simp_all add: chunks_Cons)
qed

lemma chunks_bounds: "p \<in> set (chunks k xs) \<Longrightarrow> p \<noteq> [] \<and> length p \<le> k"
proof (induction k xs rule: chunks.induct)
  case (1 k xs)
  show ?case
  proof (cases "xs = [] \<or> k = 0")
    case True with 1 show ?thesis by (auto simp: chunks.simps)
  next
    case False with 1 show ?thesis by (auto simp: chunks_Cons)
  qed
qed

lemma length_chunks: "0 < k \<Longrightarrow> length (chunks k xs) = (length xs + k - 1) div k"
proof (induction k xs rule: chunks.induct)
  case (1 k xs)
  show ?case
  proof (cases "xs = []")
    case True then show ?thesis using 1 by simp
  next
    case False
    then have e: "length xs + k - 1 = (length xs - 1) + k" by (cases xs) auto
    have d: "(length xs + k - 1) div k = Suc ((length xs - 1) div k)"
      unfolding e using \<open>0 < k\<close> by simp
    have c: "chunks k xs = take k xs # chunks k (drop k xs)"
      using False \<open>0 < k\<close> by (rule chunks_Cons)
    show ?thesis
    proof (cases "k \<le> length xs")
      case True
      have "length (chunks k (drop k xs)) = (length xs - k + k - 1) div k"
        using 1 False by simp
      also have "length xs - k + k - 1 = length xs - 1" using True by simp
      finally show ?thesis using c d by simp
    next
      case nk: False
      then have "drop k xs = []" by simp
      moreover have "(length xs - 1) div k = 0" using nk by simp
      ultimately show ?thesis using c d by simp
    qed
  qed
qed

lemma chunks_ne: "chunks k xs \<noteq> [] \<Longrightarrow> xs \<noteq> [] \<and> 0 < k"
  by (cases "xs = [] \<or> k = 0") (auto simp: chunks.simps)

lemma nth_chunks: "0 < k \<Longrightarrow> j < length (chunks k xs) \<Longrightarrow> chunks k xs ! j = take k (drop (j * k) xs)"
proof (induction k xs arbitrary: j rule: chunks.induct)
  case (1 k xs)
  then have ne: "xs \<noteq> []" using chunks_ne [of k xs] by fastforce
  then have c: "chunks k xs = take k xs # chunks k (drop k xs)" using 1 by (simp add: chunks_Cons)
  show ?case
  proof (cases j)
    case 0 with c show ?thesis by simp
  next
    case (Suc j')
    with 1 c ne have "chunks k (drop k xs) ! j' = take k (drop (j' * k) (drop k xs))" by simp
    with c Suc show ?thesis by (simp add: add.commute)
  qed
qed

lemma full_chunks: "0 < k \<Longrightarrow> Suc j < length (chunks k xs) \<Longrightarrow> length (chunks k xs ! j) = k"
proof (induction k xs arbitrary: j rule: chunks.induct)
  case (1 k xs)
  then have ne: "xs \<noteq> []" using chunks_ne [of k xs] by fastforce
  then have c: "chunks k xs = take k xs # chunks k (drop k xs)" using 1 by (simp add: chunks_Cons)
  with 1 have "chunks k (drop k xs) \<noteq> []" by auto
  then have "drop k xs \<noteq> []" using chunks_ne by blast
  then have kl: "k \<le> length xs" by simp
  show ?case
  proof (cases j)
    case 0 with c kl show ?thesis by simp
  next
    case (Suc j')
    with 1 c ne show ?thesis by simp
  qed
qed

definition page_ok :: "'o page_state \<Rightarrow> bool" where
  "page_ok st \<longleftrightarrow>
     orders_pages st \<noteq> [] \<and> list_all (\<lambda>p. p \<noteq> [] \<and> length p \<le> orders_per_page) (orders_pages st) \<and>
     total_pages st = length (orders_pages st) \<and> total_orders st = length (concat (orders_pages st)) \<and>
     orders_pages st = chunks orders_per_page (concat (orders_pages st)) \<and>
     1 \<le> current_page st \<and> current_page st \<le> int (total_pages st)"

datatype 'o page_event = Orders_cmd tgid "'o json option" | Page_click tgid ustr | Current_click

fun page_step :: "'o page_event \<Rightarrow> 'o user_pages \<Rightarrow> 'o reply \<times> 'o user_pages" where
  "page_step (Orders_cmd tg r) up = cmd_orders tg r up"
| "page_step (Page_click tg d) up = process_orders_pagination tg d up"
| "page_step Current_click up = process_current_page up"

inductive page_reach :: "'o user_pages \<Rightarrow> bool" where
  empty: "page_reach Map.empty"
| step: "page_reach up \<Longrightarrow> page_reach (snd (page_step e up))"

text \<open>
  C18. split_orders_into_pages, a loop over range(0, len, k) taking slices, equals the
  reference chunks: pages of k taken from the front; with k = 0 and a non-empty list it
  fails, as range with step 0 raises.
\<close>

theorem split_orders_into_pages_is_chunks:
  "split_orders_into_pages xs k = (if k = 0 \<and> xs \<noteq> [] then None else Some (chunks k xs))"
proof (cases "k = 0")
  case True then show ?thesis by (simp add: split_orders_into_pages_def chunks.simps)
next
  case False
  then show ?thesis using py_range_pages [of k xs 0] by (simp add: split_orders_into_pages_def)
qed

lemma split_pages: "split_orders_into_pages xs orders_per_page = Some (chunks orders_per_page xs)"
  using py_range_pages [of orders_per_page xs 0]
  by (simp add: split_orders_into_pages_def orders_per_page_def)

text \<open>
  C19. Concatenating the pages of an order list gives the list back: no order is lost,
  repeated or moved.
\<close>

theorem pages_concat_roundtrip:
  assumes "split_orders_into_pages xs orders_per_page = Some ps"
  shows "concat ps = xs"
  using assms split_pages [of xs] concat_chunks [of orders_per_page xs]
  by (simp add: orders_per_page_def)

theorem pages_concat_roundtrip_witness:
  "split_orders_into_pages [1::nat, 2, 3, 4, 5] orders_per_page = Some [[1, 2, 3], [4, 5]] \<and>
   concat [[1::nat, 2, 3], [4, 5]] = [1, 2, 3, 4, 5]"
proof -
  have s: "split_orders_into_pages [1::nat, 2, 3, 4, 5] orders_per_page = Some [[1, 2, 3], [4, 5]]"
  proof -
    have r: "py_range 0 (Suc (Suc (Suc (Suc (Suc 0))))) 3 = [0, 3]" by (simp add: py_range.simps)
    show ?thesis by (simp add: split_orders_into_pages_def orders_per_page_def slice_def r)
  qed
  show ?thesis using s pages_concat_roundtrip [OF s] by simp
qed

lemma page_ok_new:
  assumes "os \<noteq> []"
  shows "page_ok \<lparr>orders_pages = chunks orders_per_page os, current_page = 1,
     total_pages = length (chunks orders_per_page os), total_orders = length os\<rparr>"
proof -
  have k: "0 < orders_per_page" by (simp add: orders_per_page_def)
  have ne: "chunks orders_per_page os \<noteq> []" using chunks_Cons [OF assms k] by simp
  have b: "list_all (\<lambda>p. p \<noteq> [] \<and> length p \<le> orders_per_page) (chunks orders_per_page os)"
    unfolding list_all_iff using chunks_bounds by blast
  have c: "length os = length (concat (chunks orders_per_page os))" by (simp only: concat_chunks [OF k])
  from ne have "1 \<le> int (length (chunks orders_per_page os))" by (cases "chunks orders_per_page os") auto
  moreover have "chunks orders_per_page os = chunks orders_per_page (concat (chunks orders_per_page os))"
    by (simp only: concat_chunks [OF k])
  ultimately show ?thesis using ne b c by (simp add: page_ok_def)
qed

section \<open>Callback data, keyboard and the reachable states\<close>

text \<open>
  C21. The callback data orders_page_<p> the keyboard writes is parsed back by
  int(data.split("_")[2]) to p, for every integer p.
\<close>

theorem parse_page_roundtrip: "parse_page (page_data p) = Some p"
proof -
  have n: "95 \<notin> set (show_int p)" using show_int_no_sep [of 95 p] by (auto simp: is_digit_def)
  have "py_split_sep 95 (show_int p) = [show_int p]" by (rule py_split_sep_no_sep [OF n])
  then show ?thesis by (simp add: parse_page_def page_data_def ustr_def py_int_show_int)
qed

text \<open>
  From a page p within 1..total, every button of the keyboard is the current-page
  button or leads, after parsing, to page p - 1 or p + 1, again within 1..total.
\<close>

theorem pagination_keyboard_targets:
  assumes "1 \<le> page" "page \<le> int tp"
    and "row \<in> set (create_pagination_keyboard page tp)" "Button l d \<in> set row"
  shows "d = current_page_data \<or>
         (\<exists>q. parse_page d = Some q \<and> 1 \<le> q \<and> q \<le> int tp \<and> (q = page - 1 \<or> q = page + 1))"
  using assms by (auto simp: create_pagination_keyboard_def parse_page_roundtrip split: if_splits)

definition pages_inv :: "'o user_pages \<Rightarrow> bool" where
  "pages_inv up \<longleftrightarrow> (\<forall>tg st. up tg = Some st \<longrightarrow> page_ok st)"

lemma cmd_orders_cases:
  assumes "cmd_orders tg r up = (rep, up')"
  shows "up' = up \<or> (\<exists>os. os \<noteq> [] \<and> up' = up(tg \<mapsto> \<lparr>orders_pages = chunks orders_per_page os, current_page = 1,
            total_pages = length (chunks orders_per_page os), total_orders = length os\<rparr>))"
proof (cases "json_truthy r")
  case False
  with assms show ?thesis by (simp add: cmd_orders_def)
next
  case True
  then obtain j where r: "r = Some j" by (cases r) (auto simp: json_truthy_def)
  show ?thesis
  proof (cases j)
    case (JError e)
    with assms r True show ?thesis by (simp add: cmd_orders_def)
  next
    case (JList os)
    with r True have "os \<noteq> []" by (simp add: json_truthy_def)
    with assms r True JList show ?thesis by (auto simp: cmd_orders_def split_pages)
  qed
qed

lemma process_orders_pagination_cases:
  assumes "process_orders_pagination tg d up = (rep, up')"
  shows "up' = up \<or> (\<exists>st p. up tg = Some st \<and> 1 \<le> p \<and> p \<le> int (total_pages st) \<and>
                              up' = up(tg \<mapsto> st\<lparr>current_page := p\<rparr>))"
proof (cases "parse_page d")
  case None
  with assms show ?thesis by (simp add: process_orders_pagination_def)
next
  case (Some p)
  show ?thesis
  proof (cases "up tg")
    case None
    with assms Some show ?thesis by (simp add: process_orders_pagination_def)
  next
    case (Some st)
    show ?thesis
    proof (cases "p < 1 \<or> p > int (total_pages st)")
      case True
      with assms \<open>parse_page d = Some p\<close> Some show ?thesis by (simp add: process_orders_pagination_def)
    next
      case False
      with assms \<open>parse_page d = Some p\<close> Some have "up' = up(tg \<mapsto> st\<lparr>current_page := p\<rparr>)"
        by (simp add: process_orders_pagination_def)
      moreover have "1 \<le> p" "p \<le> int (total_pages st)" using False by auto
      ultimately show ?thesis using Some by blast
    qed
  qed
qed

lemma page_ok_current: "page_ok st \<Longrightarrow> 1 \<le> p \<Longrightarrow> p \<le> int (total_pages st) \<Longrightarrow> page_ok (st\<lparr>current_page := p\<rparr>)"
  by (simp add: page_ok_def)

lemma pages_inv_upd: "pages_inv up \<Longrightarrow> page_ok st \<Longrightarrow> pages_inv (up(tg \<mapsto> st))"
  by (simp add: pages_inv_def)

lemma pages_inv_step: "pages_inv up \<Longrightarrow> pages_inv (snd (page_step e up))"
proof (cases e)
  case (Orders_cmd tg r)
  assume i: "pages_inv up"
  obtain rep up' where q: "cmd_orders tg r up = (rep, up')" by fastforce
  from cmd_orders_cases [OF q] i page_ok_new have "pages_inv up'" by (auto intro: pages_inv_upd)
  with q Orders_cmd show ?thesis by simp
next
  case (Page_click tg d)
  assume i: "pages_inv up"
  obtain rep up' where q: "process_orders_pagination tg d up = (rep, up')" by fastforce
  from process_orders_pagination_cases [OF q] i have "pages_inv up'"
    by (auto simp: pages_inv_def intro!: page_ok_current split: if_splits)
  with q Page_click show ?thesis by simp
next
  case Current_click
  then show "pages_inv up \<Longrightarrow> ?thesis" by (simp add: process_current_page_def)
qed

text \<open>
  C23. In every state of user_pages reachable from the empty dictionary by /orders
  commands and button presses, each stored entry has non-empty pages of at most three
  orders that are the chunks of their concatenation, counters that match, and a current
  page within 1..total.
\<close>

theorem page_reach_page_ok:
  assumes "page_reach up" "up tg = Some st"
  shows "page_ok st"
proof -
  from assms(1) have "pages_inv up"
  proof (induction rule: page_reach.induct)
    case empty then show ?case by (simp add: pages_inv_def)
  next
    case (step up e) from step.IH show ?case by (rule pages_inv_step)
  qed
  with assms(2) show ?thesis by (simp add: pages_inv_def)
qed

text \<open>
  C24. In a reachable state, pressing a page button of the keyboard shown for the current
  page displays page q, whose orders are the q-th slice of three of the order list, and
  records q as the current page.
\<close>

theorem pagination_click_shows_slice:
  assumes "page_reach up" "up tg = Some st"
    and "row \<in> set (create_pagination_keyboard (current_page st) (total_pages st))"
    and "Button l d \<in> set row" "d \<noteq> current_page_data"
  shows "\<exists>q. 1 \<le> q \<and> q \<le> int (total_pages st) \<and>
           process_orders_pagination tg d up =
             (Show_page (Orders_page (take orders_per_page (drop (nat (q - 1) * orders_per_page)
                                        (concat (orders_pages st))))
                           q (total_pages st) (total_orders st))
                (create_pagination_keyboard q (total_pages st)),
              up(tg \<mapsto> st\<lparr>current_page := q\<rparr>))"
proof -
  have ok: "page_ok st" using page_reach_page_ok [OF assms(1,2)] .
  then have cp: "1 \<le> current_page st" "current_page st \<le> int (total_pages st)"
    by (simp_all add: page_ok_def)
  obtain q where q: "parse_page d = Some q" "1 \<le> q" "q \<le> int (total_pages st)"
    using pagination_keyboard_targets [OF cp assms(3,4)] assms(5) by blast
  let ?ps = "orders_pages st"
  have n: "nat (q - 1) < length ?ps" using q ok by (simp add: page_ok_def)
  have ch: "?ps = chunks orders_per_page (concat ?ps)" using ok by (simp add: page_ok_def)
  have k: "0 < orders_per_page" by (simp add: orders_per_page_def)
  have nth: "?ps ! nat (q - 1) = take orders_per_page (drop (nat (q - 1) * orders_per_page) (concat ?ps))"
    using nth_chunks [OF k, of "nat (q - 1)" "concat ?ps"] n ch by simp
  have ne: "?ps ! nat (q - 1) \<noteq> []"
    using ok n by (simp add: page_ok_def list_all_length)
  have "process_orders_pagination tg d up =
          (Show_page (format_orders_page (?ps ! nat (q - 1)) q (total_pages st) (total_orders st))
             (create_pagination_keyboard q (total_pages st)),
           up(tg \<mapsto> st\<lparr>current_page := q\<rparr>))"
    using q assms(2) by (simp add: process_orders_pagination_def)
  with ne nth q show ?thesis by (auto simp: format_orders_page_def)
qed

definition demo_orders :: "nat list" where
  "demo_orders = [1, 2, 3, 4, 5]"

definition demo_pages :: "nat user_pages" where
  "demo_pages = snd (page_step (Orders_cmd (ustr ''555'') (Some (JList demo_orders))) Map.empty)"

lemma demo_pages_eq:
  "demo_pages = [ustr ''555'' \<mapsto> \<lparr>orders_pages = [[1, 2, 3], [4, 5]], current_page = 1, total_pages = 2,
                                   total_orders = 5\<rparr>]"
proof -
  have r: "py_range 0 (Suc (Suc (Suc (Suc (Suc 0))))) (Suc (Suc (Suc 0))) = [0, Suc (Suc (Suc 0))]"
    by (simp add: py_range.simps)
  show ?thesis
    by (simp add: demo_pages_def demo_orders_def cmd_orders_def json_truthy_def
        split_orders_into_pages_def orders_per_page_def slice_def r eval_nat_numeral)
qed

theorem pagination_click_shows_slice_witness:
  "process_orders_pagination (ustr ''555'') (page_data 2) demo_pages =
     (Show_page (Orders_page [4, 5] 2 2 5) (create_pagination_keyboard 2 2),
      demo_pages(ustr ''555'' \<mapsto> \<lparr>orders_pages = [[1, 2, 3], [4, 5]], current_page = 2, total_pages = 2,
                                     total_orders = 5\<rparr>))"
proof -
  have reach: "page_reach demo_pages"
    unfolding demo_pages_def by (rule page_reach.step [OF page_reach.empty])
  have st: "demo_pages (ustr ''555'') = Some \<lparr>orders_pages = [[1::nat, 2, 3], [4, 5]], current_page = 1,
              total_pages = 2, total_orders = 5\<rparr>"
    by (simp add: demo_pages_eq)
  have row: "[Button (Page_label 1 2) current_page_data, Button Forward_label (page_data 2)] \<in>
               set (create_pagination_keyboard
                 (current_page \<lparr>orders_pages = [[1::nat, 2, 3], [4, 5]], current_page = 1, total_pages = 2,
                                total_orders = 5\<rparr>)
                 (total_pages \<lparr>orders_pages = [[1::nat, 2, 3], [4, 5]], current_page = 1, total_pages = 2,
                                total_orders = 5\<rparr>))"
    by (simp add: create_pagination_keyboard_def)
  have d: "page_data 2 \<noteq> current_page_data"
    by (simp add: page_data_def current_page_data_def ustr_def)
  from pagination_click_shows_slice [OF reach st row _ d]
  obtain q where "1 \<le> q" "q \<le> 2" and
    e: "process_orders_pagination (ustr ''555'') (page_data 2) demo_pages =
        (Show_page (Orders_page (take orders_per_page (drop (nat (q - 1) * orders_per_page) [1, 2, 3, 4, 5]))
                      q 2 5) (create_pagination_keyboard q 2),
         demo_pages(ustr ''555'' \<mapsto> \<lparr>orders_pages = [[1, 2, 3], [4, 5]], current_page = q, total_pages = 2,
                                        total_orders = 5\<rparr>))"
    by auto
  moreover have "q = 2"
  proof -
    have "fst (process_orders_pagination (ustr ''555'') (page_data 2) demo_pages) \<noteq> Bad_page" using e by simp
    have "parse_page (page_data 2) = Some 2" by (rule parse_page_roundtrip)
    then have "snd (process_orders_pagination (ustr ''555'') (page_data 2) demo_pages) (ustr ''555'') =
                 Some \<lparr>orders_pages = [[1, 2, 3], [4, 5]], current_page = 2, total_pages = 2, total_orders = 5\<rparr>"
      using st by (simp add: process_orders_pagination_def)
    with e show ?thesis by simp
  qed
  ultimately show ?thesis by (simp add: orders_per_page_def)
qed

text \<open>
  C20. Every page holds between one and three orders, every page but the last holds
  exactly three, and there are ceil(n / 3) pages for n orders.
\<close>

theorem pages_bounds:
  assumes "split_orders_into_pages xs orders_per_page = Some ps"
  shows "list_all (\<lambda>p. p \<noteq> [] \<and> length p \<le> orders_per_page) ps \<and>
         length ps = (length xs + orders_per_page - 1) div orders_per_page \<and>
         (\<forall>j. Suc j < length ps \<longrightarrow> length (ps ! j) = orders_per_page)"
proof -
  have k: "0 < orders_per_page" by (simp add: orders_per_page_def)
  have ps: "ps = chunks orders_per_page xs" using assms split_pages [of xs] by simp
  show ?thesis
    unfolding ps list_all_iff
    using chunks_bounds length_chunks [OF k] full_chunks [OF k] by blast
qed

theorem pages_bounds_witness:
  "split_orders_into_pages [1::nat, 2, 3, 4, 5] orders_per_page = Some [[1, 2, 3], [4, 5]] \<and>
   length [[1::nat, 2, 3], [4, 5]] = (5 + orders_per_page - 1) div orders_per_page"
proof -
  have r: "py_range 0 (Suc (Suc (Suc (Suc (Suc 0))))) 3 = [0, 3]" by (simp add: py_range.simps)
  have s: "split_orders_into_pages [1::nat, 2, 3, 4, 5] orders_per_page = Some [[1, 2, 3], [4, 5]]"
    by (simp add: split_orders_into_pages_def orders_per_page_def slice_def r)
  show ?thesis using s pages_bounds [OF s] by (simp add: orders_per_page_def)
qed

theorem pagination_keyboard_targets_witness:
  "page_data 2 = current_page_data \<or>
   (\<exists>q. parse_page (page_data 2) = Some q \<and> 1 \<le> q \<and> q \<le> int 2 \<and> (q = 1 - 1 \<or> q = 1 + 1))"
proof -
  have row: "[Button (Page_label 1 2) current_page_data, Button Forward_label (page_data 2)] \<in>
               set (create_pagination_keyboard 1 2)"
    by (simp add: create_pagination_keyboard_def)
  show ?thesis
    using pagination_keyboard_targets [where page = 1 and tp = 2 and l = Forward_label and d = "page_data 2",
        OF _ _ row] by simp
qed

theorem page_reach_page_ok_witness:
  "page_ok \<lparr>orders_pages = [[1::nat, 2, 3], [4, 5]], current_page = 1, total_pages = 2, total_orders = 5\<rparr>"
proof -
  have reach: "page_reach demo_pages"
    unfolding demo_pages_def by (rule page_reach.step [OF page_reach.empty])
  have st: "demo_pages (ustr ''555'') = Some \<lparr>orders_pages = [[1::nat, 2, 3], [4, 5]], current_page = 1,
              total_pages = 2, total_orders = 5\<rparr>"
    by (simp add: demo_pages_eq)
  show ?thesis using page_reach_page_ok [OF reach st] .
qed

text \<open>
  C25. A page press with no stored pages (after a restart) or with a page outside 1..total
  is answered with a notice and leaves user_pages unchanged.
\<close>

theorem pagination_rejects_without_change:
  assumes "up tg = None \<or> (\<exists>st. up tg = Some st \<and> (p < 1 \<or> p > int (total_pages st)))"
  shows "process_orders_pagination tg (page_data p) up = (if up tg = None then Stale_data else Bad_page, up)"
  using assms by (auto simp: process_orders_pagination_def parse_page_roundtrip)

theorem pagination_rejects_without_change_witness:
  "process_orders_pagination (ustr ''555'') (page_data 3) demo_pages = (Bad_page, demo_pages)"
proof -
  have h: "demo_pages (ustr ''555'') = None \<or>
           (\<exists>st. demo_pages (ustr ''555'') = Some st \<and> (3 < 1 \<or> 3 > int (total_pages st)))"
    by (simp add: demo_pages_eq)
  show ?thesis
    using pagination_rejects_without_change [where up = demo_pages and tg = "ustr ''555''" and p = 3, OF h]
    by (simp add: demo_pages_eq)
qed

text \<open>
  C26. /orders never answers "no orders yet": an empty order list is falsy and is reported
  as a connection error, so the dedicated branch is unreachable.
\<close>

theorem cmd_orders_empty_is_connection_error:
  "cmd_orders tg (Some (JList [])) up = (Connection_error, up) \<and> fst (cmd_orders tg resp up) \<noteq> No_orders"
proof
  show "cmd_orders tg (Some (JList [])) up = (Connection_error, up)"
    by (simp add: cmd_orders_def json_truthy_def)
  show "fst (cmd_orders tg resp up) \<noteq> No_orders"
    by (auto simp: cmd_orders_def json_truthy_def split: option.split json.split)
qed

end
