(* ===== verification/Bot.thy ===== *)
theory Bot
  imports Telegram Pagination
begin

text \<open>
  The conversation engine of the bot (\<open>src/tg_bot/bot.py\<close>): the order-creation dialogue
  of \<open>CreateOrderStates\<close> with its per-user FSM state and data, the command and
  callback handlers, and the dispatcher that tries them in the order they are registered.
  The backend is reached only through \<open>bot_api\<close>, one function per endpoint the bot
  calls, over an abstract backend state \<open>'s\<close>; every handler threads that state, so
  the properties of this theory hold whatever the backend answers, and the theory
  \<open>System\<close> instantiates the interface with the backend model. A response is what
  \<open>make_api_request\<close> returns: \<open>None\<close> for any status other than 200/201 or a
  transport failure, otherwise the decoded JSON, a success body or a dict with an
  \<open>error\<close> key.
\<close>

section \<open>Conversation state\<close>

datatype fsm_state =
    Choosing_product_type | Waiting_for_product_name | Waiting_for_quantity | Waiting_for_price
  | Waiting_for_description | Waiting_for_confirmation | Selecting_existing_product

text \<open>The FSM data dict; a key that was never set is \<open>None\<close>.\<close>

record fsm_data =
  fd_name :: "ustr option"
  fd_price :: "pyfloat option"
  fd_desc :: "ustr option"
  fd_existing :: "bool option"
  fd_qty :: "int option"
  fd_total :: "pyfloat option"

definition no_data :: fsm_data where
  "no_data = \<lparr>fd_name = None, fd_price = None, fd_desc = None, fd_existing = None, fd_qty = None,
              fd_total = None\<rparr>"

text \<open>The bot process: the FSM storage and the module-level dicts \<open>user_pages\<close> and
  \<open>user_products\<close>.\<close>

record bot_state =
  b_fsm :: "tgid \<Rightarrow> fsm_state option"
  b_data :: "tgid \<Rightarrow> fsm_data"
  b_pages :: "order_json user_pages"
  b_products :: "tgid \<rightharpoonup> (pid \<times> product_row) json"

definition bot_init :: bot_state where
  "bot_init = \<lparr>b_fsm = (\<lambda>_. None), b_data = (\<lambda>_. no_data), b_pages = Map.empty, b_products = Map.empty\<rparr>"

definition set_fsm :: "tgid \<Rightarrow> fsm_state option \<Rightarrow> bot_state \<Rightarrow> bot_state" where
  "set_fsm tg st b = b\<lparr>b_fsm := (b_fsm b)(tg := st)\<rparr>"

definition upd_data :: "tgid \<Rightarrow> (fsm_data \<Rightarrow> fsm_data) \<Rightarrow> bot_state \<Rightarrow> bot_state" where
  "upd_data tg f b = b\<lparr>b_data := (b_data b)(tg := f (b_data b tg))\<rparr>"

text \<open>\<open>state.clear()\<close>: no state and an empty data dict.\<close>

definition clear_fsm :: "tgid \<Rightarrow> bot_state \<Rightarrow> bot_state" where
  "clear_fsm tg b = b\<lparr>b_fsm := (b_fsm b)(tg := None), b_data := (b_data b)(tg := no_data)\<rparr>"

section \<open>The backend as the bot sees it\<close>

text \<open>A JSON object answer: the endpoint's success body, or a dict with an \<open>error\<close> key.\<close>

datatype 'v jresp = JOk 'v | JErr ustr

text \<open>The body of \<open>POST /api/telegram/create-order\<close> built by \<open>process_order_confirmation\<close>;
  \<open>pi_desc = None\<close> is an item without a \<open>description\<close> key.\<close>

record order_item_payload =
  pi_name :: ustr
  pi_qty :: int
  pi_price :: pyfloat
  pi_total :: pyfloat
  pi_desc :: "ustr option"

record order_payload =
  op_tg :: tgid
  op_items :: "order_item_payload list"
  op_total :: pyfloat

record 's bot_api =
  api_link :: "ustr \<Rightarrow> tgid \<Rightarrow> 's \<Rightarrow> ustr jresp option \<times> 's"
  api_user_info :: "tgid \<Rightarrow> 's \<Rightarrow> user_info jresp option \<times> 's"
  api_products :: "tgid \<Rightarrow> 's \<Rightarrow> (pid \<times> product_row) json option \<times> 's"
  api_create :: "order_payload \<Rightarrow> 's \<Rightarrow> oid jresp option \<times> 's"
  api_orders :: "tgid \<Rightarrow> 's \<Rightarrow> order_json json option \<times> 's"

section \<open>Replies\<close>

text \<open>The message a handler sends, by its content (the HTML layout is not modelled).
  \<open>Failed\<close> is a handler that raised (a \<open>KeyError\<close> on the data dict, a
  \<open>ValueError\<close> of \<open>int()\<close> outside a \<open>try\<close>, a \<open>TypeError\<close>): aiogram logs it and
  nothing is sent. \<open>Unhandled\<close> is an update no handler's filters accept.\<close>

datatype failure = Server_said ustr | Connection_failed

datatype bot_reply =
    Welcome | Help | Link_usage | Linked ustr | Link_failed failure
  | Not_linked_reply | Choose_product_type | No_products
  | Product_list "(ustr \<times> money \<times> pid) list" | Product_not_found | Product_chosen ustr money
  | Enter_name | Enter_quantity ustr | Quantity_not_positive | Quantity_not_int
  | Enter_price ustr int | Price_not_positive | Price_not_number
  | Enter_description ustr int pyfloat
  | Confirm ustr int pyfloat "ustr option" pyfloat
  | Order_placed oid ustr int pyfloat "ustr option" pyfloat | Order_failed failure
  | Order_cancelled | Pages "order_json reply"
  | Profile ustr ustr ustr nat money "(oid \<times> money \<times> ustr \<times> (ustr \<times> int \<times> money \<times> money) list \<times> nat) list"
  | Conn_error | Only_commands | Unhandled | Failed

section \<open>Command handlers\<close>

text \<open>\<open>cmd_link\<close>: \<open>message.text.split()\<close>, the code is the second word.\<close>

definition cmd_link :: "'s bot_api \<Rightarrow> tgid \<Rightarrow> ustr \<Rightarrow> bot_state \<Rightarrow> 's \<Rightarrow> bot_reply \<times> bot_state \<times> 's" where
  "cmd_link api tg text b s =
     (case py_split_ws text of
        _ # tok # _ \<Rightarrow>
          (case api_link api tok tg s of
             (Some (JOk e), s') \<Rightarrow> (Linked e, b, s')
           | (Some (JErr m), s') \<Rightarrow> (Link_failed (Server_said m), b, s')
           | (None, s') \<Rightarrow> (Link_failed Connection_failed, b, s'))
      | _ \<Rightarrow> (Link_usage, b, s))"

text \<open>\<open>cmd_create_order\<close>: the user must be linked; the product list is cached in
  \<open>user_products\<close> (a falsy answer as \<open>[]\<close>); the data dict is not cleared.\<close>

definition cmd_create_order :: "'s bot_api \<Rightarrow> tgid \<Rightarrow> bot_state \<Rightarrow> 's \<Rightarrow> bot_reply \<times> bot_state \<times> 's" where
  "cmd_create_order api tg b s =
     (case api_user_info api tg s of
        (Some (JOk _), s1) \<Rightarrow>
          (case api_products api tg s1 of
             (r, s2) \<Rightarrow>
               (Choose_product_type,
                set_fsm tg (Some Choosing_product_type)
                  (b\<lparr>b_products := (b_products b)(tg \<mapsto> (if json_truthy r then the r else JList []))\<rparr>),
                s2))
      | (_, s1) \<Rightarrow> (Not_linked_reply, b, s1))"

definition cached_products :: "tgid \<Rightarrow> bot_state \<Rightarrow> (pid \<times> product_row) json" where
  "cached_products tg b = (case b_products b tg of None \<Rightarrow> JList [] | Some p \<Rightarrow> p)"

text \<open>\<open>process_select_existing\<close>: at most ten product buttons; a cached error dict
  cannot be sliced.\<close>

definition process_select_existing :: "tgid \<Rightarrow> bot_state \<Rightarrow> bot_reply \<times> bot_state" where
  "process_select_existing tg b =
     (let ps = cached_products tg b in
      if \<not> json_truthy (Some ps) then (No_products, set_fsm tg (Some Choosing_product_type) b)
      else case ps of
        JList l \<Rightarrow> (Product_list (map (\<lambda>(i, p). (p_name p, p_price p, i)) (take 10 l)),
                    set_fsm tg (Some Selecting_existing_product) b)
      | JError _ \<Rightarrow> (Failed, b))"

text \<open>\<open>process_product_selection\<close>: \<open>int(callback.data.split("_")[1])\<close>, then the first
  cached product with that id.\<close>

definition process_product_selection :: "tgid \<Rightarrow> ustr \<Rightarrow> bot_state \<Rightarrow> bot_reply \<times> bot_state" where
  "process_product_selection tg d b =
     (case py_int (py_split_sep 95 d ! 1) of
        None \<Rightarrow> (Failed, b)
      | Some k \<Rightarrow>
          (case cached_products tg b of
             JError _ \<Rightarrow> (Failed, b)
           | JList l \<Rightarrow>
               (case find (\<lambda>(i, p). int i = k) l of
                  None \<Rightarrow> (Product_not_found, b)
                | Some (i, p) \<Rightarrow>
                    (Product_chosen (p_name p) (p_price p),
                     set_fsm tg (Some Waiting_for_quantity)
                       (upd_data tg (\<lambda>d. d\<lparr>fd_name := Some (p_name p), fd_price := Some (Fin (p_price p)),
                                            fd_desc := Some (p_description p), fd_existing := Some True\<rparr>) b)))))"

definition process_back_to_choice :: "tgid \<Rightarrow> bot_state \<Rightarrow> bot_reply \<times> bot_state" where
  "process_back_to_choice tg b = (Choose_product_type, set_fsm tg (Some Choosing_product_type) b)"

definition process_create_new :: "tgid \<Rightarrow> bot_state \<Rightarrow> bot_reply \<times> bot_state" where
  "process_create_new tg b = (Enter_name, set_fsm tg (Some Waiting_for_product_name) b)"

definition process_product_name :: "tgid \<Rightarrow> ustr \<Rightarrow> bot_state \<Rightarrow> bot_reply \<times> bot_state" where
  "process_product_name tg text b =
     (Enter_quantity text,
      set_fsm tg (Some Waiting_for_quantity)
        (upd_data tg (\<lambda>d. d\<lparr>fd_name := Some text, fd_existing := Some False\<rparr>) b))"

text \<open>\<open>process_quantity\<close>: \<open>update_data\<close> runs before the reply reads
  \<open>data['product_name']\<close>, so a missing name fails after the update.\<close>

definition process_quantity :: "tgid \<Rightarrow> ustr \<Rightarrow> bot_state \<Rightarrow> bot_reply \<times> bot_state" where
  "process_quantity tg text b =
     (case py_int text of
        None \<Rightarrow> (Quantity_not_int, b)
      | Some q \<Rightarrow>
          if q \<le> 0 then (Quantity_not_positive, b)
          else (let d = b_data b tg in
                if fd_existing d = Some True then
                  (case fd_price d of
                     None \<Rightarrow> (Failed, b)
                   | Some p \<Rightarrow>
                       (let t = pf_mul_int p q;
                            b1 = upd_data tg (\<lambda>d. d\<lparr>fd_qty := Some q, fd_total := Some t\<rparr>) b in
                        case fd_name d of
                          None \<Rightarrow> (Failed, b1)
                        | Some n \<Rightarrow> (Confirm n q p None t, set_fsm tg (Some Waiting_for_confirmation) b1)))
                else
                  (let b1 = upd_data tg (\<lambda>d. d\<lparr>fd_qty := Some q\<rparr>) b in
                   case fd_name d of
                     None \<Rightarrow> (Failed, b1)
                   | Some n \<Rightarrow> (Enter_price n q, set_fsm tg (Some Waiting_for_price) b1))))"

text \<open>\<open>process_price\<close>: only \<open>float()\<close> is inside the \<open>try\<close>; \<open>price <= 0\<close> is the
  only range check.\<close>

definition process_price :: "tgid \<Rightarrow> ustr \<Rightarrow> bot_state \<Rightarrow> bot_reply \<times> bot_state" where
  "process_price tg text b =
     (case py_float text of
        None \<Rightarrow> (Price_not_number, b)
      | Some p \<Rightarrow>
          if pf_le_zero p then (Price_not_positive, b)
          else (case (fd_name (b_data b tg), fd_qty (b_data b tg)) of
                  (Some n, Some q) \<Rightarrow>
                    (let t = pf_mul_int p q in
                     (Enter_description n q p,
                      set_fsm tg (Some Waiting_for_description)
                        (upd_data tg (\<lambda>d. d\<lparr>fd_price := Some p, fd_total := Some t\<rparr>) b)))
                | _ \<Rightarrow> (Failed, b)))"

text \<open>The skip word of \<open>process_description\<close>, Cyrillic "net" (no).\<close>

definition skip_word :: ustr where
  "skip_word = [1085, 1077, 1090]"

definition process_description :: "tgid \<Rightarrow> ustr \<Rightarrow> bot_state \<Rightarrow> bot_reply \<times> bot_state" where
  "process_description tg text b =
     (let desc = (if py_lower text \<noteq> skip_word then text else []);
          b1 = upd_data tg (\<lambda>d. d\<lparr>fd_desc := Some desc\<rparr>) b;
          d = b_data b1 tg in
      case (fd_name d, fd_qty d, fd_price d, fd_total d) of
        (Some n, Some q, Some p, Some t) \<Rightarrow>
          (Confirm n q p (if desc = [] then None else Some desc) t,
           set_fsm tg (Some Waiting_for_confirmation) b1)
      | _ \<Rightarrow> (Failed, b1))"

text \<open>The body \<open>process_order_confirmation\<close> builds: one item, the dialogue's total as
  both the item's and the order's total; the four \<open>data[...]\<close> reads fail on a missing
  key in the order they are written.\<close>

definition confirm_request :: "tgid \<Rightarrow> fsm_data \<Rightarrow> order_payload option" where
  "confirm_request tg d =
     (case (fd_name d, fd_qty d, fd_price d, fd_total d) of
        (Some n, Some q, Some p, Some t) \<Rightarrow>
          Some \<lparr>op_tg = tg,
                op_items = [\<lparr>pi_name = n, pi_qty = q, pi_price = p, pi_total = t,
                             pi_desc = (case fd_desc d of Some e \<Rightarrow> if e = [] then None else Some e | None \<Rightarrow> None)\<rparr>],
                op_total = t\<rparr>
      | _ \<Rightarrow> None)"

text \<open>\<open>state.clear()\<close> runs on success and on failure of the request.\<close>

definition process_order_confirmation ::
  "'s bot_api \<Rightarrow> tgid \<Rightarrow> bot_state \<Rightarrow> 's \<Rightarrow> bot_reply \<times> bot_state \<times> 's" where
  "process_order_confirmation api tg b s =
     (case confirm_request tg (b_data b tg) of
        None \<Rightarrow> (Failed, b, s)
      | Some pl \<Rightarrow>
          (let it = hd (op_items pl) in
           case api_create api pl s of
             (Some (JOk k), s') \<Rightarrow>
               (Order_placed k (pi_name it) (pi_qty it) (pi_price it) (pi_desc it) (op_total pl),
                clear_fsm tg b, s')
           | (Some (JErr m), s') \<Rightarrow> (Order_failed (Server_said m), clear_fsm tg b, s')
           | (None, s') \<Rightarrow> (Order_failed Connection_failed, clear_fsm tg b, s')))"

definition process_order_cancellation :: "tgid \<Rightarrow> bot_state \<Rightarrow> bot_reply \<times> bot_state" where
  "process_order_cancellation tg b = (Order_cancelled, clear_fsm tg b)"

text \<open>\<open>cmd_profile\<close>: the order count is \<open>len(user_data['orders'])\<close>, the sum is taken
  over the separate \<open>/api/telegram/orders\<close> answer when that is a non-empty list.\<close>

definition order_summary ::
  "order_json \<Rightarrow> oid \<times> money \<times> ustr \<times> (ustr \<times> int \<times> money \<times> money) list \<times> nat" where
  "order_summary o' = (oj_id o', total_amount (oj_row o'), o_status (oj_row o'), take 2 (oj_items o'),
                       length (oj_items o') - 2)"

definition cmd_profile :: "'s bot_api \<Rightarrow> tgid \<Rightarrow> bot_state \<Rightarrow> 's \<Rightarrow> bot_reply \<times> bot_state \<times> 's" where
  "cmd_profile api tg b s =
     (case api_user_info api tg s of
        (None, s1) \<Rightarrow> (Conn_error, b, s1)
      | (Some (JErr _), s1) \<Rightarrow> (Not_linked_reply, b, s1)
      | (Some (JOk ui), s1) \<Rightarrow>
          (case api_orders api tg s1 of
             (ao, s2) \<Rightarrow>
               (let tot = (case ao of Some (JList os) \<Rightarrow> sum_list (map (\<lambda>o'. total_amount (oj_row o')) os)
                                    | _ \<Rightarrow> 0) in
                (Profile (ui_email ui) (ui_first_name ui) (ui_last_name ui) (length (ui_orders ui)) tot
                   (map order_summary (take 3 (ui_orders ui))), b, s2))))"

section \<open>Dispatch\<close>

text \<open>aiogram's \<open>Command(c)\<close>: the first word of the text is \<open>/\<close>, the name \<open>c\<close>, and
  optionally \<open>@\<close> with an empty mention or the bot's username \<open>me\<close> in any case.\<close>

definition is_command :: "ustr \<Rightarrow> string \<Rightarrow> ustr \<Rightarrow> bool" where
  "is_command me c text =
     (case py_split_ws text of
        w # _ \<Rightarrow>
          w \<noteq> [] \<and> hd w = 47 \<and>
          (case split_first (\<lambda>x. x = 64) (tl w) of
             (n, m) \<Rightarrow> n = ustr c \<and> (case m of None \<Rightarrow> True | Some mn \<Rightarrow> mn = [] \<or> py_lower mn = py_lower me))
      | [] \<Rightarrow> False)"

datatype bot_event = Msg tgid ustr | Cb tgid ustr

text \<open>Message handlers in registration order: /start, /help, /link, /create_order, the four
  text-entry states, /orders, /profile, and plain text not starting with \<open>/\<close>.\<close>

definition on_message :: "'s bot_api \<Rightarrow> ustr \<Rightarrow> tgid \<Rightarrow> ustr \<Rightarrow> bot_state \<Rightarrow> 's \<Rightarrow> bot_reply \<times> bot_state \<times> 's" where
  "on_message api me tg text b s =
     (if is_command me ''start'' text then (Welcome, b, s)
      else if is_command me ''help'' text then (Help, b, s)
      else if is_command me ''link'' text then cmd_link api tg text b s
      else if is_command me ''create_order'' text then cmd_create_order api tg b s
      else if b_fsm b tg = Some Waiting_for_product_name then
        (case process_product_name tg text b of (r, b') \<Rightarrow> (r, b', s))
      else if b_fsm b tg = Some Waiting_for_quantity then
        (case process_quantity tg text b of (r, b') \<Rightarrow> (r, b', s))
      else if b_fsm b tg = Some Waiting_for_price then
        (case process_price tg text b of (r, b') \<Rightarrow> (r, b', s))
      else if b_fsm b tg = Some Waiting_for_description then
        (case process_description tg text b of (r, b') \<Rightarrow> (r, b', s))
      else if is_command me ''orders'' text then
        (case api_orders api tg s of
           (resp, s') \<Rightarrow> (case cmd_orders tg resp (b_pages b) of
                            (r, up) \<Rightarrow> (Pages r, b\<lparr>b_pages := up\<rparr>, s')))
      else if is_command me ''profile'' text then cmd_profile api tg b s
      else if text \<noteq> [] \<and> hd text \<noteq> 47 then (Only_commands, b, s)
      else (Unhandled, b, s))"

text \<open>Callback handlers in registration order; the dialogue's buttons only act in the
  state that showed them.\<close>

definition on_callback :: "'s bot_api \<Rightarrow> tgid \<Rightarrow> ustr \<Rightarrow> bot_state \<Rightarrow> 's \<Rightarrow> bot_reply \<times> bot_state \<times> 's" where
  "on_callback api tg d b s =
     (let st = b_fsm b tg; nos = (\<lambda>(r, b'). (r, b', s)) in
      if d = ustr ''select_existing'' \<and> st = Some Choosing_product_type then nos (process_select_existing tg b)
      else if take 8 d = ustr ''product_'' \<and> st = Some Selecting_existing_product then
        nos (process_product_selection tg d b)
      else if d = ustr ''back_to_choice'' \<and> st = Some Selecting_existing_product then
        nos (process_back_to_choice tg b)
      else if d = ustr ''create_new'' \<and> st = Some Choosing_product_type then nos (process_create_new tg b)
      else if d = ustr ''confirm_order'' \<and> st = Some Waiting_for_confirmation then
        process_order_confirmation api tg b s
      else if d = ustr ''cancel_order'' \<and> st = Some Waiting_for_confirmation then
        nos (process_order_cancellation tg b)
      else if take 12 d = ustr ''orders_page_'' then
        (case process_orders_pagination tg d (b_pages b) of (r, up) \<Rightarrow> (Pages r, b\<lparr>b_pages := up\<rparr>, s))
      else if d = ustr ''current_page'' then
        (case process_current_page (b_pages b) of (r, up) \<Rightarrow> (Pages r, b\<lparr>b_pages := up\<rparr>, s))
      else (Unhandled, b, s))"

fun bot_step :: "'s bot_api \<Rightarrow> ustr \<Rightarrow> bot_event \<Rightarrow> bot_state \<Rightarrow> 's \<Rightarrow> bot_reply \<times> bot_state \<times> 's" where
  "bot_step api me (Msg tg text) b s = on_message api me tg text b s"
| "bot_step api me (Cb tg d) b s = on_callback api tg d b s"

section \<open>The dialogue invariant\<close>

text \<open>What each state of the dialogue needs from the data dict: the keys its handler
  reads, and the total the confirmation will send equal to price times quantity.\<close>

definition data_ok :: "fsm_state option \<Rightarrow> fsm_data \<Rightarrow> bool" where
  "data_ok st d =
     (case st of
        Some Waiting_for_quantity \<Rightarrow> fd_name d \<noteq> None \<and> (fd_existing d = Some True \<longrightarrow> fd_price d \<noteq> None)
      | Some Waiting_for_price \<Rightarrow> fd_name d \<noteq> None \<and> (case fd_qty d of Some q \<Rightarrow> 0 < q | None \<Rightarrow> False)
      | Some Waiting_for_description \<Rightarrow>
          fd_name d \<noteq> None \<and>
          (case (fd_qty d, fd_price d, fd_total d) of
             (Some q, Some p, Some t) \<Rightarrow> 0 < q \<and> \<not> pf_le_zero p \<and> t = pf_mul_int p q
           | _ \<Rightarrow> False)
      | Some Waiting_for_confirmation \<Rightarrow>
          fd_name d \<noteq> None \<and>
          (case (fd_qty d, fd_price d, fd_total d) of
             (Some q, Some p, Some t) \<Rightarrow> 0 < q \<and> t = pf_mul_int p q
           | _ \<Rightarrow> False)
      | _ \<Rightarrow> True)"

definition fsm_inv :: "bot_state \<Rightarrow> bool" where
  "fsm_inv b \<longleftrightarrow> (\<forall>tg. data_ok (b_fsm b tg) (b_data b tg))"

text \<open>The bot states reachable from start-up by any sequence of updates, whatever the
  backend behind \<open>api\<close> answers.\<close>

inductive bot_reach :: "'s bot_api \<Rightarrow> bot_state \<Rightarrow> bool" for api where
  init: "bot_reach api bot_init"
| step: "bot_reach api b \<Longrightarrow> bot_reach api (fst (snd (bot_step api me e b s)))"

text \<open>A backend that knows every user and accepts every order as number 7.\<close>

definition demo_api :: "nat bot_api" where
  "demo_api = \<lparr>api_link = (\<lambda>t g s. (None, s)),
     api_user_info = (\<lambda>g s. (Some (JOk \<lparr>ui_email = [], ui_first_name = [], ui_last_name = [], ui_total_all = 0,
                                        ui_orders = []\<rparr>), s)),
     api_products = (\<lambda>g s. (None, s)), api_create = (\<lambda>p s. (Some (JOk 7), Suc s)),
     api_orders = (\<lambda>g s. (None, s))\<rparr>"

definition demo_tg :: tgid where
  "demo_tg = ustr ''555''"

definition demo_dialogue :: "bot_event list" where
  "demo_dialogue = [Msg demo_tg (ustr ''/create_order''), Cb demo_tg (ustr ''create_new''), Msg demo_tg (ustr ''tea''),
     Msg demo_tg (ustr ''2''), Msg demo_tg (ustr ''1.5''), Msg demo_tg (ustr ''green'')]"

text \<open>\<open>dp.start_polling(bot)\<close> in \<open>main\<close>: updates are handled one after another.\<close>

fun run_bot :: "'s bot_api \<Rightarrow> ustr \<Rightarrow> bot_event list \<Rightarrow> bot_state \<Rightarrow> 's \<Rightarrow> bot_state \<times> 's" where
  "run_bot api me [] b s = (b, s)"
| "run_bot api me (e # es) b s = (case bot_step api me e b s of (_, b', s') \<Rightarrow> run_bot api me es b' s')"

definition demo_confirm_state :: bot_state where
  "demo_confirm_state = fst (run_bot demo_api [] demo_dialogue bot_init 0)"

definition demo_price_state :: bot_state where
  "demo_price_state = upd_data demo_tg (\<lambda>d. d\<lparr>fd_name := Some (ustr ''tea''), fd_qty := Some 2\<rparr>) bot_init"

text \<open>The updates of one order dialogue for a new product.\<close>

definition order_dialogue :: "tgid \<Rightarrow> ustr \<Rightarrow> nat \<Rightarrow> nat \<Rightarrow> ustr \<Rightarrow> bot_event list" where
  "order_dialogue tg n q m d =
     [Msg tg (ustr ''/create_order''), Cb tg (ustr ''create_new''), Msg tg n, Msg tg (show_nat q),
      Msg tg (show_nat m), Msg tg d]"

lemma data_ok_free [simp]:
  "data_ok None d" "data_ok (Some Choosing_product_type) d" "data_ok (Some Waiting_for_product_name) d"
  "data_ok (Some Selecting_existing_product) d"
  by (simp_all add: data_ok_def)

lemma fsm_inv_set:
  "fsm_inv b \<Longrightarrow> data_ok st (f (b_data b tg)) \<Longrightarrow> fsm_inv (set_fsm tg st (upd_data tg f b))"
  by (simp add: fsm_inv_def set_fsm_def upd_data_def)

lemma fsm_inv_set_only:
  "fsm_inv b \<Longrightarrow> data_ok st (b_data b tg) \<Longrightarrow> fsm_inv (set_fsm tg st b)"
  by (simp add: fsm_inv_def set_fsm_def)

lemma fsm_inv_upd:
  "fsm_inv b \<Longrightarrow> data_ok (b_fsm b tg) (f (b_data b tg)) \<Longrightarrow> fsm_inv (upd_data tg f b)"
  by (simp add: fsm_inv_def upd_data_def)

lemma fsm_inv_clear: "fsm_inv b \<Longrightarrow> fsm_inv (clear_fsm tg b)"
  by (simp add: fsm_inv_def clear_fsm_def)

lemma fsm_inv_pages [simp]: "fsm_inv (b\<lparr>b_pages := up\<rparr>) = fsm_inv b"
  by (simp add: fsm_inv_def)

lemma fsm_inv_products [simp]: "fsm_inv (b\<lparr>b_products := pp\<rparr>) = fsm_inv b"
  by (simp add: fsm_inv_def)

lemma fsm_invD: "fsm_inv b \<Longrightarrow> data_ok (b_fsm b tg) (b_data b tg)"
  by (simp add: fsm_inv_def)

lemma inv_cmd_create_order: "fsm_inv b \<Longrightarrow> fsm_inv (fst (snd (cmd_create_order api tg b s)))"
  by (auto simp: cmd_create_order_def fsm_inv_set_only split: prod.split option.split jresp.split)

lemma inv_process_select_existing: "fsm_inv b \<Longrightarrow> fsm_inv (snd (process_select_existing tg b))"
  by (auto simp: process_select_existing_def Let_def fsm_inv_set_only split: json.split)

lemma inv_process_product_selection: "fsm_inv b \<Longrightarrow> fsm_inv (snd (process_product_selection tg d b))"
  by (auto simp: process_product_selection_def fsm_inv_set data_ok_def split: option.split json.split)

lemma inv_process_product_name: "fsm_inv b \<Longrightarrow> fsm_inv (snd (process_product_name tg t b))"
  by (simp add: process_product_name_def fsm_inv_set data_ok_def)

lemma inv_process_quantity:
  assumes "fsm_inv b" "b_fsm b tg = Some Waiting_for_quantity"
  shows "fsm_inv (snd (process_quantity tg t b))"
proof -
  have ok: "data_ok (Some Waiting_for_quantity) (b_data b tg)" using fsm_invD [OF assms(1), of tg] assms(2) by simp
  show ?thesis
    using assms(1) ok
    by (auto simp: process_quantity_def Let_def data_ok_def fsm_inv_set assms(2)
             split: option.split if_splits)
qed

lemma inv_process_price:
  assumes "fsm_inv b" "b_fsm b tg = Some Waiting_for_price"
  shows "fsm_inv (snd (process_price tg t b))"
proof -
  have ok: "data_ok (Some Waiting_for_price) (b_data b tg)" using fsm_invD [OF assms(1), of tg] assms(2) by simp
  show ?thesis
    using assms(1) ok
    by (auto simp: process_price_def Let_def intro!: fsm_inv_set
             split: option.split prod.split) (auto simp: data_ok_def)
qed

lemma inv_process_description:
  assumes "fsm_inv b" "b_fsm b tg = Some Waiting_for_description"
  shows "fsm_inv (snd (process_description tg t b))"
proof -
  have ok: "data_ok (Some Waiting_for_description) (b_data b tg)" using fsm_invD [OF assms(1), of tg] assms(2) by simp
  have u: "fsm_inv (upd_data tg (\<lambda>d. d\<lparr>fd_desc := Some x\<rparr>) b)" for x
    using assms ok by (intro fsm_inv_upd) (auto simp: data_ok_def split: option.split)
  have c: "fsm_inv (set_fsm tg (Some Waiting_for_confirmation) (upd_data tg (\<lambda>d. d\<lparr>fd_desc := Some x\<rparr>) b))" for x
    using assms(1) ok by (intro fsm_inv_set) (auto simp: data_ok_def split: option.splits)
  have d: "b_data (upd_data tg (\<lambda>d. d\<lparr>fd_desc := Some x\<rparr>) b) tg = (b_data b tg)\<lparr>fd_desc := Some x\<rparr>" for x
    by (simp add: upd_data_def)
  show ?thesis
    unfolding process_description_def Let_def d using u c
    by (simp split: option.split)
qed

lemma inv_process_order_confirmation:
  "fsm_inv b \<Longrightarrow> fsm_inv (fst (snd (process_order_confirmation api tg b s)))"
  by (auto simp: process_order_confirmation_def Let_def fsm_inv_clear
           split: option.split prod.split jresp.split)

lemma cmd_link_state [simp]: "fst (snd (cmd_link api tg t b s)) = b"
  by (simp add: cmd_link_def split: list.split prod.split option.split jresp.split)

lemma cmd_profile_state [simp]: "fst (snd (cmd_profile api tg b s)) = b"
  by (simp add: cmd_profile_def Let_def split: prod.split option.split jresp.split)

lemma inv_on_message: "fsm_inv b \<Longrightarrow> fsm_inv (fst (snd (on_message api me tg t b s)))"
  unfolding on_message_def
  by (simp add: inv_cmd_create_order inv_process_product_name inv_process_quantity inv_process_price
                 inv_process_description case_prod_beta split: if_split)

lemma inv_on_callback: "fsm_inv b \<Longrightarrow> fsm_inv (fst (snd (on_callback api tg d b s)))"
  unfolding on_callback_def Let_def
  by (simp add: inv_process_select_existing inv_process_product_selection inv_process_order_confirmation
                fsm_inv_clear fsm_inv_set_only process_back_to_choice_def process_create_new_def
                process_order_cancellation_def case_prod_beta split: if_split)

lemma reach_fsm_inv: "bot_reach api b \<Longrightarrow> fsm_inv b"
proof (induction rule: bot_reach.induct)
  case init then show ?case by (simp add: fsm_inv_def bot_init_def no_data_def)
next
  case (step b me e s)
  then show ?case by (cases e) (simp_all add: inv_on_message inv_on_callback)
qed

lemma bot_reach_run: "bot_reach api b \<Longrightarrow> bot_reach api (fst (run_bot api me es b s))"
proof (induction es arbitrary: b s)
  case Nil then show ?case by simp
next
  case (Cons e es)
  have "bot_reach api (fst (snd (bot_step api me e b s)))" using Cons.prems by (rule bot_reach.step)
  then show ?case using Cons.IH by (simp add: case_prod_beta)
qed

lemma demo_run: "b_fsm (fst (run_bot demo_api [] demo_dialogue bot_init 0)) demo_tg = Some Waiting_for_confirmation"
  by (simp add: demo_dialogue_def demo_api_def demo_tg_def bot_init_def is_command_def on_message_def on_callback_def
     cmd_create_order_def process_create_new_def process_product_name_def process_quantity_def process_price_def
     process_description_def set_fsm_def upd_data_def ustr_def py_split_ws_def py_isspace_def split_first.simps
     py_int_def py_float_def py_float_abs_def py_strip_def digits_ok_def is_digit_def digits_val_def py_lower_def py_lower_char_def
     dec_val_def exp_int_def skip_word_def pf_le_zero_def pf_mul_int_def Let_def json_truthy_def no_data_def)

lemma demo_confirm_data:
  "b_data demo_confirm_state demo_tg =
     \<lparr>fd_name = Some (ustr ''tea''), fd_price = Some (Fin (3 / 2)), fd_desc = Some (ustr ''green''),
      fd_existing = Some False, fd_qty = Some 2, fd_total = Some (Fin 3)\<rparr>"
  by (simp add: demo_confirm_state_def demo_dialogue_def demo_api_def demo_tg_def bot_init_def is_command_def
     on_message_def on_callback_def cmd_create_order_def process_create_new_def process_product_name_def
     process_quantity_def process_price_def process_description_def set_fsm_def upd_data_def ustr_def
     py_split_ws_def py_isspace_def split_first.simps py_int_def py_float_def py_float_abs_def py_strip_def
     digits_ok_def is_digit_def digits_val_def py_lower_def py_lower_char_def dec_val_def exp_int_def
     skip_word_def pf_le_zero_def pf_mul_int_def Let_def json_truthy_def no_data_def)

lemma demo_confirm_reach: "bot_reach demo_api demo_confirm_state"
  unfolding demo_confirm_state_def by (rule bot_reach_run [OF bot_reach.init])

lemma demo_entry_state: "b_fsm (set_fsm demo_tg (Some Waiting_for_product_name) bot_init) demo_tg = Some Waiting_for_product_name"
  by (simp add: set_fsm_def)

text \<open>
  C34. In every state the bot can reach, whatever the backend answers, each user's data
  dict holds the keys the handler of the user's dialogue state reads, and from the price
  entry on, the stored total is the price times a positive quantity.
\<close>

theorem bot_reach_data_ok: "bot_reach api b \<Longrightarrow> data_ok (b_fsm b tg) (b_data b tg)"
  using reach_fsm_inv fsm_invD by blast

theorem bot_reach_data_ok_witness:
  "bot_reach demo_api demo_confirm_state \<and> data_ok (b_fsm demo_confirm_state demo_tg) (b_data demo_confirm_state demo_tg)"
  using demo_confirm_reach bot_reach_data_ok [OF demo_confirm_reach] by simp

text \<open>
  C35. Confirming an order in a reachable state never fails on a missing key: the bot sends
  one item whose quantity is positive, whose total is its price times its quantity, and the
  order total is that item total.
\<close>

theorem confirm_sends_price_times_quantity:
  assumes "bot_reach api b" "b_fsm b tg = Some Waiting_for_confirmation"
  shows "\<exists>pl it. confirm_request tg (b_data b tg) = Some pl \<and> op_items pl = [it] \<and> 0 < pi_qty it \<and>
           pi_total it = pf_mul_int (pi_price it) (pi_qty it) \<and> op_total pl = pi_total it \<and>
           fst (process_order_confirmation api tg b s) \<noteq> Failed"
proof -
  have "data_ok (Some Waiting_for_confirmation) (b_data b tg)"
    using fsm_invD [OF reach_fsm_inv [OF assms(1)], of tg] assms(2) by simp
  then obtain n q p where d: "fd_name (b_data b tg) = Some n" "fd_qty (b_data b tg) = Some q"
      "fd_price (b_data b tg) = Some p" "fd_total (b_data b tg) = Some (pf_mul_int p q)" "0 < q"
    by (auto simp: data_ok_def split: option.splits)
  then show ?thesis
    by (auto simp: confirm_request_def process_order_confirmation_def Let_def split: prod.split option.split jresp.split)
qed

theorem confirm_sends_price_times_quantity_witness:
  "bot_reach demo_api demo_confirm_state \<and> b_fsm demo_confirm_state demo_tg = Some Waiting_for_confirmation \<and>
   (\<exists>pl it. confirm_request demo_tg (b_data demo_confirm_state demo_tg) = Some pl \<and> op_items pl = [it] \<and>
      0 < pi_qty it \<and> pi_total it = pf_mul_int (pi_price it) (pi_qty it) \<and> op_total pl = pi_total it \<and>
      fst (process_order_confirmation demo_api demo_tg demo_confirm_state 0) \<noteq> Failed)"
  using demo_confirm_reach demo_run [folded demo_confirm_state_def]
    confirm_sends_price_times_quantity [OF demo_confirm_reach demo_run [folded demo_confirm_state_def]]
  by simp

text \<open>
  C36. The handlers of the text-entry states are registered before \<open>/orders\<close> and
  \<open>/profile\<close>: while the bot waits for a product name, the message \<open>/orders\<close> does not
  list the orders but becomes the product name, and the dialogue moves on to the quantity.
\<close>

theorem orders_command_taken_as_product_name:
  assumes "b_fsm b tg = Some Waiting_for_product_name"
  shows "bot_step api me (Msg tg (ustr ''/orders'')) b s =
           (Enter_quantity (ustr ''/orders''),
            set_fsm tg (Some Waiting_for_quantity)
              (upd_data tg (\<lambda>d. d\<lparr>fd_name := Some (ustr ''/orders''), fd_existing := Some False\<rparr>) b), s)"
  using assms
  by (simp add: on_message_def is_command_def process_product_name_def ustr_def py_split_ws_def py_isspace_def)

theorem orders_command_taken_as_product_name_witness:
  "b_fsm (set_fsm demo_tg (Some Waiting_for_product_name) bot_init) demo_tg = Some Waiting_for_product_name \<and>
   fst (bot_step demo_api [] (Msg demo_tg (ustr ''/orders'')) (set_fsm demo_tg (Some Waiting_for_product_name) bot_init) 0) =
     Enter_quantity (ustr ''/orders'')"
  using demo_entry_state orders_command_taken_as_product_name [OF demo_entry_state, of demo_api "[]" 0] by simp

text \<open>
  C37. \<open>process_price\<close> accepts \<open>nan\<close>: \<open>float('nan') <= 0\<close> is false, so the price and
  the total become NaN and the dialogue moves on to the description.
\<close>

theorem process_price_accepts_nan:
  assumes "fd_name (b_data b tg) = Some n" "fd_qty (b_data b tg) = Some q"
  shows "process_price tg (ustr ''nan'') b =
           (Enter_description n q NaN,
            set_fsm tg (Some Waiting_for_description)
              (upd_data tg (\<lambda>d. d\<lparr>fd_price := Some NaN, fd_total := Some NaN\<rparr>) b))"
  using assms
  by (simp add: process_price_def py_float_def py_float_abs_def py_strip_def py_isspace_def py_lower_def
                py_lower_char_def ustr_def pf_le_zero_def pf_mul_int_def)

theorem process_price_accepts_nan_witness:
  "fd_name (b_data demo_price_state demo_tg) = Some (ustr ''tea'') \<and> fd_qty (b_data demo_price_state demo_tg) = Some 2 \<and>
   fst (process_price demo_tg (ustr ''nan'') demo_price_state) = Enter_description (ustr ''tea'') 2 NaN"
proof -
  have n: "fd_name (b_data demo_price_state demo_tg) = Some (ustr ''tea'')"
    and q: "fd_qty (b_data demo_price_state demo_tg) = Some 2"
    by (simp_all add: demo_price_state_def upd_data_def)
  show ?thesis using n q process_price_accepts_nan [OF n q] by simp
qed

lemma no_slash_not_command:
  assumes "47 \<notin> set t"
  shows "\<not> is_command me c t"
proof
  assume "is_command me c t"
  then obtain w ws where w: "py_split_ws t = w # ws" "w \<noteq> []" "hd w = 47"
    by (auto simp: is_command_def split: list.splits)
  then have "set w \<subseteq> set t" using set_py_split_ws_acc [of w "[]" t] by (simp add: py_split_ws_def)
  with w assms show False by (cases w) auto
qed

lemma create_order_text: "is_command me c (ustr ''/create_order'') \<longleftrightarrow> c = ''create_order''"
proof -
  have w: "py_split_ws (ustr ''/create_order'') = [ustr ''/create_order'']"
    by (simp add: py_split_ws_def ustr_def py_isspace_def)
  have s: "split_first (\<lambda>x. x = 64) (tl (ustr ''/create_order'')) = (ustr ''create_order'', None)"
    "ustr ''/create_order'' \<noteq> []" "hd (ustr ''/create_order'') = 47"
    by (simp_all add: ustr_def)
  show ?thesis using w s by (auto simp: is_command_def ustr_eq_iff)
qed

lemma run_bot_Cons:
  "run_bot api me (e # es) b s = run_bot api me es (fst (snd (bot_step api me e b s))) (snd (snd (bot_step api me e b s)))"
  by (simp add: case_prod_beta)

text \<open>
  C32. The dialogue has no dead end: from any state of the bot, whatever the user was
  doing, a user the backend knows can send \<open>/create_order\<close>, press the new-product
  button and type a name, a positive quantity, a positive price and a description (none of
  them starting a command) and reaches the confirmation step with that name, quantity and
  price times quantity as total.
\<close>

theorem dialogue_reaches_confirmation:
  assumes ui: "api_user_info api tg s = (Some (JOk ui), s1)"
    and n: "47 \<notin> set n" and d: "47 \<notin> set d" and q: "0 < q" and m: "0 < m"
  shows "b_fsm (fst (run_bot api me (order_dialogue tg n q m d) b s)) tg = Some Waiting_for_confirmation \<and>
         fd_name (b_data (fst (run_bot api me (order_dialogue tg n q m d) b s)) tg) = Some n \<and>
         fd_qty (b_data (fst (run_bot api me (order_dialogue tg n q m d) b s)) tg) = Some (int q) \<and>
         fd_total (b_data (fst (run_bot api me (order_dialogue tg n q m d) b s)) tg) =
           Some (Fin (of_nat m * of_int (int q)))"
proof -
  obtain r2 s2 where pr: "api_products api tg s1 = (r2, s2)" by fastforce
  have nc: "\<And>c. \<not> is_command me c n" "\<And>c. \<not> is_command me c d"
    "\<And>c. \<not> is_command me c (show_nat q)" "\<And>c. \<not> is_command me c (show_nat m)"
    using no_slash_not_command n d show_nat_no_slash by blast+
  have qi: "py_int (show_nat q) = Some (int q)" by (rule py_int_show_nat)
  have mf: "py_float (show_nat m) = Some (Fin (of_nat m))" by (rule py_float_show_nat)
  have cb: "ustr ''create_new'' \<noteq> ustr ''select_existing''" "take 8 (ustr ''create_new'') \<noteq> ustr ''product_''"
    "ustr ''create_new'' \<noteq> ustr ''back_to_choice''"
    by (simp_all add: ustr_def)
  show ?thesis
    using ui pr nc qi mf cb q m
    by (simp add: order_dialogue_def run_bot_Cons on_message_def on_callback_def create_order_text
                  cmd_create_order_def process_create_new_def process_product_name_def process_quantity_def
                  process_price_def process_description_def set_fsm_def upd_data_def Let_def pf_le_zero_def
                  pf_mul_int_def del: show_nat.simps)
qed

theorem dialogue_reaches_confirmation_witness:
  "api_user_info demo_api demo_tg 0 =
     (Some (JOk \<lparr>ui_email = [], ui_first_name = [], ui_last_name = [], ui_total_all = 0, ui_orders = []\<rparr>), 0) \<and>
   b_fsm (fst (run_bot demo_api [] (order_dialogue demo_tg (ustr ''tea'') 2 3 (ustr ''green'')) bot_init 0)) demo_tg =
     Some Waiting_for_confirmation \<and>
   fd_total (b_data (fst (run_bot demo_api [] (order_dialogue demo_tg (ustr ''tea'') 2 3 (ustr ''green'')) bot_init 0))
     demo_tg) = Some (Fin 6)"
proof -
  have ui: "api_user_info demo_api demo_tg 0 =
     (Some (JOk \<lparr>ui_email = [], ui_first_name = [], ui_last_name = [], ui_total_all = 0, ui_orders = []\<rparr>), 0)"
    by (simp add: demo_api_def)
  have c: "47 \<notin> set (ustr ''tea'')" "47 \<notin> set (ustr ''green'')" by (simp_all add: ustr_def)
  show ?thesis
    using ui dialogue_reaches_confirmation [OF ui c(1) c(2), of 2 3 "[]" bot_init] by simp
qed

end
