(* ===== verification/System.thy ===== *)
theory System
  imports Bot
begin

text \<open>
  The bot and the backend together. \<open>backend_api\<close> answers each request of the bot's
  interface by running the backend model of the endpoint it names (\<open>link_telegram\<close>,
  \<open>get_telegram_user_info\<close>, \<open>get_telegram_products\<close>, \<open>create_telegram_order\<close>,
  \<open>get_telegram_orders\<close>) and passing the answer through \<open>make_api_request\<close>: a 200/201
  answer is the decoded body, every error status is \<open>None\<close>. The bot's numbers reach the
  backend as JSON; the backend model keeps money exact, so a request carrying a NaN or an
  infinity is outside it and is answered as a failed request that changes nothing.
\<close>

section \<open>The HTTP boundary\<close>

definition http_obj :: "api_error + 'a \<Rightarrow> 'a jresp option" where
  "http_obj r = (case r of Inl _ \<Rightarrow> None | Inr v \<Rightarrow> Some (JOk v))"

definition http_list :: "api_error + 'a list \<Rightarrow> 'a json option" where
  "http_list r = (case r of Inl _ \<Rightarrow> None | Inr l \<Rightarrow> Some (JList l))"

text \<open>An item of the bot's body as \<open>create_telegram_order\<close> reads it (\<open>total\<close> is not read).\<close>

definition item_req :: "order_item_payload \<Rightarrow> money \<Rightarrow> tg_item_req" where
  "item_req it p = \<lparr>ti_name = Some (pi_name it), ti_qty = Some (pi_qty it), ti_price = Some p, ti_desc = pi_desc it\<rparr>"

definition payload_req :: "order_payload \<Rightarrow> tg_order_req option" where
  "payload_req pl =
     (case (those (map (pf_money \<circ> pi_price) (op_items pl)), pf_money (op_total pl)) of
        (Some ps, Some t) \<Rightarrow>
          Some \<lparr>tr_tg = Some (op_tg pl), tr_items = Some (map2 item_req (op_items pl) ps), tr_total = Some t\<rparr>
      | _ \<Rightarrow> None)"

definition backend_api :: "faults \<Rightarrow> time \<Rightarrow> sys bot_api" where
  "backend_api F now =
     \<lparr>api_link = (\<lambda>tok tg s. case link_telegram F (Some tok) (Some tg) now s of (r, s') \<Rightarrow> (http_obj r, s')),
      api_user_info = (\<lambda>tg s. case get_telegram_user_info F (Some tg) s of (r, s') \<Rightarrow> (http_obj r, s')),
      api_products = (\<lambda>tg s. case get_telegram_products F (Some tg) s of (r, s') \<Rightarrow> (http_list r, s')),
      api_create = (\<lambda>pl s. case payload_req pl of
                              None \<Rightarrow> (None, s)
                            | Some rq \<Rightarrow> (case create_telegram_order F now rq s of
                                           (r, s') \<Rightarrow> (http_obj (map_sum id tv_id r), s'))),
      api_orders = (\<lambda>tg s. case get_telegram_orders F (Some tg) s of (r, s') \<Rightarrow> (http_list r, s'))\<rparr>"

section \<open>Properties\<close>

lemma link_text_words:
  assumes "k \<noteq> []" "list_all (\<lambda>c. \<not> py_isspace c) k"
  shows "py_split_ws (ustr ''/link'' @ 32 # k) = [ustr ''/link'', k]"
  using assms by (intro py_split_ws_two) (simp_all add: ustr_def py_isspace_def)

lemma link_word: "ustr ''/link'' \<noteq> []" "hd (ustr ''/link'') = 47" "split_first (\<lambda>x. x = 64) (tl (ustr ''/link'')) = (ustr ''link'', None)"
  by (simp_all add: ustr_def)

lemma link_text_command:
  assumes "k \<noteq> []" "list_all (\<lambda>c. \<not> py_isspace c) k"
  shows "is_command me c (ustr ''/link'' @ 32 # k) \<longleftrightarrow> c = ''link''"
  using link_text_words [OF assms] link_word by (auto simp: is_command_def ustr_eq_iff)

text \<open>
  C38. The backend answers an unusable link code with 400 and the text
  'Invalid or expired token', but \<open>make_api_request\<close> turns every non-200 answer into
  \<open>None\<close>: the user who sends \<open>/link\<close> with such a code is told that the connection to
  the server failed, and the error text the bot would print is never shown.
\<close>

theorem bot_link_unusable_code_reported_as_connection_failure:
  assumes "k \<noteq> []" "list_all (\<lambda>c. \<not> py_isspace c) k" "t \<noteq> []" "\<not> F (stmt_no s)"
    and "rows_where (link_tokens (db s)) (next_token (db s)) (valid_token now k) = []"
  shows "bot_step (backend_api F now) me (Msg t (ustr ''/link'' @ 32 # k)) b s =
           (Link_failed Connection_failed, b, s\<lparr>stmt_no := Suc (stmt_no s)\<rparr>)"
  using link_telegram_no_token [where F = F and s = s and now = now, OF assms(1,3,4,5)] link_text_words [OF assms(1,2)]
    link_text_command [OF assms(1,2)]
  by (simp add: on_message_def cmd_link_def backend_api_def http_obj_def)

theorem bot_link_unusable_code_reported_as_connection_failure_witness:
  "fst (bot_step (backend_api no_faults 50) [] (Msg (ustr ''555'') (ustr ''/link'' @ 32 # ustr ''nope'')) bot_init demo_link_sys) =
     Link_failed Connection_failed"
proof -
  have r: "rows_where (link_tokens (db demo_link_sys)) (next_token (db demo_link_sys)) (valid_token 50 (ustr ''nope'')) = []"
    by (simp add: demo_link_sys_def demo_link_db_def rows_where_def upt_rec valid_token_def ustr_def)
  have k: "ustr ''nope'' \<noteq> []" "list_all (\<lambda>c. \<not> py_isspace c) (ustr ''nope'')" "ustr ''555'' \<noteq> []"
    by (simp_all add: ustr_def py_isspace_def)
  show ?thesis
    using bot_link_unusable_code_reported_as_connection_failure [OF k(1,2,3) _ r, of no_faults "[]" bot_init]
    by (simp add: no_faults_def)
qed

lemma confirm_request_data:
  assumes "fd_name d = Some n" "fd_qty d = Some q" "fd_price d = Some (Fin p)" "fd_total d = Some (Fin (p * of_int q))"
  shows "\<exists>dsc. confirm_request t d =
           Some \<lparr>op_tg = t, op_items = [\<lparr>pi_name = n, pi_qty = q, pi_price = Fin p, pi_total = Fin (p * of_int q),
                                        pi_desc = dsc\<rparr>], op_total = Fin (p * of_int q)\<rparr>"
  using assms by (simp add: confirm_request_def)

lemma payload_req_single:
  "payload_req \<lparr>op_tg = t, op_items = [it], op_total = Fin x\<rparr> =
     (case pi_price it of Fin p \<Rightarrow> Some \<lparr>tr_tg = Some t, tr_items = Some [item_req it p], tr_total = Some x\<rparr> | _ \<Rightarrow> None)"
  by (simp add: payload_req_def pf_money_def split: pyfloat.split)

lemma confirm_callback:
  assumes "b_fsm b t = Some Waiting_for_confirmation"
  shows "bot_step api me (Cb t (ustr ''confirm_order'')) b s = process_order_confirmation api t b s"
  using assms by (simp add: on_callback_def Let_def ustr_def)

lemma tg_items_db_single_product:
  "products (tg_items_db now u k [it] d) (next_product d) =
     Some \<lparr>p_name = the (ti_name it), p_price = the (ti_price it), p_description = tg_desc k it, created_by = u,
           p_created_at = now\<rparr>"
  by (simp add: add_product_def)

text \<open>
  C39. Confirming an order in the bot runs \<open>create_telegram_order\<close> on the body the
  dialogue built: the backend stores an order of the chat's user whose total is the
  dialogue's price times quantity, inserts a fresh catalogue product with the dialogue's name
  and price owned by the user (also when the dialogue started from an existing product),
  and the bot reports the new order number and clears the dialogue.
\<close>

theorem bot_confirm_places_order:
  assumes reach: "bot_reach api b" and st: "b_fsm b t = Some Waiting_for_confirmation"
    and d: "fd_name (b_data b t) = Some n" "fd_qty (b_data b t) = Some q" "fd_price (b_data b t) = Some (Fin p)"
    and lookup: "rows_where (users (db s)) (next_user (db s)) (\<lambda>r. telegram_id r = Some t) = (u, ur) # rest"
    and t: "t \<noteq> []" and ff: "faults_free F (stmt_no s) 6"
  shows "\<exists>s' dsc. bot_step (backend_api F now) me (Cb t (ustr ''confirm_order'')) b s =
             (Order_placed (next_order (db s)) n q (Fin p) dsc (Fin (p * of_int q)), clear_fsm t b, s') \<and>
           orders (db s') (next_order (db s)) =
             Some \<lparr>o_user = u, total_amount = p * of_int q, o_status = ustr ''new'', o_created_at = now\<rparr> \<and>
           map_option (\<lambda>r. (p_name r, p_price r, created_by r)) (products (db s') (next_product (db s))) =
             Some (n, p, u)"
proof -
  have "data_ok (Some Waiting_for_confirmation) (b_data b t)"
    using fsm_invD [OF reach_fsm_inv [OF reach], of t] st by simp
  then have tot: "fd_total (b_data b t) = Some (Fin (p * of_int q))"
    using d by (auto simp: data_ok_def pf_mul_int_def split: option.splits)
  obtain dsc where cr: "confirm_request t (b_data b t) =
      Some \<lparr>op_tg = t, op_items = [\<lparr>pi_name = n, pi_qty = q, pi_price = Fin p, pi_total = Fin (p * of_int q),
                                   pi_desc = dsc\<rparr>], op_total = Fin (p * of_int q)\<rparr>"
    using confirm_request_data [OF d tot] by blast
  let ?it = "\<lparr>pi_name = n, pi_qty = q, pi_price = Fin p, pi_total = Fin (p * of_int q), pi_desc = dsc\<rparr>"
  have ok: "list_all tg_item_ok [item_req ?it p]" by (simp add: tg_item_ok_def item_req_def)
  have ff': "faults_free F (stmt_no s) (2 * length [item_req ?it p] + 4)" using ff by simp
  let ?rq = "\<lparr>tr_tg = Some t, tr_items = Some [item_req ?it p], tr_total = Some (p * of_int q)\<rparr>"
  let ?s' = "s\<lparr>db := tg_items_db now u (next_order (db s)) [item_req ?it p]
                         (add_order u (p * of_int q) (ustr ''new'') now (db s)),
             sent := sent s @ [(t, Tg_order_created (next_order (db s)) (map tg_line [item_req ?it p]) (p * of_int q))],
             stmt_no := Suc (Suc (stmt_no s) + 2 * length [item_req ?it p] + 2)\<rparr>"
  have run: "create_telegram_order F now ?rq s =
      (Inr \<lparr>tv_id = next_order (db s), tv_total = p * of_int q, tv_status = ustr ''new'', tv_created_at = now,
            tv_items = map (\<lambda>(n, q, p). (n, q, p, of_int q * p)) (map tg_line [item_req ?it p])\<rparr>, ?s')"
    by (rule create_telegram_order_ok [OF ff' lookup t _ ok]) simp
  have db': "db ?s' = tg_items_db now u (next_order (db s)) [item_req ?it p]
                         (add_order u (p * of_int q) (ustr ''new'') now (db s))"
    by simp
  have api: "api_create (backend_api F now) (the (confirm_request t (b_data b t))) s =
               (Some (JOk (next_order (db s))), ?s')"
    using cr run by (simp add: backend_api_def payload_req_single http_obj_def)
  have pc: "process_order_confirmation (backend_api F now) t b s =
      (Order_placed (next_order (db s)) n q (Fin p) dsc (Fin (p * of_int q)), clear_fsm t b, ?s')"
    using cr api by (simp add: process_order_confirmation_def Let_def)
  have o: "orders (db ?s') (next_order (db s)) =
             Some \<lparr>o_user = u, total_amount = p * of_int q, o_status = ustr ''new'', o_created_at = now\<rparr>"
    unfolding db' by (simp add: add_order_def)
  have pr: "map_option (\<lambda>r. (p_name r, p_price r, created_by r)) (products (db ?s') (next_product (db s))) = Some (n, p, u)"
    using tg_items_db_single_product [of now u "next_order (db s)" "item_req ?it p"
        "add_order u (p * of_int q) (ustr ''new'') now (db s)"]
    unfolding db' by (simp add: add_order_def item_req_def)
  have "bot_step (backend_api F now) me (Cb t (ustr ''confirm_order'')) b s =
      (Order_placed (next_order (db s)) n q (Fin p) dsc (Fin (p * of_int q)), clear_fsm t b, ?s')"
    using confirm_callback [OF st, of "backend_api F now" me s] pc by simp
  with o pr show ?thesis by blast
qed

theorem bot_confirm_places_order_witness:
  "(\<exists>dsc. fst (bot_step (backend_api no_faults 7) [] (Cb demo_tg (ustr ''confirm_order'')) demo_confirm_state demo_link_sys) =
     Order_placed 1 (ustr ''tea'') 2 (Fin (3 / 2)) dsc (Fin 3)) \<and>
   orders (db (snd (snd (bot_step (backend_api no_faults 7) [] (Cb demo_tg (ustr ''confirm_order'')) demo_confirm_state
                          demo_link_sys)))) 1 =
     Some \<lparr>o_user = 2, total_amount = 3, o_status = ustr ''new'', o_created_at = 7\<rparr>"
proof -
  have st: "b_fsm demo_confirm_state demo_tg = Some Waiting_for_confirmation"
    using demo_run by (simp add: demo_confirm_state_def)
  have d: "fd_name (b_data demo_confirm_state demo_tg) = Some (ustr ''tea'')"
    "fd_qty (b_data demo_confirm_state demo_tg) = Some 2"
    "fd_price (b_data demo_confirm_state demo_tg) = Some (Fin (3 / 2))"
    by (simp_all add: demo_confirm_data)
  have l: "rows_where (users (db demo_link_sys)) (next_user (db demo_link_sys))
             (\<lambda>r. telegram_id r = Some demo_tg) = [(2, demo_user_b)]"
    using demo_lookup_555 by (simp add: demo_tg_def)
  have n: "next_order (db demo_link_sys) = 1" by (simp add: demo_link_sys_def demo_link_db_def empty_db_def)
  have t: "demo_tg \<noteq> []" by (simp add: demo_tg_def ustr_def)
  show ?thesis
    using bot_confirm_places_order [OF demo_confirm_reach st d l t faults_free_no_faults, of 7 "[]"] n
    by auto
qed

lemma length_user_info_orders:
  "length (map (order_json_of d) (take 3 (orders_newest d u))) =
     min 3 (length (rows_where (orders d) (next_order d) (\<lambda>r. o_user r = u)))"
  by simp

text \<open>
  C40. \<open>/profile\<close> shows as the user's number of orders the length of the
  \<open>orders\<close> list of \<open>/api/telegram/user-info\<close>, which the backend limits to the three
  newest orders: a linked user with more than three orders is told they have three.
\<close>

theorem profile_order_count_capped:
  assumes "t \<noteq> []"
    and "rows_where (users (db s)) (next_user (db s)) (\<lambda>r. telegram_id r = Some t) = (u, ur) # rest"
    and "faults_free F (stmt_no s) (3 + length (take 3 (orders_newest (db s) u)))"
  shows "\<exists>tot os. fst (cmd_profile (backend_api F now) t b s) =
           Profile (email ur) (first_name ur) (last_name ur)
             (min 3 (length (rows_where (orders (db s)) (next_order (db s)) (\<lambda>r. o_user r = u)))) tot os"
  using get_telegram_user_info_ok [OF assms] length_user_info_orders [of "db s" u]
  by (simp add: cmd_profile_def backend_api_def http_obj_def Let_def split: prod.split)

definition demo_busy_sys :: sys where
  "demo_busy_sys = demo_shop_sys\<lparr>db := demo_shop_db\<lparr>
     orders := [1 \<mapsto> \<lparr>o_user = 2, total_amount = 25, o_status = ustr ''new'', o_created_at = 5\<rparr>,
                2 \<mapsto> \<lparr>o_user = 2, total_amount = 7, o_status = ustr ''completed'', o_created_at = 9\<rparr>,
                3 \<mapsto> \<lparr>o_user = 2, total_amount = 1, o_status = ustr ''new'', o_created_at = 11\<rparr>,
                4 \<mapsto> \<lparr>o_user = 2, total_amount = 2, o_status = ustr ''new'', o_created_at = 12\<rparr>],
     next_order := 5\<rparr>\<rparr>"

theorem profile_order_count_capped_witness:
  "length (rows_where (orders (db demo_busy_sys)) (next_order (db demo_busy_sys)) (\<lambda>r. o_user r = 2)) = 4 \<and>
   (\<exists>tot os. fst (cmd_profile (backend_api no_faults 0) (ustr ''555'') bot_init demo_busy_sys) =
      Profile (email demo_user_b) (first_name demo_user_b) (last_name demo_user_b) 3 tot os)"
proof -
  have l: "rows_where (users (db demo_busy_sys)) (next_user (db demo_busy_sys))
             (\<lambda>r. telegram_id r = Some (ustr ''555'')) = [(2, demo_user_b)]"
    using demo_shop_lookup by (simp add: demo_busy_sys_def demo_shop_sys_def)
  have c: "length (rows_where (orders (db demo_busy_sys)) (next_order (db demo_busy_sys)) (\<lambda>r. o_user r = 2)) = 4"
    by (simp add: demo_busy_sys_def rows_where_def upt_rec)
  have t: "ustr ''555'' \<noteq> []" by (simp add: ustr_def)
  show ?thesis
    using profile_order_count_capped [OF t l faults_free_no_faults, of 0 bot_init] c by simp
qed

end
