(* ===== verification/Auth.thy ===== *)
theory Auth
  imports Runtime PyText
begin

text \<open>
  Authentication, \<open>src/back/auth.py\<close>. bcrypt and PyJWT are libraries: their effect is a
  \<open>crypto\<close> record of four functions (the salt bcrypt draws and the clock and secret of
  the JWT are fixed inside them), and \<open>crypto_ok\<close> states what the code relies on of
  them: a hash checks against its password and a token decodes to its user id.
  \<open>check_pswd\<close>, the bearer-header parsing of \<open>jwt_required\<close> and the decorator itself
  are modelled from the code.
\<close>

record crypto =
  hashpw :: "ustr \<Rightarrow> ustr"
  checkpw :: "ustr \<Rightarrow> ustr \<Rightarrow> bool"
  jwt_encode :: "uid \<Rightarrow> ustr"
  jwt_decode :: "ustr \<Rightarrow> uid option"

definition crypto_ok :: "crypto \<Rightarrow> bool" where
  "crypto_ok C \<longleftrightarrow>
     (\<forall>p. checkpw C p (hashpw C p) \<and> hashpw C p \<noteq> []) \<and> (\<forall>u. jwt_decode C (jwt_encode C u) = Some u) \<and>
     (\<forall>u. jwt_encode C u \<noteq> [] \<and> 32 \<notin> set (jwt_encode C u))"

definition hash_pswd :: "crypto \<Rightarrow> ustr \<Rightarrow> ustr" where
  "hash_pswd C p = hashpw C p"

text \<open>\<open>check_pswd\<close>: an empty hash or password is refused before bcrypt runs; bcrypt's own
  exceptions are caught and read as \<open>False\<close>.\<close>

definition check_pswd :: "crypto \<Rightarrow> ustr \<Rightarrow> ustr \<Rightarrow> bool" where
  "check_pswd C h p = (if h = [] \<or> p = [] then False else checkpw C p h)"

definition create_access_token :: "crypto \<Rightarrow> uid \<Rightarrow> ustr" where
  "create_access_token C u = jwt_encode C u"

definition verify_access_token :: "crypto \<Rightarrow> ustr \<Rightarrow> uid option" where
  "verify_access_token C t = jwt_decode C t"

text \<open>The token of an \<open>Authorization\<close> header: it must start with \<open>Bearer \<close>, and the
  token is \<open>auth_header.split(' ')[1]\<close>, refused when empty.\<close>

definition bearer_token :: "ustr option \<Rightarrow> ustr option" where
  "bearer_token h =
     (case h of
        None \<Rightarrow> None
      | Some a \<Rightarrow>
          if take 7 a = ustr ''Bearer '' then
            (let t = py_split_sep 32 a ! 1 in if t = [] then None else Some t)
          else None)"

definition token_missing :: api_error where
  "token_missing = Unauthorized (ustr ''Token is missing'')"

definition token_rejected :: api_error where
  "token_rejected = Unauthorized (ustr ''Invalid token'')"

text \<open>\<open>@jwt_required\<close>: 401 without a token or with one that does not verify, otherwise
  the handler runs as the token's user (\<open>request.user_id\<close>).\<close>

definition jwt_required :: "crypto \<Rightarrow> ustr option \<Rightarrow> (uid \<Rightarrow> ('s, 'a) exc) \<Rightarrow> ('s, 'a) exc" where
  "jwt_required C h f =
     (case bearer_token h of
        None \<Rightarrow> eraise token_missing
      | Some t \<Rightarrow> (case verify_access_token C t of None \<Rightarrow> eraise token_rejected | Some u \<Rightarrow> f u))"

section \<open>Properties\<close>

lemma bearer_token_of:
  assumes "t \<noteq> []" "32 \<notin> set t"
  shows "bearer_token (Some (ustr ''Bearer '' @ t)) = Some t"
proof -
  have "py_split_sep 32 (ustr ''Bearer '' @ t) = ustr ''Bearer'' # py_split_sep 32 t"
    using py_split_sep_append [of 32 "ustr ''Bearer''" t] by (simp add: ustr_def)
  moreover have "py_split_sep 32 t = [t]" using assms(2) by (rule py_split_sep_no_sep)
  ultimately show ?thesis using assms(1) by (simp add: bearer_token_def ustr_def)
qed

lemma jwt_required_own_token:
  assumes "crypto_ok C"
  shows "jwt_required C (Some (ustr ''Bearer '' @ create_access_token C u)) f = f u"
  using assms bearer_token_of [of "jwt_encode C u"]
  by (simp add: crypto_ok_def jwt_required_def create_access_token_def verify_access_token_def)

lemma check_pswd_hash:
  "crypto_ok C \<Longrightarrow> p \<noteq> [] \<Longrightarrow> check_pswd C (hash_pswd C p) p"
  by (simp add: crypto_ok_def check_pswd_def hash_pswd_def)

end
