(* ===== verification/Accounts.thy ===== *)
theory Accounts
  imports Auth
begin

text \<open>
  User accounts, \<open>src/back/app.py\<close>: \<open>reg\<close> (POST /api/auth/register), \<open>login\<close>
  (POST /api/auth/login), \<open>get_profile\<close>, \<open>update_profile\<close> and \<open>delete_account\<close>
  (GET, PUT, DELETE /api/auth/me, behind \<open>jwt_required\<close>). A JSON body is a record of
  optional fields; a missing body reads as all fields missing, as \<open>not data\<close> and
  \<open>data.get\<close> make them equal. A \<open>NULL\<close> theme is kept as the empty text, which the
  code displays the same way (\<open>user['theme'] or 'light'\<close>).
\<close>

section \<open>Statements\<close>

text \<open>\<open>SELECT id FROM users WHERE email = ? OR username = ?\<close>, \<open>fetch_one\<close>.\<close>

definition sel_user_taken :: "ustr \<Rightarrow> ustr \<Rightarrow> uid option stmt" where
  "sel_user_taken e n d =
     Some (d, case rows_where (users d) (next_user d) (\<lambda>r. email r = e \<or> username r = n) of
                [] \<Rightarrow> None
              | x # _ \<Rightarrow> Some (fst x))"

text \<open>\<open>SELECT * FROM users WHERE email = ? OR username = ?\<close> with the login text twice.\<close>

definition sel_user_by_login :: "ustr \<Rightarrow> (uid \<times> user_row) option stmt" where
  "sel_user_by_login l d =
     Some (d, case rows_where (users d) (next_user d) (\<lambda>r. email r = l \<or> username r = l) of
                [] \<Rightarrow> None
              | x # _ \<Rightarrow> Some x)"

definition add_user :: "ustr \<Rightarrow> ustr \<Rightarrow> ustr \<Rightarrow> ustr \<Rightarrow> ustr \<Rightarrow> time \<Rightarrow> db \<Rightarrow> db" where
  "add_user n e fnm lnm h now d =
     d\<lparr>users := (users d)(next_user d \<mapsto>
         \<lparr>username = n, email = e, first_name = fnm, last_name = lnm, password_hash = h,
          theme = ustr ''light'', telegram_id = None, u_created_at = now\<rparr>),
       next_user := Suc (next_user d)\<rparr>"

text \<open>\<open>INSERT INTO users ...\<close>: \<open>username\<close> and \<open>email\<close> are each \<open>UNIQUE\<close>.\<close>

definition ins_user :: "ustr \<Rightarrow> ustr \<Rightarrow> ustr \<Rightarrow> ustr \<Rightarrow> ustr \<Rightarrow> time \<Rightarrow> uid stmt" where
  "ins_user n e fnm lnm h now d =
     (if rows_where (users d) (next_user d) (\<lambda>r. username r = n \<or> email r = e) \<noteq> [] then None
      else Some (add_user n e fnm lnm h now d, next_user d))"

section \<open>Register and log in\<close>

record reg_req =
  rg_username :: "ustr option"
  rg_email :: "ustr option"
  rg_password :: "ustr option"
  rg_first_name :: "ustr option"
  rg_last_name :: "ustr option"

text \<open>The loop over \<open>required_fields\<close>: the first field that is missing or empty.\<close>

definition missing_field :: "reg_req \<Rightarrow> string option" where
  "missing_field r =
     (case filter (\<lambda>(f, v). \<not> truthy_str v)
             [(''username'', rg_username r), (''email'', rg_email r), (''password'', rg_password r),
              (''first_name'', rg_first_name r), (''last_name'', rg_last_name r)] of
        [] \<Rightarrow> None
      | (f, _) # _ \<Rightarrow> Some f)"

definition field_required :: "string \<Rightarrow> api_error" where
  "field_required f = BadRequest (ustr (''Field '' @ f @ '' is required''))"

definition already_registered :: api_error where
  "already_registered = BadRequest (ustr ''Email or username already registered'')"

record user_view =
  uv_id :: uid
  uv_username :: ustr
  uv_email :: ustr
  uv_first_name :: ustr
  uv_last_name :: ustr
  uv_theme :: ustr
  uv_linked :: bool

record auth_resp =
  ar_token :: ustr
  ar_user :: user_view

text \<open>\<open>user['theme'] or 'light'\<close>\<close>

definition theme_or_light :: "ustr \<Rightarrow> ustr" where
  "theme_or_light t = (if t = [] then ustr ''light'' else t)"

definition view_of :: "uid \<Rightarrow> user_row \<Rightarrow> user_view" where
  "view_of u r = \<lparr>uv_id = u, uv_username = username r, uv_email = email r, uv_first_name = first_name r,
                  uv_last_name = last_name r, uv_theme = theme_or_light (theme r),
                  uv_linked = (telegram_id r \<noteq> None)\<rparr>"

definition reg :: "crypto \<Rightarrow> faults \<Rightarrow> time \<Rightarrow> reg_req \<Rightarrow> auth_resp act" where
  "reg C F now r =
     (case missing_field r of
        Some f \<Rightarrow> eraise (field_required f)
      | None \<Rightarrow>
          (let n = the (rg_username r); e = the (rg_email r) in
           ebind (execute_query F (sel_user_taken e n)) (\<lambda>x.
           case x of
             Some _ \<Rightarrow> eraise already_registered
           | None \<Rightarrow>
               ebind (execute_query F (ins_user n e (the (rg_first_name r)) (the (rg_last_name r))
                                        (hash_pswd C (the (rg_password r))) now)) (\<lambda>u.
               eret \<lparr>ar_token = create_access_token C u,
                     ar_user = \<lparr>uv_id = u, uv_username = n, uv_email = e,
                                uv_first_name = the (rg_first_name r), uv_last_name = the (rg_last_name r),
                                uv_theme = ustr ''light'', uv_linked = False\<rparr>\<rparr>))))"

record login_req =
  lg_login :: "ustr option"
  lg_password :: "ustr option"

definition login_required :: api_error where
  "login_required = BadRequest (ustr ''Login and password required'')"

definition invalid_credentials :: api_error where
  "invalid_credentials = Unauthorized (ustr ''Invalid credentials'')"

definition login :: "crypto \<Rightarrow> faults \<Rightarrow> login_req \<Rightarrow> auth_resp act" where
  "login C F r =
     (if \<not> truthy_str (lg_login r) \<or> \<not> truthy_str (lg_password r) then eraise login_required
      else ebind (execute_query F (sel_user_by_login (the (lg_login r)))) (\<lambda>x.
        case x of
          None \<Rightarrow> eraise invalid_credentials
        | Some (u, ur) \<Rightarrow>
            if \<not> check_pswd C (password_hash ur) (the (lg_password r)) then eraise invalid_credentials
            else eret \<lparr>ar_token = create_access_token C u, ar_user = view_of u ur\<rparr>))"

section \<open>The profile\<close>

definition profile_not_found :: api_error where
  "profile_not_found = NotFound (ustr ''User not found'')"

record profile_view =
  pv_user :: user_view
  pv_created_at :: time

definition profile_of :: "uid \<Rightarrow> user_row \<Rightarrow> profile_view" where
  "profile_of u r = \<lparr>pv_user = view_of u r, pv_created_at = u_created_at r\<rparr>"

definition get_profile :: "faults \<Rightarrow> uid \<Rightarrow> profile_view act" where
  "get_profile F u =
     ebind (execute_query F (sel_user u)) (\<lambda>x.
       case x of None \<Rightarrow> eraise profile_not_found | Some r \<Rightarrow> eret (profile_of u r))"

text \<open>The body of PUT /api/auth/me: each allowed key absent (\<open>None\<close>), \<open>null\<close>
  (\<open>Some None\<close>) or a string; \<open>pu_other\<close> says whether other keys are present.\<close>

record profile_upd =
  pu_first_name :: "ustr option option"
  pu_last_name :: "ustr option option"
  pu_theme :: "ustr option option"
  pu_other :: bool

definition upd_present :: "profile_upd \<Rightarrow> bool" where
  "upd_present b \<longleftrightarrow> pu_first_name b \<noteq> None \<or> pu_last_name b \<noteq> None \<or> pu_theme b \<noteq> None"

definition set_field :: "ustr option option \<Rightarrow> ustr \<Rightarrow> ustr" where
  "set_field v old = (case v of None \<Rightarrow> old | Some None \<Rightarrow> [] | Some (Some x) \<Rightarrow> x)"

text \<open>\<open>UPDATE users SET ... WHERE id = ?\<close>: \<open>first_name\<close> and \<open>last_name\<close> are
  \<open>NOT NULL\<close>, so a \<open>null\<close> for them on an existing row is a constraint violation.\<close>

definition upd_user_fields :: "uid \<Rightarrow> profile_upd \<Rightarrow> unit stmt" where
  "upd_user_fields u b d =
     (case users d u of
        None \<Rightarrow> Some (d, ())
      | Some r \<Rightarrow>
          if pu_first_name b = Some None \<or> pu_last_name b = Some None then None
          else Some (d\<lparr>users := (users d)(u \<mapsto> r\<lparr>first_name := set_field (pu_first_name b) (first_name r),
                                                 last_name := set_field (pu_last_name b) (last_name r),
                                                 theme := set_field (pu_theme b) (theme r)\<rparr>)\<rparr>, ()))"

definition no_data_provided :: api_error where
  "no_data_provided = BadRequest (ustr ''No data provided'')"

definition no_valid_fields :: api_error where
  "no_valid_fields = BadRequest (ustr ''No valid fields to update'')"

text \<open>After the UPDATE the row is read back; a missing row (an account deleted while its
  token is still valid) makes \<open>user['id']\<close> raise, answered 500.\<close>

definition update_profile :: "faults \<Rightarrow> uid \<Rightarrow> profile_upd option \<Rightarrow> profile_view act" where
  "update_profile F u body =
     (case body of
        None \<Rightarrow> eraise no_data_provided
      | Some b \<Rightarrow>
          if \<not> upd_present b \<and> \<not> pu_other b then eraise no_data_provided
          else if \<not> upd_present b then eraise no_valid_fields
          else ebind (execute_query F (upd_user_fields u b)) (\<lambda>_.
               ebind (execute_query F (sel_user u)) (\<lambda>x.
               case x of None \<Rightarrow> eraise internal_error | Some r \<Rightarrow> eret (profile_of u r))))"

section \<open>Deleting an account\<close>

text \<open>The five \<open>DELETE\<close>s of \<open>delete_account\<close>, in order.\<close>

definition del_items_of_user :: "uid \<Rightarrow> unit stmt" where
  "del_items_of_user u d =
     Some (d\<lparr>order_items := delete_where (\<lambda>r. case orders d (oi_order r) of
                                               Some o' \<Rightarrow> o_user o' = u | None \<Rightarrow> False) (order_items d)\<rparr>, ())"

definition del_orders_of :: "uid \<Rightarrow> unit stmt" where
  "del_orders_of u d = Some (d\<lparr>orders := delete_where (\<lambda>o'. o_user o' = u) (orders d)\<rparr>, ())"

definition del_products_of :: "uid \<Rightarrow> unit stmt" where
  "del_products_of u d = Some (d\<lparr>products := delete_where (\<lambda>p. created_by p = u) (products d)\<rparr>, ())"

definition del_user :: "uid \<Rightarrow> unit stmt" where
  "del_user u d = Some (d\<lparr>users := (users d)(u := None)\<rparr>, ())"

definition delete_failed :: api_error where
  "delete_failed = ServerError (ustr ''Failed to delete account'')"

text \<open>\<open>try: ... except Exception\<close>: any raise becomes the 500 answer, what was committed
  stays.\<close>

definition catch_all :: "api_error \<Rightarrow> ('s, 'a) exc \<Rightarrow> ('s, 'a) exc" where
  "catch_all e m s = (case m s of (Inl _, s') \<Rightarrow> (Inl e, s') | r \<Rightarrow> r)"

definition delete_account :: "faults \<Rightarrow> uid \<Rightarrow> unit act" where
  "delete_account F u =
     catch_all delete_failed
       (ebind (execute_query F (del_tokens_of u)) (\<lambda>_.
        ebind (execute_query F (del_items_of_user u)) (\<lambda>_.
        ebind (execute_query F (del_orders_of u)) (\<lambda>_.
        ebind (execute_query F (del_products_of u)) (\<lambda>_.
        execute_query F (del_user u))))))"

section \<open>A crypto that meets \<open>crypto_ok\<close>, and a store\<close>

definition demo_crypto :: crypto where
  "demo_crypto = \<lparr>hashpw = (\<lambda>p. 104 # p), checkpw = (\<lambda>p h. h = 104 # p),
                  jwt_encode = show_nat, jwt_decode = (\<lambda>t. map_option nat (py_int t))\<rparr>"

definition demo_account_db :: db where
  "demo_account_db = empty_db\<lparr>
     users := [1 \<mapsto> \<lparr>username = ustr ''ann'', email = ustr ''ann@shop'', first_name = ustr ''A'',
                   last_name = ustr ''A'', password_hash = 104 # ustr ''pw'', theme = ustr ''light'',
                   telegram_id = None, u_created_at = 0\<rparr>],
     next_user := 2\<rparr>"

definition demo_account_sys :: sys where
  "demo_account_sys = \<lparr>db = demo_account_db, sent = [], stmt_no = 0\<rparr>"

definition demo_reg :: reg_req where
  "demo_reg = \<lparr>rg_username = Some (ustr ''ann@shop''), rg_email = Some (ustr ''bob@shop''),
               rg_password = Some (ustr ''pw2''), rg_first_name = Some (ustr ''B''), rg_last_name = Some (ustr ''B'')\<rparr>"

text \<open>User 1 sells a product that user 2 has ordered.\<close>

definition demo_item :: item_row where
  "demo_item = \<lparr>oi_order = 1, oi_product = 1, oi_qty = 1, oi_price = 2\<rparr>"

definition demo_shared_sys :: sys where
  "demo_shared_sys = demo_account_sys\<lparr>db := demo_account_db\<lparr>
     users := [1 \<mapsto> the (users demo_account_db 1),
               2 \<mapsto> (the (users demo_account_db 1))\<lparr>username := ustr ''bob'', email := ustr ''bob@shop''\<rparr>],
     next_user := 3,
     products := [1 \<mapsto> \<lparr>p_name = ustr ''pen'', p_price = 2, p_description = [], created_by = 1, p_created_at = 0\<rparr>],
     next_product := 2,
     orders := [1 \<mapsto> \<lparr>o_user = 2, total_amount = 2, o_status = ustr ''new'', o_created_at = 1\<rparr>],
     next_order := 2,
     order_items := [1 \<mapsto> demo_item], next_item := 2\<rparr>\<rparr>"

section \<open>Properties\<close>

lemma reg_ok:
  assumes r: "r = \<lparr>rg_username = Some n, rg_email = Some e, rg_password = Some p, rg_first_name = Some fnm,
                  rg_last_name = Some lnm\<rparr>"
    and ne: "n \<noteq> []" "e \<noteq> []" "p \<noteq> []" "fnm \<noteq> []" "lnm \<noteq> []"
    and fresh: "rows_where (users (db s)) (next_user (db s)) (\<lambda>v. email v = e \<or> username v = n) = []"
    and ff: "faults_free F (stmt_no s) 2"
  shows "reg C F now r s =
           (Inr \<lparr>ar_token = create_access_token C (next_user (db s)),
                 ar_user = \<lparr>uv_id = next_user (db s), uv_username = n, uv_email = e, uv_first_name = fnm,
                            uv_last_name = lnm, uv_theme = ustr ''light'', uv_linked = False\<rparr>\<rparr>,
            s\<lparr>db := add_user n e fnm lnm (hash_pswd C p) now (db s), stmt_no := Suc (Suc (stmt_no s))\<rparr>)"
proof -
  have f: "\<not> F (stmt_no s)" "\<not> F (Suc (stmt_no s))" using ff by (simp_all add: faults_free_Suc numeral_eq_Suc)
  have m: "missing_field r = None" using r ne by (simp add: missing_field_def truthy_str_def)
  have fresh': "rows_where (users (db s)) (next_user (db s)) (\<lambda>v. username v = n \<or> email v = e) = []"
  proof -
    have "rows_where (users (db s)) (next_user (db s)) (\<lambda>v. username v = n \<or> email v = e) =
          rows_where (users (db s)) (next_user (db s)) (\<lambda>v. email v = e \<or> username v = n)"
      by (rule rows_where_pred_cong) auto
    with fresh show ?thesis by simp
  qed
  show ?thesis
    using f m fresh fresh' r by (simp add: reg_def exc_simps sel_user_taken_def ins_user_def)
qed

lemma fresh_login_rows:
  assumes fresh: "rows_where (users d) (next_user d) (\<lambda>v. email v = e \<or> username v = n) = []"
    and k: "0 < next_user d"
  shows "rows_where (users (add_user n e fnm lnm h now d)) (next_user (add_user n e fnm lnm h now d))
           (\<lambda>v. email v = n \<or> username v = n) =
         rows_where (users d) (next_user d) (\<lambda>v. email v = n) @
           [(next_user d, \<lparr>username = n, email = e, first_name = fnm, last_name = lnm, password_hash = h,
                          theme = ustr ''light'', telegram_id = None, u_created_at = now\<rparr>)]"
proof -
  have "rows_where (users d) (next_user d) (\<lambda>v. email v = n \<or> username v = n) =
        rows_where (users d) (next_user d) (\<lambda>v. email v = n)"
  proof (rule rows_where_pred_cong)
    fix i v assume "0 < i" "i < next_user d" "users d i = Some v"
    then have "username v \<noteq> n" using fresh by (auto simp: rows_where_Nil_iff)
    then show "(email v = n \<or> username v = n) = (email v = n)" by simp
  qed
  then show ?thesis using k by (simp add: add_user_def rows_where_insert)
qed

text \<open>
  C33. Registering and then logging in with the new username and password authenticates
  the new user exactly when no earlier user has that username as e-mail address:
  \<open>reg\<close> only rejects a taken e-mail or a taken username, but \<open>login\<close> matches the
  login text against both columns and takes the first user in id order.
\<close>

theorem reg_then_login:
  assumes r: "r = \<lparr>rg_username = Some n, rg_email = Some e, rg_password = Some p, rg_first_name = Some fnm,
                  rg_last_name = Some lnm\<rparr>"
    and ne: "n \<noteq> []" "e \<noteq> []" "p \<noteq> []" "fnm \<noteq> []" "lnm \<noteq> []"
    and fresh: "rows_where (users (db s)) (next_user (db s)) (\<lambda>v. email v = e \<or> username v = n) = []"
    and wf: "db_wf (db s)" and ff: "faults_free F (stmt_no s) 3" and C: "crypto_ok C"
  shows "(\<exists>a s'. login C F \<lparr>lg_login = Some n, lg_password = Some p\<rparr> (snd (reg C F now r s)) = (Inr a, s') \<and>
                 uv_id (ar_user a) = next_user (db s)) \<longleftrightarrow>
         rows_where (users (db s)) (next_user (db s)) (\<lambda>v. email v = n) = []"
proof -
  let ?k = "next_user (db s)"
  let ?row = "\<lparr>username = n, email = e, first_name = fnm, last_name = lnm, password_hash = hash_pswd C p,
              theme = ustr ''light'', telegram_id = None, u_created_at = now\<rparr>"
  let ?s1 = "s\<lparr>db := add_user n e fnm lnm (hash_pswd C p) now (db s), stmt_no := Suc (Suc (stmt_no s))\<rparr>"
  have ff2: "faults_free F (stmt_no s) 2" by (rule faults_free_mono [OF ff]) simp_all
  have s1: "snd (reg C F now r s) = ?s1" using reg_ok [OF r ne fresh ff2] by simp
  have f3: "\<not> F (Suc (Suc (stmt_no s)))" using ff by (simp add: faults_free_Suc numeral_eq_Suc)
  have k: "0 < ?k" using wf by (simp add: db_wf_def)
  have rows: "rows_where (users (db ?s1)) (next_user (db ?s1)) (\<lambda>v. email v = n \<or> username v = n) =
                rows_where (users (db s)) ?k (\<lambda>v. email v = n) @ [(?k, ?row)]"
    using fresh_login_rows [OF fresh k] by simp
  have pw: "check_pswd C (hash_pswd C p) p" using check_pswd_hash [OF C ne(3)] .
  show ?thesis
  proof (cases "rows_where (users (db s)) ?k (\<lambda>v. email v = n)")
    case Nil
    then show ?thesis
      using s1 rows f3 pw ne by (simp add: login_def exc_simps sel_user_by_login_def truthy_str_def view_of_def)
  next
    case (Cons x xs)
    obtain i v where x: "x = (i, v)" by fastforce
    have "(i, v) \<in> set (rows_where (users (db s)) ?k (\<lambda>v. email v = n))" using Cons x by simp
    then have "i < ?k" by (simp add: set_rows_where)
    then have "i \<noteq> ?k" by simp
    moreover have "login C F \<lparr>lg_login = Some n, lg_password = Some p\<rparr> ?s1 =
        (if \<not> check_pswd C (password_hash v) p then Inl invalid_credentials
         else Inr \<lparr>ar_token = create_access_token C i, ar_user = view_of i v\<rparr>,
         ?s1\<lparr>stmt_no := Suc (stmt_no ?s1)\<rparr>)"
      using rows f3 Cons x ne by (simp add: login_def exc_simps sel_user_by_login_def truthy_str_def)
    ultimately show ?thesis using s1 Cons by (simp add: view_of_def)
  qed
qed

lemma demo_crypto_ok: "crypto_ok demo_crypto"
proof -
  have "jwt_decode demo_crypto (jwt_encode demo_crypto u) = Some u" for u
    using py_int_show_nat [of u] by (simp add: demo_crypto_def del: show_nat.simps)
  moreover have "32 \<notin> set (show_nat u)" for u
    using show_nat_digits [of u] by (auto simp: list_all_iff is_digit_def simp del: show_nat.simps)
  moreover have "show_nat u \<noteq> []" for u by (rule show_nat_not_Nil)
  ultimately show ?thesis by (simp add: crypto_ok_def demo_crypto_def del: show_nat.simps)
qed

theorem reg_then_login_witness:
  "rows_where (users (db demo_account_sys)) (next_user (db demo_account_sys)) (\<lambda>v. email v = ustr ''ann@shop'') \<noteq> [] \<and>
   \<not> (\<exists>a s'. login demo_crypto no_faults \<lparr>lg_login = Some (ustr ''ann@shop''), lg_password = Some (ustr ''pw2'')\<rparr>
              (snd (reg demo_crypto no_faults 0 demo_reg demo_account_sys)) = (Inr a, s') \<and>
            uv_id (ar_user a) = next_user (db demo_account_sys))"
proof -
  have ne: "ustr ''ann@shop'' \<noteq> []" "ustr ''bob@shop'' \<noteq> []" "ustr ''pw2'' \<noteq> []" "ustr ''B'' \<noteq> []"
    by (simp_all add: ustr_def)
  have fresh: "rows_where (users (db demo_account_sys)) (next_user (db demo_account_sys))
      (\<lambda>v. email v = ustr ''bob@shop'' \<or> username v = ustr ''ann@shop'') = []"
    by (simp add: demo_account_sys_def demo_account_db_def empty_db_def rows_where_def upt_rec ustr_def)
  have taken: "rows_where (users (db demo_account_sys)) (next_user (db demo_account_sys))
      (\<lambda>v. email v = ustr ''ann@shop'') \<noteq> []"
    by (simp add: demo_account_sys_def demo_account_db_def empty_db_def rows_where_def upt_rec ustr_def)
  have wf: "db_wf (db demo_account_sys)"
    by (simp add: demo_account_sys_def demo_account_db_def empty_db_def db_wf_def below_def)
  show ?thesis
    using reg_then_login [OF demo_reg_def ne(1,2,3,4,4) fresh wf faults_free_no_faults demo_crypto_ok, of 0] taken
    by blast
qed

lemma named_items_product: "(r, n) \<in> set (named_items d k) \<Longrightarrow> products d (oi_product r) \<noteq> None"
  by (auto simp: named_items_def List.map_filter_def split: option.splits)

lemma items_of_member:
  "order_items d j = Some r \<Longrightarrow> 0 < j \<Longrightarrow> j < next_item d \<Longrightarrow> r \<in> set (items_of d (oi_order r))"
  by (force simp: items_of_def set_rows_where)

lemma delete_account_ok:
  assumes "faults_free F (stmt_no s) 5"
  shows "delete_account F u s =
           (Inr (), s\<lparr>db := (db s)\<lparr>
              link_tokens := (\<lambda>i. case link_tokens (db s) i of
                                      Some r \<Rightarrow> if t_user r = u then None else Some r | None \<Rightarrow> None),
              order_items := delete_where (\<lambda>r. case orders (db s) (oi_order r) of
                                                  Some o' \<Rightarrow> o_user o' = u | None \<Rightarrow> False) (order_items (db s)),
              orders := delete_where (\<lambda>o'. o_user o' = u) (orders (db s)),
              products := delete_where (\<lambda>p. created_by p = u) (products (db s)),
              users := (users (db s))(u := None)\<rparr>,
              stmt_no := stmt_no s + 5\<rparr>)"
proof -
  have f: "\<not> F (stmt_no s)" "\<not> F (Suc (stmt_no s))" "\<not> F (Suc (Suc (stmt_no s)))"
    "\<not> F (Suc (Suc (Suc (stmt_no s))))" "\<not> F (Suc (Suc (Suc (Suc (stmt_no s)))))"
    using assms by (simp_all add: faults_free_Suc numeral_eq_Suc)
  then show ?thesis
    by (simp add: delete_account_def catch_all_def exc_simps del_tokens_of_def del_items_of_user_def
                  del_orders_of_def del_products_of_def del_user_def)
qed

text \<open>
  C15. Deleting an account removes the user's products, but the order items of other
  users' orders that bought them stay: after a fault-free \<open>delete_account\<close> such an item
  is still stored under its order, and the joins of \<open>get_order\<close> and the Telegram order
  lists no longer show it.
\<close>

theorem delete_account_orphans_items:
  assumes ff: "faults_free F (stmt_no s) 5" and wf: "db_wf (db s)"
    and it: "order_items (db s) j = Some it" and o: "orders (db s) (oi_order it) = Some o'"
    and other: "o_user o' \<noteq> u"
    and p: "products (db s) (oi_product it) = Some p" and own: "created_by p = u"
  shows "\<exists>s'. delete_account F u s = (Inr (), s') \<and> users (db s') u = None \<and>
           it \<in> set (items_of (db s') (oi_order it)) \<and> it \<notin> fst ` set (named_items (db s') (oi_order it))"
proof -
  let ?s' = "snd (delete_account F u s)"
  have ev: "delete_account F u s = (Inr (), ?s')" using delete_account_ok [OF ff] by simp
  have i: "order_items (db ?s') j = Some it" "next_item (db ?s') = next_item (db s)"
    using delete_account_ok [OF ff] it o other by simp_all
  have j: "0 < j" "j < next_item (db s)" using wf it by (auto simp: db_wf_def below_def)
  have gone: "products (db ?s') (oi_product it) = None" using delete_account_ok [OF ff] p own by simp
  have "it \<in> set (items_of (db ?s') (oi_order it))" using items_of_member [OF i(1)] i(2) j by simp
  moreover have "it \<notin> fst ` set (named_items (db ?s') (oi_order it))"
    using gone named_items_product by fastforce
  moreover have "users (db ?s') u = None" using delete_account_ok [OF ff] by simp
  ultimately show ?thesis using ev by blast
qed

theorem delete_account_orphans_items_witness:
  "\<exists>s'. delete_account no_faults 1 demo_shared_sys = (Inr (), s') \<and> users (db s') 1 = None \<and>
     demo_item \<in> set (items_of (db s') 1) \<and> demo_item \<notin> fst ` set (named_items (db s') 1)"
proof -
  have wf: "db_wf (db demo_shared_sys)"
    by (simp add: demo_shared_sys_def demo_account_sys_def demo_account_db_def empty_db_def db_wf_def below_def
                  demo_item_def)
  have it: "order_items (db demo_shared_sys) 1 = Some demo_item"
    and o: "orders (db demo_shared_sys) (oi_order demo_item) =
              Some \<lparr>o_user = 2, total_amount = 2, o_status = ustr ''new'', o_created_at = 1\<rparr>"
    and p: "products (db demo_shared_sys) (oi_product demo_item) =
              Some \<lparr>p_name = ustr ''pen'', p_price = 2, p_description = [], created_by = 1, p_created_at = 0\<rparr>"
    by (simp_all add: demo_shared_sys_def demo_item_def)
  show ?thesis
    using delete_account_orphans_items [OF faults_free_no_faults wf it o _ p] by (simp add: demo_item_def)
qed

end
