(* ===== verification/Catalog.thy ===== *)
theory Catalog
  imports Auth
begin

text \<open>
  The product catalogue, \<open>src/back/app.py\<close>: \<open>create_product\<close> (POST /api/products),
  \<open>get_products\<close> (GET /api/products), \<open>get_all_products\<close> (GET /api/products/all),
  \<open>update_product\<close> and \<open>delete_product\<close> (PUT, DELETE /api/products/<id>), all behind
  \<open>jwt_required\<close>, so each takes the caller's user id. A price in a body is a JSON number or
  string and goes through \<open>float()\<close>; a \<open>ValueError\<close> or \<open>TypeError\<close> there escapes the
  handler (500) before the statement runs. A non-finite float reaches SQLite: \<open>nan\<close> is
  bound as \<open>NULL\<close> and violates \<open>price NOT NULL\<close>; the model treats an infinity the same,
  as the exact-money store cannot hold it.
\<close>

datatype jnum = JNum rat | JText ustr

definition jnum_truthy :: "jnum \<Rightarrow> bool" where
  "jnum_truthy v = (case v of JNum r \<Rightarrow> r \<noteq> 0 | JText s \<Rightarrow> s \<noteq> [])"

definition py_float_of :: "jnum \<Rightarrow> pyfloat option" where
  "py_float_of v = (case v of JNum r \<Rightarrow> Some (Fin r) | JText s \<Rightarrow> py_float s)"

section \<open>Statements\<close>

text \<open>\<open>SELECT * FROM products WHERE id = ? AND created_by = ?\<close>\<close>

definition owned_product :: "db \<Rightarrow> uid \<Rightarrow> pid \<Rightarrow> product_row option" where
  "owned_product d u k = (case products d k of Some p \<Rightarrow> if created_by p = u then Some p else None | None \<Rightarrow> None)"

definition sel_owned_product :: "pid \<Rightarrow> uid \<Rightarrow> product_row option stmt" where
  "sel_owned_product k u d = Some (d, owned_product d u k)"

text \<open>\<open>INSERT INTO products ...\<close> with a float price: \<open>NULL\<close> for a value the store cannot hold.\<close>

definition ins_product_float :: "ustr \<Rightarrow> pyfloat \<Rightarrow> ustr \<Rightarrow> uid \<Rightarrow> time \<Rightarrow> pid stmt" where
  "ins_product_float n x de u now d =
     (case pf_money x of None \<Rightarrow> None | Some m \<Rightarrow> ins_product n m de u now d)"

text \<open>\<open>UPDATE products SET ... WHERE id = ? AND created_by = ?\<close>; each field absent
  (\<open>None\<close>), \<open>null\<close> (\<open>Some None\<close>) or a value. \<open>name\<close> and \<open>price\<close> are \<open>NOT NULL\<close>.\<close>

definition upd_product :: "pid \<Rightarrow> uid \<Rightarrow> ustr option option \<Rightarrow> pyfloat option \<Rightarrow> ustr option option \<Rightarrow> unit stmt" where
  "upd_product k u n x de d =
     (case owned_product d u k of
        None \<Rightarrow> Some (d, ())
      | Some p \<Rightarrow>
          if n = Some None \<or> (case x of Some v \<Rightarrow> pf_money v = None | None \<Rightarrow> False) then None
          else Some (d\<lparr>products := (products d)(k \<mapsto>
                   p\<lparr>p_name := (case n of Some (Some v) \<Rightarrow> v | _ \<Rightarrow> p_name p),
                     p_price := (case x of Some v \<Rightarrow> the (pf_money v) | None \<Rightarrow> p_price p),
                     p_description := (case de of None \<Rightarrow> p_description p | Some None \<Rightarrow> [] | Some (Some v) \<Rightarrow> v)\<rparr>)\<rparr>,
                     ()))"

text \<open>\<open>DELETE FROM products WHERE id = ? AND created_by = ?\<close>\<close>

definition del_product :: "pid \<Rightarrow> uid \<Rightarrow> unit stmt" where
  "del_product k u d =
     Some (case owned_product d u k of None \<Rightarrow> d | Some _ \<Rightarrow> d\<lparr>products := (products d)(k := None)\<rparr>, ())"

text \<open>\<open>SELECT p.*, u.email as owner_email FROM products p JOIN users u ON p.created_by = u.id
  ORDER BY p.created_at DESC\<close>\<close>

definition sel_all_products :: "(pid \<times> product_row \<times> ustr) list stmt" where
  "sel_all_products d =
     Some (d, newest_first (\<lambda>(p, e). p_created_at p)
                (List.map_filter (\<lambda>(i, p). map_option (\<lambda>w. (i, p, email w)) (users d (created_by p)))
                   (rows_where (products d) (next_product d) (\<lambda>_. True))))"

section \<open>Handlers\<close>

record product_req =
  pq_name :: "ustr option"
  pq_price :: "jnum option"
  pq_desc :: "ustr option"

record product_view =
  pw_id :: pid
  pw_name :: ustr
  pw_price :: money
  pw_desc :: ustr
  pw_created_by :: uid

definition name_price_required :: api_error where
  "name_price_required = BadRequest (ustr ''Name and price required'')"

definition create_product :: "faults \<Rightarrow> time \<Rightarrow> uid \<Rightarrow> product_req \<Rightarrow> product_view act" where
  "create_product F now u b =
     (if \<not> truthy_str (pq_name b) \<or> \<not> (case pq_price b of None \<Rightarrow> False | Some v \<Rightarrow> jnum_truthy v)
      then eraise name_price_required
      else (case py_float_of (the (pq_price b)) of
              None \<Rightarrow> eraise internal_error
            | Some x \<Rightarrow>
                (let n = the (pq_name b); de = (case pq_desc b of None \<Rightarrow> [] | Some v \<Rightarrow> v) in
                 ebind (execute_query F (ins_product_float n x de u now)) (\<lambda>k.
                 ebind (execute_query F (sel_user u)) (\<lambda>w.
                 ebind (notify_if (case w of Some r \<Rightarrow> telegram_id r | None \<Rightarrow> None)
                          (Product_created n (the (pf_money x)))) (\<lambda>_.
                 eret \<lparr>pw_id = k, pw_name = n, pw_price = the (pf_money x), pw_desc = de, pw_created_by = u\<rparr>))))))"

definition get_products :: "faults \<Rightarrow> uid \<Rightarrow> (pid \<times> product_row) list act" where
  "get_products F u = execute_query F (sel_products_of u)"

definition get_all_products :: "faults \<Rightarrow> (pid \<times> product_row \<times> ustr) list act" where
  "get_all_products F = execute_query F sel_all_products"

record product_upd =
  pn_name :: "ustr option option"
  pn_price :: "jnum option option"
  pn_desc :: "ustr option option"

definition product_not_found :: api_error where
  "product_not_found = NotFound (ustr ''Product not found'')"

definition no_fields_to_update :: api_error where
  "no_fields_to_update = BadRequest (ustr ''No fields to update'')"

text \<open>\<open>float(data['price'])\<close> while the parameters are built: \<open>null\<close> and text that is
  not a float raise.\<close>

definition conv_price :: "jnum option option \<Rightarrow> api_error + pyfloat option" where
  "conv_price v =
     (case v of
        None \<Rightarrow> Inr None
      | Some None \<Rightarrow> Inl internal_error
      | Some (Some j) \<Rightarrow> (case py_float_of j of None \<Rightarrow> Inl internal_error | Some x \<Rightarrow> Inr (Some x)))"

text \<open>\<open>update_product\<close>: without a JSON body \<open>'name' in data\<close> raises after the SELECT.\<close>

definition update_product :: "faults \<Rightarrow> uid \<Rightarrow> pid \<Rightarrow> product_upd option \<Rightarrow> unit act" where
  "update_product F u k body =
     ebind (execute_query F (sel_owned_product k u)) (\<lambda>x.
       case x of
         None \<Rightarrow> eraise product_not_found
       | Some _ \<Rightarrow>
           (case body of
              None \<Rightarrow> eraise internal_error
            | Some b \<Rightarrow>
                (case conv_price (pn_price b) of
                   Inl e \<Rightarrow> eraise e
                 | Inr px \<Rightarrow>
                     if pn_name b = None \<and> pn_price b = None \<and> pn_desc b = None then eraise no_fields_to_update
                     else execute_query F (upd_product k u (pn_name b) px (pn_desc b)))))"

definition delete_product :: "faults \<Rightarrow> uid \<Rightarrow> pid \<Rightarrow> unit act" where
  "delete_product F u k =
     ebind (execute_query F (sel_owned_product k u)) (\<lambda>x.
       case x of
         None \<Rightarrow> eraise product_not_found
       | Some _ \<Rightarrow> execute_query F (del_product k u))"

section \<open>Ownership\<close>

text \<open>The only change a catalogue write may make: the products row \<open>k\<close>, when the caller owns it.\<close>

definition only_product_changed :: "uid \<Rightarrow> pid \<Rightarrow> db \<Rightarrow> db \<Rightarrow> bool" where
  "only_product_changed u k d d' \<longleftrightarrow>
     d' = d\<lparr>products := products d'\<rparr> \<and> (\<forall>q. products d' q \<noteq> products d q \<longrightarrow> q = k \<and> owned_product d u k \<noteq> None)"

definition demo_catalog_sys :: sys where
  "demo_catalog_sys = \<lparr>db = empty_db\<lparr>
     products := [1 \<mapsto> \<lparr>p_name = ustr ''pen'', p_price = 2, p_description = [], created_by = 1, p_created_at = 0\<rparr>],
     next_product := 2\<rparr>, sent = [], stmt_no = 0\<rparr>"

section \<open>Properties\<close>

lemma only_product_changed_refl [simp]: "only_product_changed u k d d"
  by (simp add: only_product_changed_def)

lemma execute_query_db:
  "execute_query F q s = (r, s') \<Longrightarrow> db s' = db s \<or> (\<exists>x. q (db s) = Some (db s', x))"
  by (auto simp: execute_query_def split: if_splits option.splits)

lemma upd_product_frame:
  "upd_product k u n x de d = Some (d', v) \<Longrightarrow> only_product_changed u k d d'"
  by (auto simp: upd_product_def only_product_changed_def split: option.splits if_splits)

lemma del_product_frame:
  "del_product k u d = Some (d', v) \<Longrightarrow> only_product_changed u k d d'"
  by (auto simp: del_product_def only_product_changed_def split: option.splits if_splits)

lemma owned_select_frame:
  "execute_query F (sel_owned_product k u) s = (r, s1) \<Longrightarrow> db s1 = db s"
  by (auto simp: execute_query_def sel_owned_product_def split: if_splits)

lemma update_product_frame:
  "only_product_changed u k (db s) (db (snd (update_product F u k b s)))"
proof -
  obtain r1 s1 where e1: "execute_query F (sel_owned_product k u) s = (r1, s1)" by fastforce
  have d1: "db s1 = db s" using owned_select_frame [OF e1] .
  have last: "only_product_changed u k (db s) (db (snd (execute_query F (upd_product k u n px de) s1)))" for n px de
  proof -
    obtain r2 s2 where e2: "execute_query F (upd_product k u n px de) s1 = (r2, s2)" by fastforce
    from execute_query_db [OF e2] d1 show ?thesis
      using e2 upd_product_frame by force
  qed
  show ?thesis
    using e1 d1 last
    by (simp add: update_product_def ebind_def eraise_def split: sum.split option.split)
qed

lemma delete_product_frame:
  "only_product_changed u k (db s) (db (snd (delete_product F u k s)))"
proof -
  obtain r1 s1 where e1: "execute_query F (sel_owned_product k u) s = (r1, s1)" by fastforce
  have d1: "db s1 = db s" using owned_select_frame [OF e1] .
  have last: "only_product_changed u k (db s) (db (snd (execute_query F (del_product k u) s1)))"
  proof -
    obtain r2 s2 where e2: "execute_query F (del_product k u) s1 = (r2, s2)" by fastforce
    from execute_query_db [OF e2] d1 show ?thesis
      using e2 del_product_frame by force
  qed
  show ?thesis
    using e1 d1 last
    by (simp add: delete_product_def ebind_def eraise_def split: sum.split option.split)
qed

text \<open>
  C29. Whatever the body, the faults and the outcome, \<open>update_product\<close> and
  \<open>delete_product\<close> change no table but \<open>products\<close>, and in it at most the row with the
  requested id, and only when that row belongs to the caller.
\<close>

theorem catalog_writes_only_own_product:
  "only_product_changed u k (db s) (db (snd (update_product F u k b s))) \<and>
   only_product_changed u k (db s) (db (snd (delete_product F u k s)))"
  using update_product_frame delete_product_frame by blast

theorem catalog_writes_only_own_product_witness:
  "owned_product (db demo_catalog_sys) 2 1 = None \<and>
   products (db (snd (delete_product no_faults 2 1 demo_catalog_sys))) = products (db demo_catalog_sys)"
proof -
  have o: "owned_product (db demo_catalog_sys) 2 1 = None"
    by (simp add: owned_product_def demo_catalog_sys_def)
  have "only_product_changed 2 1 (db demo_catalog_sys) (db (snd (delete_product no_faults 2 1 demo_catalog_sys)))"
    using catalog_writes_only_own_product [of 2 1 demo_catalog_sys no_faults] by blast
  then show ?thesis using o by (auto simp: only_product_changed_def)
qed

end
