(* ===== verification/Config.thy ===== *)
theory Config
  imports PyText
begin

text \<open>
  The settings of \<open>src/back/config.py\<close>. The class attributes are read from the process
  environment when the module is imported; \<open>get_config\<close> picks the class named by
  \<open>FLASK_ENV\<close>, falling back to development for any other name. The environment is a
  map from variable names to values; \<open>os.environ.get(k) or d\<close> takes the default also
  for a variable set to the empty text.
\<close>

type_synonym environ = "string \<rightharpoonup> ustr"

record config =
  c_secret_key :: ustr
  c_jwt_secret_key :: ustr
  c_database_path :: ustr
  c_jwt_expires :: nat
  c_cors_origins :: "ustr list"
  c_debug :: bool
  c_testing :: bool

definition env_or :: "environ \<Rightarrow> string \<Rightarrow> ustr \<Rightarrow> ustr" where
  "env_or env k d = (case env k of Some v \<Rightarrow> if v = [] then d else v | None \<Rightarrow> d)"

text \<open>\<open>os.environ.get(k, d)\<close>: here a variable set to the empty text is kept.\<close>

definition env_get :: "environ \<Rightarrow> string \<Rightarrow> ustr \<Rightarrow> ustr" where
  "env_get env k d = (case env k of Some v \<Rightarrow> v | None \<Rightarrow> d)"

text \<open>\<open>class Config\<close> and its two subclasses; \<open>JWT_ACCESS_TOKEN_EXPIRES\<close> in seconds.\<close>

definition base_config :: "environ \<Rightarrow> bool \<Rightarrow> config" where
  "base_config env dbg =
     \<lparr>c_secret_key = env_or env ''SECRET_KEY'' (ustr ''dev-secret-key-change-in-production''),
      c_jwt_secret_key = env_or env ''JWT_SECRET_KEY'' (ustr ''jwt-dev-secret-change-in-production''),
      c_database_path = env_or env ''DATABASE_PATH'' (ustr ''app.db''),
      c_jwt_expires = 24 * 60 * 60,
      c_cors_origins = py_split_sep 44 (env_get env ''CORS_ORIGINS'' (ustr ''http://localhost:3000'')),
      c_debug = dbg, c_testing = False\<rparr>"

definition get_config :: "environ \<Rightarrow> config" where
  "get_config env =
     (let e = env_get env ''FLASK_ENV'' (ustr ''development'') in
      if e = ustr ''production'' then base_config env False else base_config env True)"

section \<open>Properties\<close>

lemma get_config_jwt_default:
  "env ''JWT_SECRET_KEY'' = None \<or> env ''JWT_SECRET_KEY'' = Some [] \<Longrightarrow>
     c_jwt_secret_key (get_config env) = ustr ''jwt-dev-secret-change-in-production''"
  by (auto simp: get_config_def base_config_def env_or_def Let_def)

lemma get_config_debug:
  "c_debug (get_config env) \<longleftrightarrow> env_get env ''FLASK_ENV'' (ustr ''development'') \<noteq> ustr ''production''"
  by (simp add: get_config_def base_config_def Let_def)

lemma get_config_cors_default:
  "env ''CORS_ORIGINS'' = None \<Longrightarrow> c_cors_origins (get_config env) = [ustr ''http://localhost:3000'']"
  by (simp add: get_config_def base_config_def env_get_def Let_def py_split_sep_no_sep ustr_def)

end
