(* ===== verification/Backend.thy ===== *)
theory Backend
  imports Orders Linking Telegram Accounts Catalog
begin

text \<open>
  The Flask application of \<open>src/back/app.py\<close> as a whole: the routing table of the
  \<open>@app.route\<close> decorators, with \<open>@jwt_required\<close> in front of the handlers that carry
  it, as one step function \<open>route\<close> on the runtime state; the states the backend reaches
  from the freshly initialised database (\<open>init_db()\<close> at import) by any sequence of
  requests, whatever the faults, the clock, the drawn link tokens and the headers; and the
  invariant of the store that every such state satisfies.
\<close>

section \<open>The routes\<close>

text \<open>A request: the route and method with the parts of the request the handler reads
  (the JSON body as the handler's body record, the URL's \<open><int:...>\<close> parameter, the
  query arguments). \<open>/api/telegram/user-info\<close> and \<open>/api/telegram/orders\<close> take the
  chat id from the query string.\<close>

datatype request =
    Register reg_req
  | Login login_req
  | Get_me
  | Put_me "profile_upd option"
  | Delete_me
  | Post_product product_req
  | Get_products
  | Get_all_products
  | Put_product pid "product_upd option"
  | Delete_product pid
  | Post_order "item_req list option"
  | Get_orders
  | Get_order oid
  | Put_order oid "ustr option"
  | Tg_create_order tg_order_req
  | Tg_products "tgid option"
  | Generate_token
  | Link_telegram "ustr option" "tgid option"
  | Tg_user_info "tgid option"
  | Tg_orders "tgid option"
  | Hello

text \<open>The JSON of a successful answer, one constructor per kind of body.\<close>

datatype response =
    R_auth auth_resp
  | R_profile profile_view
  | R_message ustr
  | R_product product_view
  | R_products "(pid \<times> product_row) list"
  | R_all_products "(pid \<times> product_row \<times> ustr) list"
  | R_order order_view
  | R_orders "(oid \<times> order_row \<times> nat) list"
  | R_order_row "oid \<times> order_row"
  | R_tg_order tg_order_view
  | R_user_info user_info
  | R_order_list "order_json list"
  | R_link_token "ustr \<times> time"
  | R_linked ustr
  | R_hello ustr ustr

definition respond :: "('a \<Rightarrow> response) \<Rightarrow> 'a act \<Rightarrow> response act" where
  "respond f m = ebind m (\<lambda>x. eret (f x))"

text \<open>\<open>hello()\<close> on \<open>/\<close>: the message and the version (the constant
  \<open>endpoints\<close> listing is left out).\<close>

definition hello :: "response act" where
  "hello = eret (R_hello (ustr ''Order System API is running!'') (ustr ''2.0''))"

text \<open>
  Flask's dispatch on the \<open>@app.route\<close> table. \<open>h\<close> is the \<open>Authorization\<close>
  header, read by \<open>@jwt_required\<close> where the route carries it; \<open>now\<close> is the clock
  and \<open>tok\<close> the text \<open>secrets.token_hex(16)\<close> draws in \<open>generate_telegram_token\<close>.
\<close>

fun route :: "crypto \<Rightarrow> faults \<Rightarrow> time \<Rightarrow> ustr \<Rightarrow> ustr option \<Rightarrow> request \<Rightarrow> response act" where
  "route C F now tok h (Register rq) = respond R_auth (reg C F now rq)"
| "route C F now tok h (Login lq) = respond R_auth (login C F lq)"
| "route C F now tok h Get_me = jwt_required C h (\<lambda>u. respond R_profile (get_profile F u))"
| "route C F now tok h (Put_me b) = jwt_required C h (\<lambda>u. respond R_profile (update_profile F u b))"
| "route C F now tok h Delete_me =
     jwt_required C h (\<lambda>u. respond (\<lambda>_. R_message (ustr ''Account deleted successfully'')) (delete_account F u))"
| "route C F now tok h (Post_product pb) = jwt_required C h (\<lambda>u. respond R_product (create_product F now u pb))"
| "route C F now tok h Get_products = jwt_required C h (\<lambda>u. respond R_products (get_products F u))"
| "route C F now tok h Get_all_products = jwt_required C h (\<lambda>u. respond R_all_products (get_all_products F))"
| "route C F now tok h (Put_product k b) =
     jwt_required C h (\<lambda>u. respond (\<lambda>_. R_message (ustr ''Product updated successfully'')) (update_product F u k b))"
| "route C F now tok h (Delete_product k) =
     jwt_required C h (\<lambda>u. respond (\<lambda>_. R_message (ustr ''Product deleted successfully'')) (delete_product F u k))"
| "route C F now tok h (Post_order req) = jwt_required C h (\<lambda>u. respond R_order (create_order F now u req))"
| "route C F now tok h Get_orders = jwt_required C h (\<lambda>u. respond R_orders (get_orders F u))"
| "route C F now tok h (Get_order k) = jwt_required C h (\<lambda>u. respond R_order (get_order F u k))"
| "route C F now tok h (Put_order k st) = jwt_required C h (\<lambda>u. respond R_order_row (update_order F u k st))"
| "route C F now tok h (Tg_create_order tq) = respond R_tg_order (create_telegram_order F now tq)"
| "route C F now tok h (Tg_products tg) = respond R_products (get_telegram_products F tg)"
| "route C F now tok h Generate_token =
     jwt_required C h (\<lambda>u. respond R_link_token (generate_telegram_token F u tok now))"
| "route C F now tok h (Link_telegram a t) = respond R_linked (link_telegram F a t now)"
| "route C F now tok h (Tg_user_info tg) = respond R_user_info (get_telegram_user_info F tg)"
| "route C F now tok h (Tg_orders tg) = respond R_order_list (get_telegram_orders F tg)"
| "route C F now tok h Hello = hello"

text \<open>The routes that carry \<open>@jwt_required\<close>. On the routes the spec's HTTP table lists,
  this is its Auth column: \<open>bearer\<close> for the four order routes and
  \<open>/api/telegram/generate-token\<close>, none for the other Telegram routes and
  \<open>/link-telegram\<close>.\<close>

fun bearer_route :: "request \<Rightarrow> bool" where
  "bearer_route (Register _) = False"
| "bearer_route (Login _) = False"
| "bearer_route (Tg_create_order _) = False"
| "bearer_route (Tg_products _) = False"
| "bearer_route (Link_telegram _ _) = False"
| "bearer_route (Tg_user_info _) = False"
| "bearer_route (Tg_orders _) = False"
| "bearer_route Hello = False"
| "bearer_route _ = True"

text \<open>The answer \<open>@jwt_required\<close> gives a header without a token that verifies.\<close>

definition auth_failure :: "crypto \<Rightarrow> ustr option \<Rightarrow> api_error option" where
  "auth_failure C h =
     (case bearer_token h of
        None \<Rightarrow> Some token_missing
      | Some t \<Rightarrow> (case verify_access_token C t of None \<Rightarrow> Some token_rejected | Some _ \<Rightarrow> None))"

text \<open>The state after \<open>init_db()\<close> on a new database file, before any request.\<close>

definition backend_init :: sys where
  "backend_init = \<lparr>db = empty_db, sent = [], stmt_no = 0\<rparr>"

text \<open>The states the running backend reaches: any request, any header, any clock, any
  drawn token and any faults, one after the other.\<close>

inductive backend_reach :: "crypto \<Rightarrow> sys \<Rightarrow> bool" for C where
  reach_init: "backend_reach C backend_init"
| reach_step: "backend_reach C s \<Longrightarrow> route C F now tok h r s = (a, s') \<Longrightarrow> backend_reach C s'"

section \<open>The invariant of the store\<close>

text \<open>The \<open>UNIQUE\<close> columns \<open>users.username\<close> and \<open>users.email\<close>.\<close>

definition users_unique :: "db \<Rightarrow> bool" where
  "users_unique d \<longleftrightarrow> unique_col username (users d) (next_user d) \<and> unique_col email (users d) (next_user d)"

text \<open>The \<open>status\<close> column holds one of the four statuses \<open>update_order\<close> accepts
  (the schema has no \<open>CHECK\<close> for it).\<close>

definition statuses_ok :: "db \<Rightarrow> bool" where
  "statuses_ok d \<longleftrightarrow> (\<forall>k r. orders d k = Some r \<longrightarrow> o_status r \<in> set allowed_statuses)"

definition store_inv :: "db \<Rightarrow> bool" where
  "store_inv d \<longleftrightarrow> db_wf d \<and> tokens_unique d \<and> users_unique d \<and> statuses_ok d"

text \<open>A statement that writes neither the users nor the link tokens, and in the orders
  at most deletes.\<close>

definition other_tables :: "'a stmt \<Rightarrow> bool" where
  "other_tables q \<longleftrightarrow>
     (\<forall>d d' r. q d = Some (d', r) \<longrightarrow>
        users d' = users d \<and> next_user d' = next_user d \<and> link_tokens d' = link_tokens d \<and>
        next_token d' = next_token d \<and> (\<forall>k o'. orders d' k = Some o' \<longrightarrow> orders d k = Some o'))"

text \<open>An order item refers to an order id below the counter: inside the item loops the
  order's own id \<open>k\<close> is one, since its \<open>INSERT\<close> came first.\<close>

definition item_inv :: "oid \<Rightarrow> db \<Rightarrow> bool" where
  "item_inv k d \<longleftrightarrow> store_inv d \<and> k < next_order d"

abbreviation inv_kept :: "'a act \<Rightarrow> bool" where
  "inv_kept m \<equiv> keeps (\<lambda>s. store_inv (db s)) m"


text \<open>A short session on a fresh backend: Ann registers, lists a product and orders two
  of it, authenticated by the token \<open>reg\<close> gave her.\<close>

definition demo_reg_req :: reg_req where
  "demo_reg_req = \<lparr>rg_username = Some (ustr ''ann''), rg_email = Some (ustr ''ann@shop''),
     rg_password = Some (ustr ''pw''), rg_first_name = Some (ustr ''Ann''), rg_last_name = Some (ustr ''Lee'')\<rparr>"

definition demo_auth :: "ustr option" where
  "demo_auth = Some (ustr ''Bearer '' @ create_access_token demo_crypto 1)"


definition demo_product_req :: product_req where
  "demo_product_req = \<lparr>pq_name = Some (ustr ''tea''), pq_price = Some (JNum 2), pq_desc = None\<rparr>"


definition demo_signed_up :: sys where
  "demo_signed_up = snd (route demo_crypto no_faults 10 [] None (Register demo_reg_req) backend_init)"

definition demo_listed :: sys where
  "demo_listed = snd (route demo_crypto no_faults 11 [] demo_auth (Post_product demo_product_req) demo_signed_up)"

definition demo_ordered :: sys where
  "demo_ordered = snd (route demo_crypto no_faults 12 [] demo_auth
                     (Post_order (Some [\<lparr>rq_product_id = Some 1, rq_qty = Some 2\<rparr>])) demo_listed)"

section \<open>Statements keep the invariant\<close>

lemma store_inv_empty: "store_inv empty_db"
  using empty_db_wf by (simp add: store_inv_def users_unique_def statuses_ok_def tokens_unique_def
      unique_col_def empty_db_def rows_where_def)

lemma unique_col_sub:
  assumes u: "unique_col f t n"
    and s: "\<And>i r'. t' i = Some r' \<Longrightarrow> \<exists>r. t i = Some r \<and> f r' = f r"
  shows "unique_col f t' n"
  unfolding unique_col_iff
proof (intro allI impI)
  fix i j ri rj
  assume b: "0 < i" "i < n" "0 < j" "j < n" and ti: "t' i = Some ri" and tj: "t' j = Some rj"
    and e: "f ri = f rj"
  obtain ri' where i': "t i = Some ri'" "f ri = f ri'" using s [OF ti] by blast
  obtain rj' where j': "t j = Some rj'" "f rj = f rj'" using s [OF tj] by blast
  from e i'(2) j'(2) have "f ri' = f rj'" by simp
  with u b i'(1) j'(1) show "i = j" by (rule unique_colD)
qed

lemma users_unique_sub:
  assumes u: "users_unique d" and n: "next_user d' = next_user d"
    and s: "\<And>i r'. users d' i = Some r' \<Longrightarrow> \<exists>r. users d i = Some r \<and> username r' = username r \<and> email r' = email r"
  shows "users_unique d'"
proof -
  have a: "unique_col username (users d) (next_user d)" and b: "unique_col email (users d) (next_user d)"
    using u by (simp_all add: users_unique_def)
  have "unique_col username (users d') (next_user d)"
    by (rule unique_col_sub [OF a]) (use s in blast)
  moreover have "unique_col email (users d') (next_user d)"
    by (rule unique_col_sub [OF b]) (use s in blast)
  ultimately show ?thesis by (simp add: users_unique_def n)
qed

lemma preservesI: "(\<And>d d' r. P d \<Longrightarrow> q d = Some (d', r) \<Longrightarrow> P d') \<Longrightarrow> preserves P q"
  by (simp add: preserves_def)

lemma preservesD: "preserves P q \<Longrightarrow> P d \<Longrightarrow> q d = Some (d', r) \<Longrightarrow> P d'"
  unfolding preserves_def by blast

lemma preserves_other_tables:
  assumes "keeps_wf q" "other_tables q"
  shows "preserves store_inv q"
  unfolding preserves_def
proof (intro allI impI)
  fix d d' r assume inv: "store_inv d" and q: "q d = Some (d', r)"
  from assms(2) q have f: "users d' = users d" "next_user d' = next_user d" "link_tokens d' = link_tokens d"
    "next_token d' = next_token d" "\<And>k o'. orders d' k = Some o' \<Longrightarrow> orders d k = Some o'"
    by (auto simp: other_tables_def)
  from assms(1) inv q have "db_wf d'" by (auto simp: keeps_wf_def store_inv_def)
  with inv f show "store_inv d'"
    by (auto simp: store_inv_def users_unique_def statuses_ok_def tokens_unique_def)
qed

lemma other_tables_read_only: "read_only q \<Longrightarrow> other_tables q"
  by (auto simp: read_only_def other_tables_def)

lemma other_tables_writes [intro]:
  "other_tables (ins_product n pr de u now)" "other_tables (ins_product_float n x de u now)"
  "other_tables (upd_product k u n' x' de')" "other_tables (del_product k u)"
  "other_tables (del_items_of_user u)" "other_tables (del_orders_of u)" "other_tables (del_products_of u)"
  "other_tables (ins_item k p q pr)"
  by (auto simp: other_tables_def ins_product_def add_product_def ins_product_float_def upd_product_def
      del_product_def del_items_of_user_def del_orders_of_def del_products_of_def ins_item_def add_item_def
      split: option.splits if_splits)

lemma keeps_wf_ins_product_float [intro]: "keeps_wf (ins_product_float n x de u now)"
  using keeps_wf_ins_product by (auto simp: keeps_wf_def ins_product_float_def split: option.splits)

lemma keeps_wf_upd_product [intro]: "keeps_wf (upd_product k u n' x' de')"
  by (auto simp: keeps_wf_def db_wf_def upd_product_def owned_product_def below_update split: option.splits if_splits)

lemma keeps_wf_del_product [intro]: "keeps_wf (del_product k u)"
  by (auto simp: keeps_wf_def db_wf_def del_product_def elim!: below_sub split: option.splits if_splits)

lemma keeps_wf_deletes [intro]:
  "keeps_wf (del_items_of_user u)" "keeps_wf (del_orders_of u)" "keeps_wf (del_products_of u)"
  by (auto simp: keeps_wf_def db_wf_def del_items_of_user_def del_orders_of_def del_products_of_def
      elim!: below_sub)

text \<open>The statements on link tokens keep \<open>link_inv\<close> (\<open>Linking\<close>) and touch no other table.\<close>

lemma preserves_token_stmt:
  assumes "preserves link_inv q"
    and "\<And>d d' r. q d = Some (d', r) \<Longrightarrow> users d' = users d \<and> next_user d' = next_user d \<and> orders d' = orders d"
  shows "preserves store_inv q"
  unfolding preserves_def
proof (intro allI impI)
  fix d d' r assume inv: "store_inv d" and q: "q d = Some (d', r)"
  from inv have "link_inv d" by (simp add: store_inv_def link_inv_def)
  with assms(1) q have "link_inv d'" unfolding preserves_def by blast
  moreover from assms(2) [OF q] inv have "users_unique d' \<and> statuses_ok d'"
    by (simp add: store_inv_def users_unique_def statuses_ok_def)
  ultimately show "store_inv d'" by (simp add: store_inv_def link_inv_def)
qed

lemma preserves_token_stmts [intro]:
  "preserves store_inv (del_tokens_of u)" "preserves store_inv (ins_token u tok ex)"
  "preserves store_inv (mark_token_used i)"
  by (auto intro!: preserves_token_stmt simp: del_tokens_of_def ins_token_def mark_token_used_def split: if_splits)

text \<open>The statements on users keep the \<open>UNIQUE\<close> columns: \<open>INSERT\<close> checks them,
  the updates leave \<open>username\<close> and \<open>email\<close> as they are.\<close>

lemma preserves_user_stmt:
  assumes "keeps_wf q"
    and "\<And>d d' r. q d = Some (d', r) \<Longrightarrow> link_tokens d' = link_tokens d \<and> next_token d' = next_token d \<and>
           orders d' = orders d \<and> (db_wf d \<longrightarrow> users_unique d \<longrightarrow> users_unique d')"
  shows "preserves store_inv q"
proof (rule preservesI)
  fix d d' r assume inv: "store_inv d" and q: "q d = Some (d', r)"
  from assms(1) inv q have wf: "db_wf d'" unfolding keeps_wf_def store_inv_def by blast
  from assms(2) [OF q] inv have "tokens_unique d' \<and> users_unique d' \<and> statuses_ok d'"
    by (simp add: store_inv_def tokens_unique_def statuses_ok_def)
  with wf show "store_inv d'" by (simp add: store_inv_def)
qed

lemma users_unique_upd:
  "users_unique d \<Longrightarrow> users d u = Some r \<Longrightarrow> username r' = username r \<Longrightarrow> email r' = email r \<Longrightarrow>
     users_unique (d\<lparr>users := (users d)(u \<mapsto> r')\<rparr>)"
  by (erule users_unique_sub) (auto split: if_splits)

lemma preserves_upd_user_tg [intro]: "preserves store_inv (upd_user_tg u t)"
  by (rule preserves_user_stmt) (auto simp: upd_user_tg_def users_unique_upd split: option.splits)

lemma keeps_wf_upd_user_fields: "keeps_wf (upd_user_fields u b)"
  by (auto simp: keeps_wf_def db_wf_def upd_user_fields_def below_update split: option.splits if_splits)

lemma preserves_upd_user_fields [intro]: "preserves store_inv (upd_user_fields u b)"
  by (rule preserves_user_stmt [OF keeps_wf_upd_user_fields])
     (auto simp: upd_user_fields_def users_unique_upd split: option.splits if_splits)

lemma preserves_del_user [intro]: "preserves store_inv (del_user u)"
  by (rule preserves_user_stmt)
     (auto simp: keeps_wf_def db_wf_def del_user_def elim!: below_sub users_unique_sub split: if_splits)

lemma keeps_wf_ins_user: "keeps_wf (ins_user n e fnm lnm h now)"
  by (auto simp: keeps_wf_def db_wf_def ins_user_def add_user_def below_insert split: if_splits)

lemma unique_col_insert:
  assumes u: "unique_col f t n" and b: "below t n" and fresh: "\<And>i r. t i = Some r \<Longrightarrow> f r \<noteq> f x"
  shows "unique_col f (t(n \<mapsto> x)) (Suc n)"
  unfolding unique_col_iff
proof (intro allI impI)
  fix i j ri rj
  assume bi: "0 < i" "i < Suc n" and bj: "0 < j" "j < Suc n"
    and ti: "(t(n \<mapsto> x)) i = Some ri" and tj: "(t(n \<mapsto> x)) j = Some rj" and e: "f ri = f rj"
  show "i = j"
  proof (cases "i = n \<or> j = n")
    case True
    then show ?thesis
    proof
      assume "i = n"
      with ti have "ri = x" by simp
      show ?thesis
      proof (rule ccontr)
        assume "i \<noteq> j"
        with \<open>i = n\<close> tj have "t j = Some rj" by simp
        from fresh [OF this] e \<open>ri = x\<close> show False by simp
      qed
    next
      assume "j = n"
      with tj have "rj = x" by simp
      show ?thesis
      proof (rule ccontr)
        assume "i \<noteq> j"
        with \<open>j = n\<close> ti have "t i = Some ri" by simp
        from fresh [OF this] e \<open>rj = x\<close> show False by simp
      qed
    qed
  next
    case False
    with bi bj ti tj have "i < n" "j < n" "t i = Some ri" "t j = Some rj" by auto
    then show ?thesis using unique_colD [OF u bi(1) \<open>i < n\<close> bj(1) \<open>j < n\<close>] e by blast
  qed
qed

lemma users_unique_add_user:
  assumes wf: "db_wf d" and u: "users_unique d"
    and fresh: "rows_where (users d) (next_user d) (\<lambda>r. username r = n \<or> email r = e) = []"
  shows "users_unique (add_user n e fnm lnm h now d)"
proof -
  have b: "below (users d) (next_user d)" using wf by (simp add: db_wf_def)
  have old: "username r \<noteq> n" "email r \<noteq> e" if "users d i = Some r" for i r
  proof -
    from b that have "0 < i" "i < next_user d" by (auto simp: below_def)
    with fresh that show "username r \<noteq> n" "email r \<noteq> e" unfolding rows_where_Nil_iff by auto
  qed
  from u have "unique_col username (users d) (next_user d)" "unique_col email (users d) (next_user d)"
    by (simp_all add: users_unique_def)
  then have "unique_col username ((users d)(next_user d \<mapsto> \<lparr>username = n, email = e, first_name = fnm,
               last_name = lnm, password_hash = h, theme = ustr ''light'', telegram_id = None, u_created_at = now\<rparr>))
               (Suc (next_user d))"
    and "unique_col email ((users d)(next_user d \<mapsto> \<lparr>username = n, email = e, first_name = fnm,
               last_name = lnm, password_hash = h, theme = ustr ''light'', telegram_id = None, u_created_at = now\<rparr>))
               (Suc (next_user d))"
    using b old by (auto intro!: unique_col_insert)
  then show ?thesis by (simp add: users_unique_def add_user_def)
qed

lemma preserves_ins_user [intro]: "preserves store_inv (ins_user n e fnm lnm h now)"
proof (rule preserves_user_stmt [OF keeps_wf_ins_user])
  fix d d' r assume q: "ins_user n e fnm lnm h now d = Some (d', r)"
  then have fresh: "rows_where (users d) (next_user d) (\<lambda>r. username r = n \<or> email r = e) = []"
    and d': "d' = add_user n e fnm lnm h now d"
    by (simp_all add: ins_user_def split: if_splits)
  have "db_wf d \<longrightarrow> users_unique d \<longrightarrow> users_unique d'"
    using users_unique_add_user [OF _ _ fresh] unfolding d' by blast
  moreover have "link_tokens d' = link_tokens d \<and> next_token d' = next_token d \<and> orders d' = orders d"
    by (simp add: d' add_user_def)
  ultimately show "link_tokens d' = link_tokens d \<and> next_token d' = next_token d \<and> orders d' = orders d \<and>
           (db_wf d \<longrightarrow> users_unique d \<longrightarrow> users_unique d')" by blast
qed

text \<open>Orders enter with a status of the four, and only such a status is written.\<close>

lemma preserves_order_stmt:
  assumes "keeps_wf q"
    and "\<And>d d' r. q d = Some (d', r) \<Longrightarrow> users d' = users d \<and> next_user d' = next_user d \<and>
           link_tokens d' = link_tokens d \<and> next_token d' = next_token d \<and>
           (\<forall>k o'. orders d' k = Some o' \<longrightarrow> orders d k = Some o' \<or> o_status o' \<in> set allowed_statuses)"
  shows "preserves store_inv q"
proof (rule preservesI)
  fix d d' r assume inv: "store_inv d" and q: "q d = Some (d', r)"
  from assms(1) inv q have wf: "db_wf d'" unfolding keeps_wf_def store_inv_def by blast
  from assms(2) [OF q] have f: "users d' = users d" "next_user d' = next_user d" "link_tokens d' = link_tokens d"
    "next_token d' = next_token d" "\<And>k o'. orders d' k = Some o' \<Longrightarrow> orders d k = Some o' \<or> o_status o' \<in> set allowed_statuses"
    by blast+
  have "statuses_ok d'" unfolding statuses_ok_def
  proof (intro allI impI)
    fix k o' assume "orders d' k = Some o'"
    with f(5) inv show "o_status o' \<in> set allowed_statuses" by (auto simp: store_inv_def statuses_ok_def)
  qed
  with wf f(1-4) inv show "store_inv d'" by (simp add: store_inv_def tokens_unique_def users_unique_def)
qed

lemma preserves_ins_order [intro]:
  "st \<in> set allowed_statuses \<Longrightarrow> preserves store_inv (ins_order u tot st now)"
  by (rule preserves_order_stmt) (auto simp: ins_order_def add_order_def split: if_splits)

lemma preserves_upd_order_status [intro]:
  "v \<in> set allowed_statuses \<Longrightarrow> preserves store_inv (upd_order_status k v)"
  by (rule preserves_order_stmt) (auto simp: upd_order_status_def split: option.splits if_splits)

lemma preserves_ins_item [intro]: "preserves (item_inv k) (ins_item k p q pr)"
proof (rule preservesI)
  fix d d' r assume inv: "item_inv k d" and q: "ins_item k p q pr d = Some (d', r)"
  then have wf: "db_wf d'" by (auto simp: item_inv_def store_inv_def intro: ins_item_wf)
  from q have "d' = add_item k p q pr d" by (simp add: ins_item_def)
  with wf inv show "item_inv k d'"
    by (simp add: item_inv_def store_inv_def tokens_unique_def users_unique_def statuses_ok_def add_item_def)
qed

lemma preserves_item_inv [intro]:
  assumes "preserves store_inv q" and "\<And>d d' r. q d = Some (d', r) \<Longrightarrow> next_order d \<le> next_order d'"
  shows "preserves (item_inv k) q"
proof (rule preservesI)
  fix d d' r assume inv: "item_inv k d" and q: "q d = Some (d', r)"
  from inv have "store_inv d" by (simp add: item_inv_def)
  from preservesD [OF assms(1) this q] have "store_inv d'" .
  moreover from inv assms(2) [OF q] have "k < next_order d'" by (simp add: item_inv_def less_le_trans)
  ultimately show "item_inv k d'" by (simp add: item_inv_def)
qed

lemma ins_order_post:
  "execute_query F (ins_order u tot st now) s = (Inr k, s') \<Longrightarrow> k < next_order (db s')"
  by (auto simp: execute_query_def ins_order_def add_order_def split: if_splits)

section \<open>Every handler keeps the invariant\<close>

lemma read_only_account_selects [intro, simp]:
  "read_only (sel_user_taken e n)" "read_only (sel_user_by_login l)" "read_only (sel_owned_product k u)"
  "read_only sel_all_products"
  by (simp_all add: read_only_def sel_user_taken_def sel_user_by_login_def sel_owned_product_def
      sel_all_products_def)

text \<open>\<open>k = cursor.lastrowid\<close> followed by statements that need what the first one
  established about \<open>k\<close>.\<close>

lemma keeps_ebind_post:
  assumes m: "keeps P m" and post: "\<And>s a s'. P s \<Longrightarrow> m s = (Inr a, s') \<Longrightarrow> Q a s'"
    and f: "\<And>a. keeps (\<lambda>s. P s \<and> Q a s) (f a)"
  shows "keeps P (ebind m f)"
  unfolding keeps_def
proof (intro allI impI)
  fix s assume "P s"
  obtain r s1 where e: "m s = (r, s1)" by fastforce
  with m \<open>P s\<close> have "P s1" by (rule keepsD)
  show "P (snd (ebind m f s))"
  proof (cases r)
    case (Inl x)
    with e \<open>P s1\<close> show ?thesis by (simp add: ebind_def)
  next
    case (Inr a)
    with e post \<open>P s\<close> have "Q a s1" by blast
    with f \<open>P s1\<close> have "P (snd (f a s1)) \<and> Q a (snd (f a s1))" by (simp add: keeps_def)
    with e Inr show ?thesis by (simp add: ebind_def)
  qed
qed

lemma keeps_tg_try [intro]: "keeps P m \<Longrightarrow> keeps P (tg_try m)"
  by (auto simp: keeps_def tg_try_def split: prod.splits sum.splits)

lemma keeps_catch_all [intro]: "keeps P m \<Longrightarrow> keeps P (catch_all e m)"
  by (auto simp: keeps_def catch_all_def split: prod.splits sum.splits)

lemma preserves_selects [intro]:
  "preserves store_inv (sel_user u)" "preserves store_inv (sel_user_by_tg t)"
  "preserves store_inv (sel_product_owner i)" "preserves store_inv (sel_products_of u)"
  "preserves store_inv (sel_items_named k)" "preserves store_inv (sel_order_of k u)"
  "preserves store_inv (sel_order k)" "preserves store_inv (sel_order_buyer_tg k)"
  "preserves store_inv (sel_orders_counted u)" "preserves store_inv (sel_orders_of u)"
  "preserves store_inv (sel_orders_by_id u)" "preserves store_inv (sel_orders_recent n u)"
  "preserves store_inv (sel_valid_token tok now)" "preserves store_inv (sel_user_taken e n')"
  "preserves store_inv (sel_user_by_login l)" "preserves store_inv (sel_owned_product k u)"
  "preserves store_inv sel_all_products"
  by (simp_all add: preserves_read_only)

lemma preserves_writes [intro]:
  "preserves store_inv (ins_product n pr de u now)" "preserves store_inv (ins_product_float n x de u now)"
  "preserves store_inv (upd_product k u n' x' de')" "preserves store_inv (del_product k u)"
  "preserves store_inv (del_items_of_user u)" "preserves store_inv (del_orders_of u)"
  "preserves store_inv (del_products_of u)"
  by (rule preserves_other_tables; blast)+

lemmas keeps_rules = keeps_ebind keeps_eret keeps_eraise keeps_efold keeps_eforeach keeps_emap
  keeps_execute_preserves preserves_selects preserves_writes preserves_token_stmts preserves_upd_user_tg
  preserves_upd_user_fields preserves_del_user preserves_ins_user keeps_notify_if keeps_send
  keeps_tg_try keeps_catch_all

lemma keeps_accounts:
  "inv_kept (reg C F now rq)" "inv_kept (login C F lq)" "inv_kept (get_profile F u)"
  "inv_kept (update_profile F u b)" "inv_kept (delete_account F u)"
  by (auto simp: reg_def login_def get_profile_def update_profile_def delete_account_def Let_def
      split: option.split prod.split intro!: keeps_rules)

lemma keeps_catalog:
  "inv_kept (create_product F now u pb)" "inv_kept (get_products F u)" "inv_kept (get_all_products F)"
  "inv_kept (update_product F u k b')" "inv_kept (delete_product F u k)"
  by (auto simp: create_product_def get_products_def get_all_products_def update_product_def
      delete_product_def Let_def split: option.split sum.split intro!: keeps_rules)

lemma keeps_set_status: "inv_kept (set_status F k v old)"
  unfolding set_status_def
  by (auto split: if_split intro!: keeps_rules preserves_upd_order_status)

text \<open>The item loops run with the order's id below the counter.\<close>

lemma keeps_new_order:
  assumes "st \<in> set allowed_statuses"
    and "\<And>k. keeps (\<lambda>s. item_inv k (db s)) (f k)"
  shows "inv_kept (ebind (execute_query F (ins_order u tot st now)) f)"
proof (rule keeps_ebind_post [where Q = "\<lambda>k s. k < next_order (db s)"])
  show "inv_kept (execute_query F (ins_order u tot st now))"
    using assms(1) by (intro keeps_execute_preserves preserves_ins_order)
  show "k < next_order (db s')" if "execute_query F (ins_order u tot st now) s = (Inr k, s')" for s k s'
    using that by (rule ins_order_post)
  show "keeps (\<lambda>s. store_inv (db s) \<and> k < next_order (db s)) (f k)" for k
    using assms(2) [of k] by (simp add: item_inv_def)
qed

lemma preserves_item_stmts [intro]:
  "preserves (item_inv k) (ins_product n pr de u now)" "preserves (item_inv k) (sel_order k')"
  "preserves (item_inv k) (sel_items_named k')"
  by (auto intro!: preserves_item_inv simp: ins_product_def add_product_def sel_order_def sel_items_named_def)

lemma keeps_orders:
  "inv_kept (create_order F now u req)" "inv_kept (get_orders F u)" "inv_kept (get_order F u k)"
  "inv_kept (update_order F u k st)"
proof -
  have "keeps (\<lambda>s. item_inv k (db s)) (ebind (eforeach (\<lambda>l. execute_query F (ins_item k (l_product l) (l_qty l) (l_price l)))
              (c_lines acc)) (\<lambda>_. eret k))" for k acc
    by (intro keeps_rules keeps_execute_preserves preserves_ins_item)
  then have ins: "inv_kept (insert_order F now u acc)" for acc
    unfolding insert_order_def by (intro keeps_new_order) (simp_all add: allowed_statuses_def)
  have col: "inv_kept (collect_item F acc it)" for acc it
    unfolding collect_item_def Let_def by (auto split: option.split prod.split intro!: keeps_rules)
  have ntf: "inv_kept (notify_order F u k acc)" for k acc
    unfolding notify_order_def by (auto split: prod.split intro!: keeps_rules)
  show "inv_kept (create_order F now u req)"
    unfolding create_order_def by (auto split: option.split list.split intro!: keeps_rules ins col ntf)
  show "inv_kept (get_orders F u)" "inv_kept (get_order F u k)"
    unfolding get_orders_def get_order_def by (auto split: option.split intro!: keeps_rules)
  show "inv_kept (update_order F u k st)"
    unfolding update_order_def by (auto split: option.split intro!: keeps_rules keeps_set_status)
qed

lemma keeps_telegram:
  "inv_kept (create_telegram_order F now tq)" "inv_kept (get_telegram_products F tg)"
  "inv_kept (get_telegram_user_info F tg)" "inv_kept (get_telegram_orders F tg)"
proof -
  have item: "keeps (\<lambda>s. item_inv k (db s)) (tg_insert_item F now u k it)" for u k it
    unfolding tg_insert_item_def
    by (auto split: option.split prod.split intro!: keeps_rules keeps_execute_preserves preserves_ins_item
        preserves_item_stmts)
  have fin: "keeps (\<lambda>s. item_inv k (db s)) (tg_finish F k ur tot ls)" for k ur tot ls
    unfolding tg_finish_def
    by (auto split: option.split intro!: keeps_rules keeps_execute_preserves preserves_item_stmts)
  have place: "inv_kept (tg_place_order F now u ur tot its)" for u ur tot its
    unfolding tg_place_order_def
    by (intro keeps_new_order keeps_ebind keeps_emap item fin) (simp add: allowed_statuses_def)
  show "inv_kept (create_telegram_order F now tq)"
    unfolding create_telegram_order_def tg_order_body_def
    by (auto split: option.split prod.split intro!: keeps_rules place)
  have usr: "inv_kept (tg_user F tg)" for tg
    unfolding tg_user_def by (auto split: option.split intro!: keeps_rules)
  have wi: "inv_kept (with_items F o')" for o'
    unfolding with_items_def by (intro keeps_rules)
  show "inv_kept (get_telegram_products F tg)" "inv_kept (get_telegram_user_info F tg)"
    "inv_kept (get_telegram_orders F tg)"
    unfolding get_telegram_products_def get_telegram_user_info_def get_telegram_orders_def
    by (auto split: prod.split intro!: keeps_rules usr wi)
qed

lemma keeps_linking:
  "inv_kept (generate_telegram_token F u tok now)" "inv_kept (link_telegram F tok' tg now')"
  unfolding generate_telegram_token_def link_telegram_def
  by (auto split: option.split prod.split intro!: keeps_rules)

section \<open>The invariant in every reachable state\<close>

lemma keeps_respond [intro]: "keeps P m \<Longrightarrow> keeps P (respond f m)"
  unfolding respond_def by (intro keeps_ebind keeps_eret)

lemma keeps_jwt_required [intro]: "(\<And>u. keeps P (f u)) \<Longrightarrow> keeps P (jwt_required C h f)"
  unfolding jwt_required_def by (auto split: option.split)

lemma keeps_route: "inv_kept (route C F now tok h r)"
  by (cases r) (auto simp: hello_def intro!: keeps_respond keeps_jwt_required keeps_accounts keeps_catalog
      keeps_orders keeps_telegram keeps_linking)

lemma reach_store_inv: "backend_reach C s \<Longrightarrow> store_inv (db s)"
proof (induction rule: backend_reach.induct)
  case reach_init
  show ?case by (simp add: backend_init_def store_inv_empty)
next
  case (reach_step s F now tok h r a s')
  from keeps_route reach_step.IH reach_step.hyps(2) show ?case by (rule keepsD)
qed

lemma reach_route:
  "backend_reach C s \<Longrightarrow> backend_reach C (snd (route C F now tok h r s))"
  by (rule reach_step [where a = "fst (route C F now tok h r s)"]) simp_all

lemma demo_reach: "backend_reach demo_crypto demo_ordered"
  unfolding demo_ordered_def demo_listed_def demo_signed_up_def
  by (intro reach_route reach_init)

lemma demo_auth_jwt: "jwt_required demo_crypto demo_auth f = f 1"
  unfolding demo_auth_def using demo_crypto_ok by (rule jwt_required_own_token)

lemma demo_signed_up_db:
  "db demo_signed_up = add_user (ustr ''ann'') (ustr ''ann@shop'') (ustr ''Ann'') (ustr ''Lee'') (ustr ''hpw'') 10 empty_db"
  by (simp add: demo_signed_up_def respond_def reg_def demo_reg_req_def missing_field_def truthy_str_def ustr_def
      sel_user_taken_def ins_user_def add_user_def empty_db_def backend_init_def rows_where_def
      hash_pswd_def demo_crypto_def Let_def ebind_def eret_def execute_query_def no_faults_def)

lemma demo_listed_db: "db demo_listed = add_product (ustr ''tea'') 2 [] 1 11 (db demo_signed_up)"
  unfolding demo_listed_def
  by (simp add: demo_auth_jwt respond_def create_product_def demo_product_req_def truthy_str_def ustr_def
      jnum_truthy_def py_float_of_def ins_product_float_def pf_money_def ins_product_def sel_user_def
      demo_signed_up_db add_user_def empty_db_def notify_if_def ebind_def eret_def execute_query_def
      no_faults_def Let_def)

lemma demo_ordered_order:
  "orders (db demo_ordered) 1 = Some \<lparr>o_user = 1, total_amount = 4, o_status = ustr ''new'', o_created_at = 12\<rparr>"
  unfolding demo_ordered_def
  by (simp add: demo_auth_jwt respond_def create_order_def collect_item_def insert_order_def notify_order_def
      demo_listed_db demo_signed_up_db sel_product_owner_def product_owner_def ins_order_def add_order_def
      ins_item_def add_item_def add_product_def add_user_def empty_db_def collect_empty_def sel_user_def
      sel_items_named_def notify_if_def ebind_def eret_def execute_query_def no_faults_def Let_def)

text \<open>
  C16. In every state the backend reaches from a fresh database, by any sequence of
  requests with any headers, clock, drawn tokens and database faults, the store is
  well-formed (every row id is below its table's counter and every order item refers to
  an order id already handed out), no two link tokens are equal, and no two users share a
  username or an e-mail.
\<close>

theorem backend_store_invariant:
  "backend_reach C s \<Longrightarrow> db_wf (db s) \<and> tokens_unique (db s) \<and> users_unique (db s)"
  using reach_store_inv [of C s] by (simp add: store_inv_def)

theorem backend_store_invariant_witness:
  "backend_reach demo_crypto demo_ordered \<and>
   db_wf (db demo_ordered) \<and> tokens_unique (db demo_ordered) \<and> users_unique (db demo_ordered)"
  using demo_reach backend_store_invariant [OF demo_reach] by simp

text \<open>
  C14. The status column only ever holds one of the four statuses \<open>update_order\<close>
  accepts: orders are inserted as \<open>new\<close> by both order endpoints, and
  \<open>update_order\<close> checks a new status before writing it.
\<close>

theorem backend_order_status_type:
  "backend_reach C s \<Longrightarrow> orders (db s) k = Some r \<Longrightarrow> o_status r \<in> set allowed_statuses"
  using reach_store_inv [of C s] by (simp add: store_inv_def statuses_ok_def)

theorem backend_order_status_type_witness:
  "backend_reach demo_crypto demo_ordered \<and>
   orders (db demo_ordered) 1 = Some \<lparr>o_user = 1, total_amount = 4, o_status = ustr ''new'', o_created_at = 12\<rparr> \<and>
   ustr ''new'' \<in> set allowed_statuses"
  using demo_reach demo_ordered_order backend_order_status_type [OF demo_reach demo_ordered_order] by simp

lemma jwt_required_failure:
  "auth_failure C h = Some e \<Longrightarrow> jwt_required C h f s = (Inl e, s)"
  by (auto simp: auth_failure_def jwt_required_def eraise_def split: option.splits)

text \<open>
  C22. Authentication follows the route table: a request to a route behind
  \<open>@jwt_required\<close> whose \<open>Authorization\<close> header has no token that verifies is
  answered 401 (\<open>Token is missing\<close> or \<open>Invalid token\<close>) and changes nothing, and
  every other route answers the same whatever the header says (it trusts the chat id
  or the link token in the request).
\<close>

theorem route_authentication:
  "(bearer_route r \<longrightarrow> auth_failure C h = Some e \<longrightarrow> route C F now tok h r s = (Inl e, s)) \<and>
   (\<not> bearer_route r \<longrightarrow> route C F now tok h r = route C F now tok h' r)"
  by (cases r) (simp_all add: jwt_required_failure)

theorem route_authentication_witness:
  "bearer_route Get_orders \<and> auth_failure demo_crypto None = Some token_missing \<and>
   route demo_crypto no_faults 0 [] None Get_orders backend_init = (Inl token_missing, backend_init) \<and>
   \<not> bearer_route (Tg_orders (Some (ustr ''555''))) \<and>
   route demo_crypto no_faults 0 [] None (Tg_orders (Some (ustr ''555''))) =
     route demo_crypto no_faults 0 [] demo_auth (Tg_orders (Some (ustr ''555'')))"
proof -
  have a: "auth_failure demo_crypto None = Some token_missing"
    by (simp add: auth_failure_def bearer_token_def)
  note r = route_authentication [of Get_orders demo_crypto None token_missing no_faults 0 "[]" backend_init]
  note t = route_authentication [of "Tg_orders (Some (ustr ''555''))" demo_crypto None _ no_faults 0 "[]" _ demo_auth]
  from a r t show ?thesis by simp
qed

text \<open>
  C30. The running backend reaches, through its own routes, a state in which two different
  users carry the same chat id: register two accounts, then issue a link token to each and
  redeem both for the same chat. \<open>link_telegram\<close> never checks whether the chat is
  already linked (the spec leaves this open), and the store invariant does not exclude
  it. In that state the \<open>SELECT ... WHERE telegram_id = ?\<close> of the chat-id endpoints
  matches both rows, so which account they act on is left to SQLite's row order.
\<close>

theorem chat_id_shared_reachable:
  assumes C: "crypto_ok C" and t: "t \<noteq> []"
  shows "\<exists>s r r'. backend_reach C s \<and> users (db s) 1 = Some r \<and> users (db s) 2 = Some r' \<and>
            telegram_id r = Some t \<and> telegram_id r' = Some t \<and>
            set (rows_where (users (db s)) (next_user (db s)) (\<lambda>r. telegram_id r = Some t)) = {(1, r), (2, r')}"
proof -
  let ?ra = demo_reg_req
  let ?rb = "demo_reg_req\<lparr>rg_username := Some (ustr ''bob''), rg_email := Some (ustr ''bob@shop'')\<rparr>"
  let ?h = "\<lambda>u. Some (ustr ''Bearer '' @ create_access_token C u)"
  define s1 where "s1 = snd (route C no_faults 1 [] None (Register ?ra) backend_init)"
  define s2 where "s2 = snd (route C no_faults 2 [] None (Register ?rb) s1)"
  have d1: "db s1 = add_user (ustr ''ann'') (ustr ''ann@shop'') (ustr ''Ann'') (ustr ''Lee'') (hash_pswd C (ustr ''pw'')) 1 empty_db"
    by (simp add: s1_def respond_def reg_def demo_reg_req_def missing_field_def truthy_str_def ustr_def
      sel_user_taken_def ins_user_def add_user_def empty_db_def backend_init_def rows_where_def
      Let_def ebind_def eret_def execute_query_def no_faults_def)
  have d2: "db s2 = add_user (ustr ''bob'') (ustr ''bob@shop'') (ustr ''Ann'') (ustr ''Lee'') (hash_pswd C (ustr ''pw'')) 2 (db s1)"
    by (simp add: s2_def d1 respond_def reg_def demo_reg_req_def missing_field_def truthy_str_def ustr_def
      sel_user_taken_def ins_user_def add_user_def empty_db_def rows_where_def upt_rec
      Let_def ebind_def eret_def execute_query_def no_faults_def)
  let ?ann = "\<lparr>username = ustr ''ann'', email = ustr ''ann@shop'', first_name = ustr ''Ann'', last_name = ustr ''Lee'',
               password_hash = hash_pswd C (ustr ''pw''), theme = ustr ''light'', telegram_id = None, u_created_at = 1\<rparr>"
  let ?bob = "\<lparr>username = ustr ''bob'', email = ustr ''bob@shop'', first_name = ustr ''Ann'', last_name = ustr ''Lee'',
               password_hash = hash_pswd C (ustr ''pw''), theme = ustr ''light'', telegram_id = None, u_created_at = 2\<rparr>"
  have u2: "users (db s2) = [1 \<mapsto> ?ann, 2 \<mapsto> ?bob]" "next_user (db s2) = 3"
    "link_tokens (db s2) = Map.empty" "next_token (db s2) = 1"
    by (simp_all add: d2 d1 add_user_def empty_db_def eval_nat_numeral)
  define s3 where "s3 = snd (route C no_faults 3 (ustr ''ka'') (?h 1) Generate_token s2)"
  have d3: "db s3 = (db s2)\<lparr>link_tokens := [1 \<mapsto> \<lparr>t_user = 1, token = ustr ''ka'', expires_at = 3 + token_lifetime, is_used = False\<rparr>],
                              next_token := 2\<rparr>"
    by (simp add: s3_def jwt_required_own_token [OF C] respond_def generate_telegram_token_def u2
        del_tokens_of_def ins_token_def sel_user_def notify_if_def rows_where_def
        ebind_def eret_def execute_query_def no_faults_def)
  let ?ka = "\<lparr>t_user = 1, token = ustr ''ka'', expires_at = 3 + token_lifetime, is_used = False\<rparr>"
  have u3: "users (db s3) = [1 \<mapsto> ?ann, 2 \<mapsto> ?bob]" "link_tokens (db s3) = [1 \<mapsto> ?ka]" "next_token (db s3) = 2"
    "next_user (db s3) = 3"
    by (simp_all add: d3 u2)
  define s4 where "s4 = snd (route C no_faults 4 [] None (Link_telegram (Some (ustr ''ka'')) (Some t)) s3)"
  have u4: "users (db s4) = [1 \<mapsto> ?ann\<lparr>telegram_id := Some t\<rparr>, 2 \<mapsto> ?bob]"
    "link_tokens (db s4) = [1 \<mapsto> ?ka\<lparr>is_used := True\<rparr>]" "next_token (db s4) = 2"
    "next_user (db s4) = 3"
    using t by (simp_all add: s4_def respond_def link_telegram_def u3 sel_valid_token_def valid_token_def
        rows_where_def upt_rec token_lifetime_def sel_user_def upd_user_tg_def mark_token_used_def
        send_telegram_notification_def ebind_def eret_def execute_query_def no_faults_def ustr_def fun_eq_iff)
  define s5 where "s5 = snd (route C no_faults 5 (ustr ''kb'') (?h 2) Generate_token s4)"
  let ?kb = "\<lparr>t_user = 2, token = ustr ''kb'', expires_at = 5 + token_lifetime, is_used = False\<rparr>"
  have r5: "route C no_faults 5 (ustr ''kb'') (?h 2) Generate_token s4 =
              respond R_link_token (generate_telegram_token no_faults 2 (ustr ''kb'') 5) s4"
    by (simp add: jwt_required_own_token [OF C])
  have kab: "ustr ''ka'' \<noteq> ustr ''kb''" "ustr ''kb'' \<noteq> []" by (simp_all add: ustr_def)
  have u5: "users (db s5) = [1 \<mapsto> ?ann\<lparr>telegram_id := Some t\<rparr>, 2 \<mapsto> ?bob]"
    "link_tokens (db s5) = [1 \<mapsto> ?ka\<lparr>is_used := True\<rparr>, 2 \<mapsto> ?kb]" "next_token (db s5) = 3"
    "next_user (db s5) = 3"
    unfolding s5_def r5 using kab
    by (simp_all add: respond_def generate_telegram_token_def u4
        del_tokens_of_def ins_token_def sel_user_def notify_if_def rows_where_def upt_rec
        send_telegram_notification_def ebind_def eret_def execute_query_def no_faults_def fun_eq_iff)
  define s6 where "s6 = snd (route C no_faults 6 [] None (Link_telegram (Some (ustr ''kb'')) (Some t)) s5)"
  have u6: "users (db s6) = [1 \<mapsto> ?ann\<lparr>telegram_id := Some t\<rparr>, 2 \<mapsto> ?bob\<lparr>telegram_id := Some t\<rparr>]"
    "next_user (db s6) = 3"
    using t kab by (simp_all add: s6_def respond_def link_telegram_def u5 sel_valid_token_def valid_token_def
        rows_where_def upt_rec token_lifetime_def sel_user_def upd_user_tg_def mark_token_used_def
        send_telegram_notification_def ebind_def eret_def execute_query_def no_faults_def fun_eq_iff)
  have "backend_reach C s6"
    unfolding s6_def s5_def s4_def s3_def s2_def s1_def by (intro reach_route reach_init)
  moreover have "set (rows_where (users (db s6)) (next_user (db s6)) (\<lambda>r. telegram_id r = Some t)) =
      {(1, ?ann\<lparr>telegram_id := Some t\<rparr>), (2, ?bob\<lparr>telegram_id := Some t\<rparr>)}"
    unfolding u6 by (simp add: rows_where_def upt_rec numeral_2_eq_2)
  ultimately show ?thesis using u6(1) by auto
qed

theorem chat_id_shared_reachable_witness:
  "\<exists>s r r'. backend_reach demo_crypto s \<and> users (db s) 1 = Some r \<and> users (db s) 2 = Some r' \<and>
     telegram_id r = Some (ustr ''555'') \<and> telegram_id r' = Some (ustr ''555'') \<and>
     set (rows_where (users (db s)) (next_user (db s)) (\<lambda>r. telegram_id r = Some (ustr ''555''))) =
       {(1, r), (2, r')}"
  using chat_id_shared_reachable [OF demo_crypto_ok, of "ustr ''555''"] by (simp add: ustr_def)

end
