(* ===== verification/Spec2Isabelle.thy ===== *)
theory Spec2Isabelle
  imports Orders System Accounts Catalog Config Backend
begin

text \<open>
  \<^bold>\<open>A verification model of the Bobrshop backend and its Telegram bot.\<close>

  The program has two processes. The Flask backend (\<open>src/back/app.py\<close> over the SQLite
  store of \<open>src/back/database.py\<close>) serves the web shop's JSON API: orders, a Telegram
  account link and the endpoints the bot calls; it pushes notifications to Telegram chats.
  The aiogram bot (\<open>src/tg_bot/bot.py\<close>) talks to users and calls the backend over HTTP
  through \<open>make_api_request\<close>. The theories, from the bottom up:

  \<^item> \<open>Prelude\<close>: identifiers, text as code-point lists (\<open>ustr\<close>), money as rationals,
    the HTTP error values (\<open>api_error\<close>), and the exception-state monad
    (\<open>eret\<close>, \<open>eraise\<close>, \<open>ebind\<close>, \<open>efold\<close>, \<open>emap\<close>) in which every backend handler
    is written; an error keeps the state reached so far.
  \<^item> \<open>Store\<close>: the five tables of \<open>init_db\<close> as maps with their counters, one function
    per SQL statement of \<open>app.py\<close>, and the well-formedness \<open>db_wf\<close>.
  \<^item> \<open>Notify\<close> and \<open>Runtime\<close>: the outbox of \<open>send_telegram_notification\<close>, and
    \<open>execute_query\<close>, which commits each statement on its own and raises on statement
    \<open>n\<close> exactly when the fault oracle \<open>F n\<close> says so.
  \<^item> \<open>Orders\<close>: \<open>create_order\<close> (as \<open>collect_item\<close>, \<open>insert_order\<close>,
    \<open>notify_order\<close>), \<open>get_orders\<close>, \<open>get_order\<close>, \<open>update_order\<close>. Claims C1-C9:
    the total and the stored items, the partial commit when an item INSERT fails, client
    errors without effect, the notifications, 404 for foreign orders, status updates.
  \<^item> \<open>Linking\<close>: \<open>generate_telegram_token\<close> and \<open>link_telegram\<close>, with the invariant
    \<open>link_inv\<close> (tokens unique, store well-formed) kept by both. Claims C10-C13 and
    C17: reissue revokes earlier tokens, a token links once, and a new token equal to
    another user's fails on UNIQUE after the DELETE committed, leaving the user without
    one (C14 and C16 are in \<open>Backend\<close>, C15 in \<open>Accounts\<close>).
  \<^item> \<open>PyText\<close>: \<open>str.split\<close>, \<open>str.strip\<close>, \<open>int()\<close>, \<open>float()\<close>, \<open>str.lower()\<close>
    as the bot uses them, with the round trip of \<open>int\<close> and \<open>show_int\<close>.
  \<^item> \<open>Pagination\<close>: \<open>cmd_orders\<close>, \<open>split_orders_into_pages\<close>,
    \<open>create_pagination_keyboard\<close>, \<open>process_orders_pagination\<close>,
    \<open>process_current_page\<close> over the module dict \<open>user_pages\<close>. Claims C18-C21 and
    C23-C26: pages are the reference \<open>chunks\<close>, concatenate back to the orders, have
    bounded size, page numbers round-trip through the callback data, and every reachable
    \<open>user_pages\<close>
    satisfies \<open>page_ok\<close> (rule induction over \<open>page_reach\<close>). The status display
    \<open>get_status_emoji\<close>, \<open>format_status\<close> is here too; the lemma
    \<open>reached_status_displayed\<close> at the end of this theory shows that, with the backend's
    status invariant, their fallbacks are never used.
  \<^item> \<open>Telegram\<close>: \<open>create_telegram_order\<close>, \<open>get_telegram_products\<close>,
    \<open>get_telegram_user_info\<close>, \<open>get_telegram_orders\<close>. Claims C27, C28, C31:
    the stored total is the client's and every item gets a new product row of the buyer, a
    missing quantity leaves an orphan product, and the order list the bot reads.
  \<^item> \<open>Config\<close>: \<open>src/back/config.py\<close>, the settings as a function of the process
    environment; without \<open>JWT_SECRET_KEY\<close> the JWT secret is the published default, and
    every \<open>FLASK_ENV\<close> other than \<open>production\<close> runs with \<open>DEBUG\<close>.
  \<^item> \<open>Auth\<close>: \<open>src/back/auth.py\<close>. \<open>check_pswd\<close>, the bearer-header parsing and
    \<open>jwt_required\<close> from the code; bcrypt and PyJWT as a record \<open>crypto\<close> of four
    functions, with \<open>crypto_ok\<close> the properties the code relies on.
  \<^item> \<open>Accounts\<close>: \<open>reg\<close>, \<open>login\<close>, \<open>get_profile\<close>, \<open>update_profile\<close>,
    \<open>delete_account\<close>. Claims C15 and C33: deleting an account leaves other users' order
    items pointing at deleted products, and registering then logging in by username
    authenticates the new user exactly when no earlier user has that username as e-mail.
  \<^item> \<open>Catalog\<close>: \<open>create_product\<close>, \<open>get_products\<close>, \<open>get_all_products\<close>,
    \<open>update_product\<close>, \<open>delete_product\<close>. Claim C29: the writes touch only the
    caller's own product row.
  \<^item> \<open>Bot\<close>: the \<open>CreateOrderStates\<close> dialogue, its per-user FSM state and data dict,
    every message and callback handler, and the dispatcher \<open>bot_step\<close> that tries them in
    registration order. The backend is an interface \<open>bot_api\<close> over any state type, so
    the claims hold whatever the backend answers. Claim C32: from any state the six
    updates of an order dialogue reach the confirmation (no dead end). Claims C34-C37: the invariant
    \<open>data_ok\<close> of every reachable state (rule induction over \<open>bot_reach\<close>), the
    confirmation body's total, \<open>/orders\<close> swallowed as a product name, \<open>nan\<close>
    accepted as a price.
  \<^item> \<open>System\<close>: \<open>backend_api\<close> instantiates the interface with the backend model and
    the status filter of \<open>make_api_request\<close>. Claims C38-C40: an unusable link code is
    reported as a connection failure, a confirmed dialogue stores the order with price
    times quantity and a duplicate product, and \<open>/profile\<close> counts at most three
    orders.
  \<^item> \<open>Backend\<close>: the Flask application as a whole. \<open>route\<close> is the
    \<open>@app.route\<close> table, with \<open>jwt_required\<close> in front of the handlers that carry it;
    \<open>backend_init\<close> is the state after \<open>init_db()\<close>; \<open>backend_reach\<close> holds of every
    state reached by any sequence of requests, with any headers, clock, drawn link tokens
    and database faults. Each SQL statement preserves \<open>store_inv\<close> (the \<open>preserves_*\<close>
    lemmas), each handler keeps it on every path, errors included (\<open>keeps_*\<close>), and rule
    induction lifts it to all reachable states. Claims C14 and C16: every stored order
    status is one of the four allowed ones, and the store is well-formed with unique link
    tokens, usernames and e-mails. Claim C22: the routes behind \<open>jwt_required\<close>
    (\<open>bearer_route\<close>) answer 401 without change to a header with no verifying token,
    and the others do not read the header. Claim C30: two registrations and two
    token redemptions for one chat reach a state where two users share that chat id, so
    the chat-id endpoints' query matches two rows.

  \<^bold>\<open>Bounds and fuel.\<close> No loop of the program can run forever: every loop is over a
  list (items, rows, pages) and is modelled by structural recursion or \<open>efold\<close>/\<open>emap\<close>;
  \<open>py_range\<close> and \<open>chunks\<close> terminate by a measure. No fuel is used. The fault oracle
  replaces the failures of the database; the claims that a handler succeeds assume
  \<open>faults_free F n k\<close> for exactly the \<open>k\<close> statements it issues.

  \<^bold>\<open>Not modelled.\<close> SQLite's choice of row order for a query without
  \<open>ORDER BY\<close>: every table scan is in id order, and \<open>fetchone\<close> takes the first match
  (no claim depends on this order; C30 shows a state where it decides which account the
  chat-id endpoints use). bcrypt and PyJWT themselves (abstract in \<open>Auth\<close>; the handlers
  behind \<open>jwt_required\<close> take the authenticated user id as an input, and \<open>route\<close>
  puts the decorator in front of them); the \<open>endpoints\<close> listing of the \<open>/\<close> route, the
  CORS setup and the printing in \<open>get_config\<close>; JSON values of unexpected types in request bodies; HTML text and
  emoji of messages (replies are kept as their content); the aiohttp transport (a failed
  request is \<open>None\<close>, like any non-2xx answer); the binary64 rounding of floats and the
  overflow of huge literals to \<open>inf\<close>; non-ASCII digits in \<open>int()\<close>; and, in
  \<open>System\<close>, bodies with a NaN or infinite number, which the exact-money backend model
  cannot represent and which are answered as failed requests.
\<close>

section \<open>Across the two processes\<close>

text \<open>The bot shows an order's status with \<open>get_status_emoji\<close> and \<open>format_status\<close>.
  Since every status the backend ever stores is one of the four (\<open>Backend\<close>), the
  fallbacks of the two lookups (the parcel emoji, the raw status text) are never used for
  an order the backend returns.\<close>

lemma reached_status_displayed:
  assumes "backend_reach C s" and "orders (db s) k = Some r"
  shows "get_status_emoji (o_status r) \<noteq> [128230] \<and> format_status (o_status r) \<noteq> o_status r"
proof -
  from reach_store_inv [OF assms(1)] assms(2) have "o_status r \<in> set allowed_statuses"
    by (simp add: store_inv_def statuses_ok_def)
  then show ?thesis
    by (auto simp: allowed_statuses_def ustr_def get_status_emoji_def emoji_map_def format_status_def
        status_map_def)
qed

end
